theory Spec2Isabelle
  imports Main
begin

section \<open>Go values and library functions used by the packages\<close>

text \<open>
  The repository holds three revisions of one package: \<^verbatim>\<open>part_000\<close> (package wtr, the
  earliest schema), \<^verbatim>\<open>part_001\<close> (package wtr, with the string forms of the WGS84
  coordinates) and \<^verbatim>\<open>wtrcsv.go\<close> (package wtrcsv). Definitions of \<^verbatim>\<open>wtrcsv.go\<close> keep
  the source's names; those of the two older revisions carry the suffix \<open>_p0\<close> or \<open>_p1\<close>.

  A Go string is a sequence of bytes, so it is a \<^typ>\<open>string\<close>: \<^typ>\<open>char\<close> is a byte.
  Go's \<^verbatim>\<open>int\<close> is taken to be 64 bits wide; \<^verbatim>\<open>float64\<close> is a type parameter \<open>'f\<close> whose
  \<open>0\<close> is the zero value, and \<^verbatim>\<open>strconv.ParseFloat\<close> and \<^verbatim>\<open>fmt.Sprintf("%f", _)\<close> are
  parameters of the functions that call them.
\<close>

datatype error =
    NumError string string   \<comment> \<open>\<^verbatim>\<open>*strconv.NumError{Func, Num}\<close>\<close>
  | ErrFieldCount            \<comment> \<open>\<^verbatim>\<open>csv.ErrFieldCount\<close>\<close>
  | Wrap error string        \<comment> \<open>\<^verbatim>\<open>errors.Wrap(err, message)\<close>\<close>
  | NilDereference           \<comment> \<open>run-time panic: nil pointer dereference\<close>

text \<open>\<^verbatim>\<open>m[k]\<close> on a \<^verbatim>\<open>map[string]string\<close>: the zero value when the key is absent.\<close>

definition lookup :: "(string \<rightharpoonup> string) \<Rightarrow> string \<Rightarrow> string" where
  "lookup m k = (case m k of None \<Rightarrow> '''' | Some v \<Rightarrow> v)"

subsection \<open>strconv.Atoi and strconv.Itoa\<close>

definition isDigit :: "char \<Rightarrow> bool" where
  "isDigit ch = (48 \<le> (of_char ch :: nat) \<and> (of_char ch :: nat) \<le> 57)"

definition parseDigits :: "string \<Rightarrow> nat" where
  "parseDigits s = foldl (\<lambda>n ch. n * 10 + ((of_char ch :: nat) - 48)) 0 s"

text \<open>
  \<^verbatim>\<open>strconv.Atoi\<close>: an optional sign, then one or more decimal digits and nothing else;
  the value must fit a 64-bit signed integer. Any other input is an error.
\<close>

definition Atoi :: "string \<Rightarrow> error + int" where
  "Atoi s =
     (let neg = (s \<noteq> [] \<and> hd s = CHR ''-'');
          body = (if s \<noteq> [] \<and> (hd s = CHR ''-'' \<or> hd s = CHR ''+'') then tl s else s)
      in if body = [] \<or> \<not> list_all isDigit body then Inl (NumError ''Atoi'' s)
         else let n = int (parseDigits body); v = (if neg then - n else n)
              in if v < - (2 ^ 63) \<or> 2 ^ 63 - 1 < v then Inl (NumError ''Atoi'' s)
                 else Inr v)"

fun digits :: "nat \<Rightarrow> string" where
  "digits n = (if n < 10 then [char_of (48 + n)] else digits (n div 10) @ [char_of (48 + n mod 10)])"

declare digits.simps [simp del]

definition Itoa :: "int \<Rightarrow> string" where
  "Itoa i = (if i < 0 then CHR ''-'' # digits (nat (- i)) else digits (nat i))"

section \<open>Slices, collections and the heap\<close>

text \<open>
  A slice is a window on a backing array: the array's address, the offset of the window,
  its length and its capacity. A \<^verbatim>\<open>*Row\<close> is \<open>None\<close> (nil) or \<open>Some row\<close>: no function of
  the package writes to a row after \<^verbatim>\<open>newRow\<close> has built it, so a pointer is represented
  by the row it points to. The header's backing array is never written either, so a
  \<^verbatim>\<open>[]string\<close> header is its list of labels. \<^verbatim>\<open>LicenceCollection\<close> of the two older
  revisions has the same two fields as \<^verbatim>\<open>Collection\<close>.
\<close>

type_synonym addr = nat
type_synonym 'r ptr = "'r option"

record slice =
  arr :: addr
  off :: nat
  len :: nat
  cap :: nat

record Collection =
  Header :: "string list"
  Rows :: slice

type_synonym LicenceCollection = Collection

record 'r heap =
  arrays :: "addr \<Rightarrow> 'r ptr list"
  colls :: "addr \<Rightarrow> Collection"
  nextArray :: addr
  nextColl :: addr

definition elems :: "'r heap \<Rightarrow> slice \<Rightarrow> 'r ptr list" where
  "elems h s = take (len s) (drop (off s) (arrays h (arr s)))"

text \<open>\<^verbatim>\<open>make([]*Row, n)\<close>: a fresh array of \<open>n\<close> nil pointers.\<close>

definition make_slice :: "'r heap \<Rightarrow> nat \<Rightarrow> 'r heap \<times> slice" where
  "make_slice h n =
     (h\<lparr>arrays := (arrays h)(nextArray h := replicate n None), nextArray := Suc (nextArray h)\<rparr>,
      \<lparr>arr = nextArray h, off = 0, len = n, cap = n\<rparr>)"

text \<open>\<^verbatim>\<open>s[i] = v\<close>\<close>

definition store :: "'r heap \<Rightarrow> slice \<Rightarrow> nat \<Rightarrow> 'r ptr \<Rightarrow> 'r heap" where
  "store h s i v = h\<lparr>arrays := (arrays h)(arr s := (arrays h (arr s))[off s + i := v])\<rparr>"

text \<open>
  \<^verbatim>\<open>append(s, v)\<close>: with spare capacity the element is written into the backing array
  behind the window; otherwise the elements move to a fresh, larger array. The new
  capacity is the runtime's choice: \<open>growslice\<close> is its policy, and the array always has
  room for the new element.
\<close>

definition append_slice :: "(nat \<Rightarrow> nat) \<Rightarrow> 'r heap \<Rightarrow> slice \<Rightarrow> 'r ptr \<Rightarrow> 'r heap \<times> slice" where
  "append_slice growslice h s v =
     (if len s < cap s then (store h s (len s) v, s\<lparr>len := Suc (len s)\<rparr>)
      else let newcap = max (growslice (cap s)) (Suc (len s));
               a = nextArray h
           in (h\<lparr>arrays := (arrays h)(a := elems h s @ [v] @ replicate (newcap - Suc (len s)) None),
                 nextArray := Suc a\<rparr>,
               \<lparr>arr = a, off = 0, len = Suc (len s), cap = newcap\<rparr>))"

text \<open>\<^verbatim>\<open>&Collection{...}\<close>: a new Collection object.\<close>

text \<open>The heap of a program that has allocated nothing yet.\<close>

definition empty_heap :: "'r heap" where
  "empty_heap =
     \<lparr>arrays = (\<lambda>a. []),
      colls = (\<lambda>a. \<lparr>Header = [], Rows = \<lparr>arr = 0, off = 0, len = 0, cap = 0\<rparr>\<rparr>),
      nextArray = 0, nextColl = 0\<rparr>"

definition new_coll :: "'r heap \<Rightarrow> Collection \<Rightarrow> 'r heap \<times> addr" where
  "new_coll h c = (h\<lparr>colls := (colls h)(nextColl h := c), nextColl := Suc (nextColl h)\<rparr>, nextColl h)"

section \<open>Reading the table\<close>

text \<open>
  The input of \<^verbatim>\<open>CSVToMap\<close> is the sequence of records that \<^verbatim>\<open>csv.Reader\<close> finds in the
  stream. The reader is used with its default \<^verbatim>\<open>FieldsPerRecord = 0\<close>: a record whose
  number of fields differs from the first record's makes \<^verbatim>\<open>Read\<close> return
  \<^verbatim>\<open>ErrFieldCount\<close>. The first record is the header; every later one becomes a map from
  the header's labels to its fields.
\<close>

definition dict_of :: "string list \<Rightarrow> string list \<Rightarrow> (string \<rightharpoonup> string)" where
  "dict_of header rcd = fold (\<lambda>i dict. dict(header ! i \<mapsto> rcd ! i)) [0..<length header] Map.empty"

fun CSVToMap_loop ::
  "string list list \<Rightarrow> string list option \<Rightarrow> (string \<rightharpoonup> string) list
     \<Rightarrow> error + string list \<times> (string \<rightharpoonup> string) list" where
  "CSVToMap_loop [] header rows = Inr (case header of None \<Rightarrow> [] | Some labels \<Rightarrow> labels, rows)"
| "CSVToMap_loop (rcd # rest) None rows = CSVToMap_loop rest (Some rcd) rows"
| "CSVToMap_loop (rcd # rest) (Some header) rows =
     (if length rcd \<noteq> length header then Inl ErrFieldCount
      else CSVToMap_loop rest (Some header) (rows @ [dict_of header rcd]))"

text \<open>\<^verbatim>\<open>wtrcsv.go\<close> wraps the reader's error; the older revisions log it as it is.\<close>

definition CSVToMap :: "string list list \<Rightarrow> error + string list \<times> (string \<rightharpoonup> string) list" where
  "CSVToMap reader =
     (case CSVToMap_loop reader None [] of
        Inl err \<Rightarrow> Inl (Wrap err ''could not read from reader'')
      | Inr res \<Rightarrow> Inr res)"

definition CSVToMap_p0 :: "string list list \<Rightarrow> error + string list \<times> (string \<rightharpoonup> string) list" where
  "CSVToMap_p0 reader = CSVToMap_loop reader None []"

definition CSVToMap_p1 :: "string list list \<Rightarrow> error + string list \<times> (string \<rightharpoonup> string) list" where
  "CSVToMap_p1 reader = CSVToMap_loop reader None []"

text \<open>
  The loop of \<^verbatim>\<open>ReadCSV\<close>: \<^verbatim>\<open>collection.Rows[i] = newRow(columns)\<close> for every raw row. A
  \<^verbatim>\<open>log.Fatal\<close> inside \<^verbatim>\<open>newRow\<close> ends the process: the load has no result but the error.
\<close>

fun ReadCSV_loop ::
  "((string \<rightharpoonup> string) \<Rightarrow> error + 'r) \<Rightarrow> 'r heap \<Rightarrow> slice \<Rightarrow> nat \<Rightarrow> (string \<rightharpoonup> string) list
     \<Rightarrow> error + 'r heap" where
  "ReadCSV_loop new h rows i [] = Inr h"
| "ReadCSV_loop new h rows i (columns # rest) =
     (case new columns of
        Inl err \<Rightarrow> Inl err
      | Inr row \<Rightarrow> ReadCSV_loop new (store h rows i (Some row)) rows (Suc i) rest)"

text \<open>
  The loops of \<^verbatim>\<open>WriteCSV\<close>: for every row, \<^verbatim>\<open>csvRow[j] = rowAsMap[heading]\<close> for every
  heading, then \<^verbatim>\<open>w.Write(csvRow)\<close>. The result is the list of records written; the
  writer's own failures (a sink that refuses bytes) are not modelled.
\<close>

fun WriteCSV_loop ::
  "('r \<Rightarrow> string \<rightharpoonup> string) \<Rightarrow> string list \<Rightarrow> 'r ptr list \<Rightarrow> error + string list list" where
  "WriteCSV_loop toMap header [] = Inr []"
| "WriteCSV_loop toMap header (None # rest) = Inl NilDereference"
| "WriteCSV_loop toMap header (Some row # rest) =
     (let rowAsMap = toMap row;
          csvRow = map (\<lambda>heading. lookup rowAsMap heading) header
      in case WriteCSV_loop toMap header rest of
           Inl err \<Rightarrow> Inl err
         | Inr written \<Rightarrow> Inr (csvRow # written))"

section \<open>String functions of the earliest revision\<close>

subsection \<open>UTF-8 decoding and unicode.IsSpace\<close>

text \<open>
  \<^verbatim>\<open>strings.Fields\<close> and \<^verbatim>\<open>strings.TrimSpace\<close> read a string as UTF-8. A byte
  sequence that is no valid encoding decodes to \<^verbatim>\<open>utf8.RuneError\<close> with width 1.
\<close>

type_synonym rune = nat

definition RuneError :: rune where
  "RuneError = 0xFFFD"

definition byteIn :: "char \<Rightarrow> nat \<Rightarrow> nat \<Rightarrow> bool" where
  "byteIn ch lo hi = (lo \<le> (of_char ch :: nat) \<and> (of_char ch :: nat) \<le> hi)"

fun DecodeRuneInString :: "string \<Rightarrow> rune \<times> nat" where
  "DecodeRuneInString [] = (RuneError, 0)"
| "DecodeRuneInString (c0 # cs) =
     (let s0 = (of_char c0 :: nat) in
      if s0 < 0x80 then (s0, 1)
      else if s0 < 0xC2 \<or> 0xF4 < s0 then (RuneError, 1)
      else if s0 < 0xE0 then
        (case cs of
           c1 # _ \<Rightarrow>
             if byteIn c1 0x80 0xBF then ((s0 mod 32) * 64 + of_char c1 mod 64, 2)
             else (RuneError, 1)
         | _ \<Rightarrow> (RuneError, 1))
      else if s0 < 0xF0 then
        (case cs of
           c1 # c2 # _ \<Rightarrow>
             if byteIn c1 (if s0 = 0xE0 then 0xA0 else 0x80) (if s0 = 0xED then 0x9F else 0xBF)
                \<and> byteIn c2 0x80 0xBF
             then (((s0 mod 16) * 64 + of_char c1 mod 64) * 64 + of_char c2 mod 64, 3)
             else (RuneError, 1)
         | _ \<Rightarrow> (RuneError, 1))
      else
        (case cs of
           c1 # c2 # c3 # _ \<Rightarrow>
             if byteIn c1 (if s0 = 0xF0 then 0x90 else 0x80) (if s0 = 0xF4 then 0x8F else 0xBF)
                \<and> byteIn c2 0x80 0xBF \<and> byteIn c3 0x80 0xBF
             then ((((s0 mod 8) * 64 + of_char c1 mod 64) * 64 + of_char c2 mod 64) * 64
                     + of_char c3 mod 64, 4)
             else (RuneError, 1)
         | _ \<Rightarrow> (RuneError, 1)))"

text \<open>
  \<^verbatim>\<open>utf8.DecodeLastRuneInString\<close>: step back over at most three continuation bytes to a
  byte that can start a rune, decode from there, and accept the rune only if it ends
  where the string ends.
\<close>

definition RuneStart :: "char \<Rightarrow> bool" where
  "RuneStart ch = (\<not> byteIn ch 0x80 0xBF)"

definition DecodeLastRuneInString :: "string \<Rightarrow> rune \<times> nat" where
  "DecodeLastRuneInString s =
     (let end = length s in
      if end = 0 then (RuneError, 0)
      else if (of_char (s ! (end - 1)) :: nat) < 0x80 then (of_char (s ! (end - 1)), 1)
      else let lim = end - 4;
               start = (case find (\<lambda>i. RuneStart (s ! i)) (rev [lim..<end - 1]) of
                          Some i \<Rightarrow> i
                        | None \<Rightarrow> lim - 1);
               (r, size) = DecodeRuneInString (drop start s)
           in if start + size \<noteq> end then (RuneError, 1) else (r, size))"

definition IsSpace :: "rune \<Rightarrow> bool" where
  "IsSpace r =
     (r \<in> {0x09, 0x0A, 0x0B, 0x0C, 0x0D, 0x20, 0x85, 0xA0, 0x1680, 0x2028, 0x2029, 0x202F,
            0x205F, 0x3000}
      \<or> (0x2000 \<le> r \<and> r \<le> 0x200A))"

text \<open>The runes of a string, as \<^verbatim>\<open>for _, r := range s\<close> meets them, each with its bytes.\<close>

function runes :: "string \<Rightarrow> (rune \<times> string) list" where
  "runes s =
     (if s = [] then []
      else (fst (DecodeRuneInString s), take (snd (DecodeRuneInString s)) s)
             # runes (drop (snd (DecodeRuneInString s)) s))"
  by pat_completeness auto
termination
proof (relation "measure length")
  show "wf (measure length)" by simp
next
  fix s :: string
  assume "s \<noteq> []"
  then obtain c cs where s: "s = c # cs" by (cases s) auto
  have "0 < snd (DecodeRuneInString (c # cs))"
    by (simp add: Let_def split: list.split)
  with s show "(drop (snd (DecodeRuneInString s)) s, s) \<in> measure length"
    by simp
qed

declare runes.simps [simp del]

subsection \<open>strings.Fields, strings.Join and strings.TrimSpace\<close>

text \<open>
  \<^verbatim>\<open>strings.Fields\<close>: the maximal runs of runes that are not white space, in order.
  \<open>field\<close> is the run being read (empty when none has started).
\<close>

fun Fields_loop :: "(rune \<times> string) list \<Rightarrow> string \<Rightarrow> string list" where
  "Fields_loop [] field = (if field = [] then [] else [field])"
| "Fields_loop ((r, bytes) # rest) field =
     (if IsSpace r then (if field = [] then Fields_loop rest [] else field # Fields_loop rest [])
      else Fields_loop rest (field @ bytes))"

definition Fields :: "string \<Rightarrow> string list" where
  "Fields s = Fields_loop (runes s) []"

fun Join :: "string list \<Rightarrow> string \<Rightarrow> string" where
  "Join [] sep = []"
| "Join [e] sep = e"
| "Join (e # es) sep = e @ sep @ Join es sep"

text \<open>\<^verbatim>\<open>strings.TrimSpace\<close>: white space is cut from the front, then from the back.\<close>

function TrimLeft :: "string \<Rightarrow> string" where
  "TrimLeft s =
     (if s = [] then []
      else if IsSpace (fst (DecodeRuneInString s)) then TrimLeft (drop (snd (DecodeRuneInString s)) s)
      else s)"
  by pat_completeness auto
termination
proof (relation "measure length")
  show "wf (measure length)" by simp
next
  fix s :: string
  assume "s \<noteq> []"
  then obtain c cs where s: "s = c # cs" by (cases s) auto
  have "0 < snd (DecodeRuneInString (c # cs))"
    by (simp add: Let_def split: list.split)
  with s show "(drop (snd (DecodeRuneInString s)) s, s) \<in> measure length"
    by simp
qed

declare TrimLeft.simps [simp del]

function TrimRight :: "string \<Rightarrow> string" where
  "TrimRight s =
     (if s = [] then []
      else if IsSpace (fst (DecodeLastRuneInString s))
        then TrimRight (take (length s - snd (DecodeLastRuneInString s)) s)
      else s)"
  by pat_completeness auto
termination
proof (relation "measure length")
  show "wf (measure length)" by simp
next
  fix s :: string
  assume nonempty: "s \<noteq> []"
  let ?lim = "length s - 4"
  let ?start = "case find (\<lambda>i. RuneStart (s ! i)) (rev [?lim..<length s - 1]) of
                  Some i \<Rightarrow> i | None \<Rightarrow> ?lim - 1"
  have start: "?start < length s"
  proof (cases "find (\<lambda>i. RuneStart (s ! i)) (rev [?lim..<length s - 1])")
    case None
    with nonempty show ?thesis by (cases s) auto
  next
    case (Some i)
    then have "i \<in> set (rev [?lim..<length s - 1])"
      by (metis find_Some_iff nth_mem)
    then have "i < length s" by auto
    with Some show ?thesis by simp
  qed
  have "0 < snd (DecodeLastRuneInString s)"
    using nonempty start
    by (auto simp: DecodeLastRuneInString_def Let_def split: prod.splits)
  with nonempty show "(take (length s - snd (DecodeLastRuneInString s)) s, s) \<in> measure length"
    by simp
qed

declare TrimRight.simps [simp del]

definition TrimSpace :: "string \<Rightarrow> string" where
  "TrimSpace s = TrimRight (TrimLeft s)"

subsection \<open>strings.Contains and strings.Replace\<close>

fun HasPrefix :: "string \<Rightarrow> string \<Rightarrow> bool" where
  "HasPrefix s [] = True"
| "HasPrefix [] (p # ps) = False"
| "HasPrefix (c # cs) (p # ps) = (c = p \<and> HasPrefix cs ps)"

text \<open>\<^verbatim>\<open>strings.Index\<close>: the index of the first occurrence; \<open>None\<close> stands for \<open>-1\<close>.\<close>

fun Index :: "string \<Rightarrow> string \<Rightarrow> nat option" where
  "Index [] substr = (if substr = [] then Some 0 else None)"
| "Index (c # cs) substr =
     (if HasPrefix (c # cs) substr then Some 0 else map_option Suc (Index cs substr))"

definition Contains :: "string \<Rightarrow> string \<Rightarrow> bool" where
  "Contains s substr = (Index s substr \<noteq> None)"

text \<open>\<^verbatim>\<open>strings.Replace(s, old, new, 1)\<close>: the first occurrence of \<open>old\<close> becomes \<open>new\<close>.\<close>

definition Replace1 :: "string \<Rightarrow> string \<Rightarrow> string \<Rightarrow> string" where
  "Replace1 s old new =
     (case Index s old of None \<Rightarrow> s | Some i \<Rightarrow> take i s @ new @ drop (i + length old) s)"

subsection \<open>The pattern for a product code with its description appended\<close>

text \<open>
  \<^verbatim>\<open>regexp.MustCompile(`([0-9]{6})[\- ]+(.*)$`)\<close>. The pattern has no alternatives, so
  Go's leftmost-first match is found by trying the start positions from the left. At one
  position: six digits, then the longest run of dashes and spaces, which must not be
  empty, then the rest of the text, which \<^verbatim>\<open>(.*)$\<close> takes if it holds no line feed.
  A shorter run of separators never helps, since the rest it leaves holds the same line
  feeds.
\<close>

definition isSep :: "char \<Rightarrow> bool" where
  "isSep ch = (ch = CHR ''-'' \<or> ch = CHR '' '')"

definition matchAt :: "string \<Rightarrow> (string \<times> string) option" where
  "matchAt s =
     (let code = take 6 s; tail = drop 6 s; rest = dropWhile isSep tail
      in if length code = 6 \<and> list_all isDigit code \<and> tail \<noteq> [] \<and> isSep (hd tail)
            \<and> CHR 0x0A \<notin> set rest
         then Some (code, rest) else None)"

text \<open>
  \<^verbatim>\<open>cre.FindStringSubmatch\<close>: \<open>[]\<close> (nil) without a match, else the whole match and the
  two groups. The match runs to the end of the text.
\<close>

fun FindStringSubmatch :: "string \<Rightarrow> string list" where
  "FindStringSubmatch [] = []"
| "FindStringSubmatch (c # cs) =
     (case matchAt (c # cs) of
        Some (code, rest) \<Rightarrow> [c # cs, code, rest]
      | None \<Rightarrow> FindStringSubmatch cs)"


text \<open>
  A statement that may end in \<^verbatim>\<open>log.Fatal\<close> either gives the next state or the error
  the process dies with; \<open>andThen\<close> runs the statement after it.
\<close>

definition andThen :: "error + 'a \<Rightarrow> ('a \<Rightarrow> error + 'b) \<Rightarrow> error + 'b" where
  "andThen m f = (case m of Inl err \<Rightarrow> Inl err | Inr x \<Rightarrow> f x)"

section \<open>The earliest revision (part_000)\<close>

record 'f LicenceRow_p0 =
  LicenceNumber :: string
  LicenceIssueDate :: string
  SidLatNS :: string
  SidLatDeg :: string
  SidLatMin :: string
  SidLatSec :: string
  SidLongEW :: string
  SidLongDeg :: string
  SidLongMin :: string
  SidLongSec :: string
  NGR :: string
  Frequency :: string
  FrequencyType :: string
  StationType :: string
  ChannelWidth :: string
  ChannelWidthType :: string
  HeightAboveSeaLevel :: string
  AntennaErp :: string
  AntennaErpType :: string
  AntennaType :: string
  AntennaGain :: string
  AntennaAzimuth :: string
  HorizontalElements :: string
  VerticalElements :: string
  AntennaHeight :: string
  AntennaLocation :: string
  EflUpperLower :: string
  AntennaDirection :: string
  AntennaElevation :: string
  AntennaPolarisation :: string
  AntennaName :: string
  FeedingLoss :: string
  FadeMargin :: string
  EmissionCode :: string
  ApCommentIntern :: string
  Vector :: string
  LicenseeSurname :: string
  LicenseeFirstName :: string
  LicenseeCompany :: string
  Status :: string
  Tradeable :: string
  Publishable :: string
  ProductCode :: string
  ProductDescription :: string
  ProductDescription31 :: string
  ProductDescription32 :: string
  Osgb36Eastings :: int
  Osgb36Northings :: int
  Wgs84Eastings :: "'f"
  Wgs84Northings :: "'f"

text \<open>The block \<^verbatim>\<open>Product Code & Description\<close> of \<^verbatim>\<open>newLicenceRow\<close>.\<close>

definition productCodeAndDescription :: "(string \<rightharpoonup> string) \<Rightarrow> string \<times> string" where
  "productCodeAndDescription row =
     (let productCode = TrimSpace (lookup row ''Product Code'');
          productDescription = TrimSpace (lookup row ''Product Description'')
      in if length productCode > 6 \<and> length productDescription = 0
         then let mo = FindStringSubmatch productCode
              in if length mo > 2 then (mo ! 1, mo ! 2) else (productCode, productDescription)
         else (productCode, productDescription))"

text \<open>The block \<^verbatim>\<open>Tweak some company names\<close> of \<^verbatim>\<open>newLicenceRow\<close>.\<close>

definition pairs :: "(string \<times> string) list" where
  "pairs =
     [(''Public Limited Company'', ''PLC''),
      (''PUBLIC LIMITED COMPANY'', ''PLC''),
      (''Limited'', ''Ltd''),
      (''LIMITED'', ''LTD'')]"

definition tweakCompanyName :: "(string \<rightharpoonup> string) \<Rightarrow> string" where
  "tweakCompanyName row =
     (let licenseeCompany = lookup row ''Licencee Company''
      in if licenseeCompany = ''BRITISH TELECOMMUNICATIONS PUBLIC LIMITED COMPANY'' then ''BT PLC''
         else if licenseeCompany = ''MOBILE BROADBAND NETWORK LIMITED'' then ''MBNL''
         else fold (\<lambda>(old, new) licenseeCompany.
                      if Contains licenseeCompany old then Replace1 licenseeCompany old new
                      else licenseeCompany)
                pairs licenseeCompany)"

text \<open>The composite literal of \<^verbatim>\<open>newLicenceRow\<close>: the columns that every row has.\<close>

definition newLicenceRow_p0_literal ::
  "(string \<rightharpoonup> string) \<Rightarrow> string \<Rightarrow> string \<Rightarrow> string \<Rightarrow> string
     \<Rightarrow> ('f::zero) LicenceRow_p0" where
  "newLicenceRow_p0_literal row productCode productDescription licenseeCompany ngr =
     \<lparr>LicenceNumber = lookup row ''Licence Number'',
      LicenceIssueDate = lookup row ''Licence issue date'',
      SidLatNS = lookup row ''SID_LAT_N_S'', SidLatDeg = lookup row ''SID_LAT_DEG'',
      SidLatMin = lookup row ''SID_LAT_MIN'', SidLatSec = lookup row ''SID_LAT_SEC'',
      SidLongEW = lookup row ''SID_LONG_E_W'', SidLongDeg = lookup row ''SID_LONG_DEG'',
      SidLongMin = lookup row ''SID_LONG_MIN'', SidLongSec = lookup row ''SID_LONG_SEC'',
      NGR = ngr, Frequency = lookup row ''Frequency'',
      FrequencyType = lookup row ''Frequency Type'',
      StationType = lookup row ''Station Type'', ChannelWidth = lookup row ''Channel Width'',
      ChannelWidthType = lookup row ''Channel Width type'',
      HeightAboveSeaLevel = lookup row ''Height above sea level'',
      AntennaErp = lookup row ''Antenna ERP'',
      AntennaErpType = lookup row ''Antenna ERP type'',
      AntennaType = lookup row ''Antenna Type'', AntennaGain = lookup row ''Antenna Gain'',
      AntennaAzimuth = lookup row ''Antenna AZIMUTH'',
      HorizontalElements = lookup row ''Horizontal Elements'',
      VerticalElements = lookup row ''Vertical Elements'',
      AntennaHeight = lookup row ''Antenna Height'',
      AntennaLocation = lookup row ''Antenna Location'',
      EflUpperLower = lookup row ''EFL_UPPER_LOWER'',
      AntennaDirection = lookup row ''Antenna Direction'',
      AntennaElevation = lookup row ''Antenna Elevation'',
      AntennaPolarisation = lookup row ''Antenna Polarisation'',
      AntennaName = lookup row ''Antenna Name'', FeedingLoss = lookup row ''Feeding Loss'',
      FadeMargin = lookup row ''Fade Margin'', EmissionCode = lookup row ''Emission Code'',
      ApCommentIntern = lookup row ''AP_COMMENT_INTERN'', Vector = lookup row ''Vector'',
      LicenseeSurname = lookup row ''Licencee Surname'',
      LicenseeFirstName = lookup row ''Licencee First Name'',
      LicenseeCompany = licenseeCompany, Status = lookup row ''Status'',
      Tradeable = lookup row ''Tradeable'', Publishable = lookup row ''Publishable'',
      ProductCode = productCode, ProductDescription = productDescription,
      ProductDescription31 = lookup row ''Product Description 31'',
      ProductDescription32 = lookup row ''Product Description 32'', Osgb36Eastings = 0,
      Osgb36Northings = 0, Wgs84Eastings = 0, Wgs84Northings = 0\<rparr>"

text \<open>
  \<^verbatim>\<open>newLicenceRow\<close> of part_000. The four externally added columns are converted when the
  row has them; a conversion error ends the process (\<^verbatim>\<open>log.Fatal(err)\<close>).
\<close>

definition newLicenceRow_p0 ::
  "(string \<Rightarrow> error + 'f) \<Rightarrow> (string \<rightharpoonup> string) \<Rightarrow> error + ('f::zero) LicenceRow_p0" where
  "newLicenceRow_p0 ParseFloat row =
     (let (productCode, productDescription) = productCodeAndDescription row;
          licenseeCompany = tweakCompanyName row;
          ngr = Join (Fields (lookup row ''NGR'')) '''';
          licenceRow = newLicenceRow_p0_literal row productCode productDescription licenseeCompany ngr
      in andThen
           (if ''OSGB36 E'' \<in> dom row
            then (case Atoi (lookup row ''OSGB36 E'') of
                    Inl err \<Rightarrow> Inl err
                  | Inr n \<Rightarrow> Inr (licenceRow\<lparr>Osgb36Eastings := n\<rparr>))
            else Inr licenceRow)
        (\<lambda>licenceRow. andThen
           (if ''OSGB36 N'' \<in> dom row
            then (case Atoi (lookup row ''OSGB36 N'') of
                    Inl err \<Rightarrow> Inl err
                  | Inr n \<Rightarrow> Inr (licenceRow\<lparr>Osgb36Northings := n\<rparr>))
            else Inr licenceRow)
        (\<lambda>licenceRow. andThen
           (if ''WGS84 E'' \<in> dom row
            then (case ParseFloat (lookup row ''WGS84 E'') of
                    Inl err \<Rightarrow> Inl err
                  | Inr x \<Rightarrow> Inr (licenceRow\<lparr>Wgs84Eastings := x\<rparr>))
            else Inr licenceRow)
        (\<lambda>licenceRow.
           (if ''WGS84 N'' \<in> dom row
            then (case ParseFloat (lookup row ''WGS84 N'') of
                    Inl err \<Rightarrow> Inl err
                  | Inr x \<Rightarrow> Inr (licenceRow\<lparr>Wgs84Northings := x\<rparr>))
            else Inr licenceRow)))))"

text \<open>
  \<^verbatim>\<open>toMap\<close> of part_000: the four added columns are formatted from their numbers,
  \<^verbatim>\<open>strconv.Itoa\<close> for the integers and \<^verbatim>\<open>fmt.Sprintf("%f", _)\<close> for the floats.
\<close>

definition toMap_p0 :: "('f \<Rightarrow> string) \<Rightarrow> 'f LicenceRow_p0 \<Rightarrow> (string \<rightharpoonup> string)" where
  "toMap_p0 Sprintf_f licenceRow =
     map_of [(''Licence Number'', LicenceNumber licenceRow),
      (''Licence issue date'', LicenceIssueDate licenceRow),
      (''SID_LAT_N_S'', SidLatNS licenceRow), (''SID_LAT_DEG'', SidLatDeg licenceRow),
      (''SID_LAT_MIN'', SidLatMin licenceRow), (''SID_LAT_SEC'', SidLatSec licenceRow),
      (''SID_LONG_E_W'', SidLongEW licenceRow), (''SID_LONG_DEG'', SidLongDeg licenceRow),
      (''SID_LONG_MIN'', SidLongMin licenceRow), (''SID_LONG_SEC'', SidLongSec licenceRow),
      (''NGR'', NGR licenceRow), (''Frequency'', Frequency licenceRow),
      (''Frequency Type'', FrequencyType licenceRow),
      (''Station Type'', StationType licenceRow), (''Channel Width'', ChannelWidth licenceRow),
      (''Channel Width type'', ChannelWidthType licenceRow),
      (''Height above sea level'', HeightAboveSeaLevel licenceRow),
      (''Antenna ERP'', AntennaErp licenceRow),
      (''Antenna ERP type'', AntennaErpType licenceRow),
      (''Antenna Type'', AntennaType licenceRow), (''Antenna Gain'', AntennaGain licenceRow),
      (''Antenna AZIMUTH'', AntennaAzimuth licenceRow),
      (''Horizontal Elements'', HorizontalElements licenceRow),
      (''Vertical Elements'', VerticalElements licenceRow),
      (''Antenna Height'', AntennaHeight licenceRow),
      (''Antenna Location'', AntennaLocation licenceRow),
      (''EFL_UPPER_LOWER'', EflUpperLower licenceRow),
      (''Antenna Direction'', AntennaDirection licenceRow),
      (''Antenna Elevation'', AntennaElevation licenceRow),
      (''Antenna Polarisation'', AntennaPolarisation licenceRow),
      (''Antenna Name'', AntennaName licenceRow), (''Feeding Loss'', FeedingLoss licenceRow),
      (''Fade Margin'', FadeMargin licenceRow), (''Emission Code'', EmissionCode licenceRow),
      (''AP_COMMENT_INTERN'', ApCommentIntern licenceRow), (''Vector'', Vector licenceRow),
      (''Licencee Surname'', LicenseeSurname licenceRow),
      (''Licencee First Name'', LicenseeFirstName licenceRow),
      (''Licencee Company'', LicenseeCompany licenceRow), (''Status'', Status licenceRow),
      (''Tradeable'', Tradeable licenceRow), (''Publishable'', Publishable licenceRow),
      (''Product Code'', ProductCode licenceRow),
      (''Product Description'', ProductDescription licenceRow),
      (''Product Description 31'', ProductDescription31 licenceRow),
      (''Product Description 32'', ProductDescription32 licenceRow),
      (''OSGB36 E'', Itoa (Osgb36Eastings licenceRow)),
      (''OSGB36 N'', Itoa (Osgb36Northings licenceRow)),
      (''WGS84 E'', Sprintf_f (Wgs84Eastings licenceRow)),
      (''WGS84 N'', Sprintf_f (Wgs84Northings licenceRow))]"

definition ReadCsv_p0 ::
  "(string \<Rightarrow> error + 'f) \<Rightarrow> 'f LicenceRow_p0 heap \<Rightarrow> string list list
     \<Rightarrow> error + ('f::zero) LicenceRow_p0 heap \<times> addr" where
  "ReadCsv_p0 ParseFloat h reader =
     andThen (CSVToMap_p0 reader) (\<lambda>(header, rawRows).
       let (h1, rows) = make_slice h (length rawRows)
       in andThen (ReadCSV_loop (newLicenceRow_p0 ParseFloat) h1 rows 0 rawRows) (\<lambda>h2.
            Inr (new_coll h2 \<lparr>Header = header, Rows = rows\<rparr>)))"

definition WriteCsv_p0 ::
  "('f \<Rightarrow> string) \<Rightarrow> 'f LicenceRow_p0 heap \<Rightarrow> addr \<Rightarrow> error + string list list" where
  "WriteCsv_p0 Sprintf_f h lc =
     andThen (WriteCSV_loop (toMap_p0 Sprintf_f) (Header (colls h lc)) (elems h (Rows (colls h lc))))
       (\<lambda>written. Inr (Header (colls h lc) # written))"

section \<open>The second revision (part_001)\<close>

record 'f LicenceRow_p1 =
  LicenceNumber :: string
  LicenceIssueDate :: string
  SidLatNS :: string
  SidLatDeg :: string
  SidLatMin :: string
  SidLatSec :: string
  SidLongEW :: string
  SidLongDeg :: string
  SidLongMin :: string
  SidLongSec :: string
  NGR :: string
  Frequency :: string
  FrequencyType :: string
  StationType :: string
  ChannelWidth :: string
  ChannelWidthType :: string
  HeightAboveSeaLevel :: string
  AntennaErp :: string
  AntennaErpType :: string
  AntennaType :: string
  AntennaGain :: string
  AntennaAzimuth :: string
  HorizontalElements :: string
  VerticalElements :: string
  AntennaHeight :: string
  AntennaLocation :: string
  EflUpperLower :: string
  AntennaDirection :: string
  AntennaElevation :: string
  AntennaPolarisation :: string
  AntennaName :: string
  FeedingLoss :: string
  FadeMargin :: string
  EmissionCode :: string
  ApCommentIntern :: string
  Vector :: string
  LicenseeSurname :: string
  LicenseeFirstName :: string
  LicenseeCompany :: string
  Status :: string
  Tradeable :: string
  Publishable :: string
  ProductCode :: string
  ProductDescription :: string
  ProductDescription31 :: string
  ProductDescription32 :: string
  Wgs84LongitudeAsString :: string
  Wgs84LatitudeAsString :: string
  Wgs84Longitude :: "'f"
  Wgs84Latitude :: "'f"
  Osgb36Eastings :: int
  Osgb36Northings :: int

definition HeadingOsgb36E :: string where "HeadingOsgb36E = ''OSGB36 E''"
definition HeadingOsgb36N :: string where "HeadingOsgb36N = ''OSGB36 N''"
definition HeadingWgs84Long :: string where "HeadingWgs84Long = ''WGS84 Longitude''"
definition HeadingWgs84Lat :: string where "HeadingWgs84Lat = ''WGS84 Latitude''"

text \<open>The composite literal of \<^verbatim>\<open>newLicenceRow\<close>: the columns that every row has.\<close>

definition newLicenceRow_p1_literal ::
  "(string \<rightharpoonup> string) \<Rightarrow> ('f::zero) LicenceRow_p1" where
  "newLicenceRow_p1_literal row =
     \<lparr>LicenceNumber = lookup row ''Licence Number'',
      LicenceIssueDate = lookup row ''Licence issue date'',
      SidLatNS = lookup row ''SID_LAT_N_S'', SidLatDeg = lookup row ''SID_LAT_DEG'',
      SidLatMin = lookup row ''SID_LAT_MIN'', SidLatSec = lookup row ''SID_LAT_SEC'',
      SidLongEW = lookup row ''SID_LONG_E_W'', SidLongDeg = lookup row ''SID_LONG_DEG'',
      SidLongMin = lookup row ''SID_LONG_MIN'', SidLongSec = lookup row ''SID_LONG_SEC'',
      NGR = lookup row ''NGR'', Frequency = lookup row ''Frequency'',
      FrequencyType = lookup row ''Frequency Type'',
      StationType = lookup row ''Station Type'', ChannelWidth = lookup row ''Channel Width'',
      ChannelWidthType = lookup row ''Channel Width type'',
      HeightAboveSeaLevel = lookup row ''Height above sea level'',
      AntennaErp = lookup row ''Antenna ERP'',
      AntennaErpType = lookup row ''Antenna ERP type'',
      AntennaType = lookup row ''Antenna Type'', AntennaGain = lookup row ''Antenna Gain'',
      AntennaAzimuth = lookup row ''Antenna AZIMUTH'',
      HorizontalElements = lookup row ''Horizontal Elements'',
      VerticalElements = lookup row ''Vertical Elements'',
      AntennaHeight = lookup row ''Antenna Height'',
      AntennaLocation = lookup row ''Antenna Location'',
      EflUpperLower = lookup row ''EFL_UPPER_LOWER'',
      AntennaDirection = lookup row ''Antenna Direction'',
      AntennaElevation = lookup row ''Antenna Elevation'',
      AntennaPolarisation = lookup row ''Antenna Polarisation'',
      AntennaName = lookup row ''Antenna Name'', FeedingLoss = lookup row ''Feeding Loss'',
      FadeMargin = lookup row ''Fade Margin'', EmissionCode = lookup row ''Emission Code'',
      ApCommentIntern = lookup row ''AP_COMMENT_INTERN'', Vector = lookup row ''Vector'',
      LicenseeSurname = lookup row ''Licencee Surname'',
      LicenseeFirstName = lookup row ''Licencee First Name'',
      LicenseeCompany = lookup row ''Licencee Company'', Status = lookup row ''Status'',
      Tradeable = lookup row ''Tradeable'', Publishable = lookup row ''Publishable'',
      ProductCode = lookup row ''Product Code'',
      ProductDescription = lookup row ''Product Description'',
      ProductDescription31 = lookup row ''Product Description 31'',
      ProductDescription32 = lookup row ''Product Description 32'',
      Wgs84LongitudeAsString = '''', Wgs84LatitudeAsString = '''', Wgs84Longitude = 0,
      Wgs84Latitude = 0, Osgb36Eastings = 0, Osgb36Northings = 0\<rparr>"

definition newLicenceRow_p1 ::
  "(string \<Rightarrow> error + 'f) \<Rightarrow> (string \<rightharpoonup> string) \<Rightarrow> error + ('f::zero) LicenceRow_p1" where
  "newLicenceRow_p1 ParseFloat row =
     (let licenceRow = newLicenceRow_p1_literal row
      in andThen
           (if HeadingOsgb36E \<in> dom row
            then (case Atoi (lookup row HeadingOsgb36E) of
                    Inl err \<Rightarrow> Inl err
                  | Inr n \<Rightarrow> Inr (licenceRow\<lparr>Osgb36Eastings := n\<rparr>))
            else Inr licenceRow)
        (\<lambda>licenceRow. andThen
           (if HeadingOsgb36N \<in> dom row
            then (case Atoi (lookup row HeadingOsgb36N) of
                    Inl err \<Rightarrow> Inl err
                  | Inr n \<Rightarrow> Inr (licenceRow\<lparr>Osgb36Northings := n\<rparr>))
            else Inr licenceRow)
        (\<lambda>licenceRow. andThen
           (if HeadingWgs84Long \<in> dom row
            then (let licenceRow = licenceRow\<lparr>Wgs84LongitudeAsString := lookup row HeadingWgs84Long\<rparr>
                  in case ParseFloat (Wgs84LongitudeAsString licenceRow) of
                       Inl err \<Rightarrow> Inl err
                     | Inr x \<Rightarrow> Inr (licenceRow\<lparr>Wgs84Longitude := x\<rparr>))
            else Inr licenceRow)
        (\<lambda>licenceRow.
           (if HeadingWgs84Lat \<in> dom row
            then (let licenceRow = licenceRow\<lparr>Wgs84LatitudeAsString := lookup row HeadingWgs84Lat\<rparr>
                  in case ParseFloat (Wgs84LatitudeAsString licenceRow) of
                       Inl err \<Rightarrow> Inl err
                     | Inr x \<Rightarrow> Inr (licenceRow\<lparr>Wgs84Latitude := x\<rparr>))
            else Inr licenceRow)))))"

definition toMap_p1 :: "'f LicenceRow_p1 \<Rightarrow> (string \<rightharpoonup> string)" where
  "toMap_p1 licenceRow =
     map_of [(''Licence Number'', LicenceNumber licenceRow),
      (''Licence issue date'', LicenceIssueDate licenceRow),
      (''SID_LAT_N_S'', SidLatNS licenceRow), (''SID_LAT_DEG'', SidLatDeg licenceRow),
      (''SID_LAT_MIN'', SidLatMin licenceRow), (''SID_LAT_SEC'', SidLatSec licenceRow),
      (''SID_LONG_E_W'', SidLongEW licenceRow), (''SID_LONG_DEG'', SidLongDeg licenceRow),
      (''SID_LONG_MIN'', SidLongMin licenceRow), (''SID_LONG_SEC'', SidLongSec licenceRow),
      (''NGR'', NGR licenceRow), (''Frequency'', Frequency licenceRow),
      (''Frequency Type'', FrequencyType licenceRow),
      (''Station Type'', StationType licenceRow), (''Channel Width'', ChannelWidth licenceRow),
      (''Channel Width type'', ChannelWidthType licenceRow),
      (''Height above sea level'', HeightAboveSeaLevel licenceRow),
      (''Antenna ERP'', AntennaErp licenceRow),
      (''Antenna ERP type'', AntennaErpType licenceRow),
      (''Antenna Type'', AntennaType licenceRow), (''Antenna Gain'', AntennaGain licenceRow),
      (''Antenna AZIMUTH'', AntennaAzimuth licenceRow),
      (''Horizontal Elements'', HorizontalElements licenceRow),
      (''Vertical Elements'', VerticalElements licenceRow),
      (''Antenna Height'', AntennaHeight licenceRow),
      (''Antenna Location'', AntennaLocation licenceRow),
      (''EFL_UPPER_LOWER'', EflUpperLower licenceRow),
      (''Antenna Direction'', AntennaDirection licenceRow),
      (''Antenna Elevation'', AntennaElevation licenceRow),
      (''Antenna Polarisation'', AntennaPolarisation licenceRow),
      (''Antenna Name'', AntennaName licenceRow), (''Feeding Loss'', FeedingLoss licenceRow),
      (''Fade Margin'', FadeMargin licenceRow), (''Emission Code'', EmissionCode licenceRow),
      (''AP_COMMENT_INTERN'', ApCommentIntern licenceRow), (''Vector'', Vector licenceRow),
      (''Licencee Surname'', LicenseeSurname licenceRow),
      (''Licencee First Name'', LicenseeFirstName licenceRow),
      (''Licencee Company'', LicenseeCompany licenceRow), (''Status'', Status licenceRow),
      (''Tradeable'', Tradeable licenceRow), (''Publishable'', Publishable licenceRow),
      (''Product Code'', ProductCode licenceRow),
      (''Product Description'', ProductDescription licenceRow),
      (''Product Description 31'', ProductDescription31 licenceRow),
      (''Product Description 32'', ProductDescription32 licenceRow),
      (HeadingOsgb36E, Itoa (Osgb36Eastings licenceRow)),
      (HeadingOsgb36N, Itoa (Osgb36Northings licenceRow)),
      (HeadingWgs84Long, Wgs84LongitudeAsString licenceRow),
      (HeadingWgs84Lat, Wgs84LatitudeAsString licenceRow)]"

definition ReadCsv_p1 ::
  "(string \<Rightarrow> error + 'f) \<Rightarrow> 'f LicenceRow_p1 heap \<Rightarrow> string list list
     \<Rightarrow> error + ('f::zero) LicenceRow_p1 heap \<times> addr" where
  "ReadCsv_p1 ParseFloat h reader =
     andThen (CSVToMap_p1 reader) (\<lambda>(header, rawRows).
       let (h1, rows) = make_slice h (length rawRows)
       in andThen (ReadCSV_loop (newLicenceRow_p1 ParseFloat) h1 rows 0 rawRows) (\<lambda>h2.
            Inr (new_coll h2 \<lparr>Header = header, Rows = rows\<rparr>)))"

definition WriteCsv_p1 :: "'f LicenceRow_p1 heap \<Rightarrow> addr \<Rightarrow> error + string list list" where
  "WriteCsv_p1 h lc =
     andThen (WriteCSV_loop toMap_p1 (Header (colls h lc)) (elems h (Rows (colls h lc))))
       (\<lambda>written. Inr (Header (colls h lc) # written))"

section \<open>The current revision (wtrcsv.go)\<close>

record 'f Row =
  LicenceNumber :: string
  LicenceIssueDate :: string
  SidLatNS :: string
  SidLatDeg :: string
  SidLatMin :: string
  SidLatSec :: string
  SidLongEW :: string
  SidLongDeg :: string
  SidLongMin :: string
  SidLongSec :: string
  NGR :: string
  Frequency :: string
  FrequencyType :: string
  StationType :: string
  ChannelWidth :: string
  ChannelWidthType :: string
  HeightAboveSeaLevel :: string
  AntennaErp :: string
  AntennaErpType :: string
  AntennaType :: string
  AntennaGain :: string
  AntennaAzimuth :: string
  HorizontalElements :: string
  VerticalElements :: string
  AntennaHeight :: string
  AntennaLocation :: string
  EflUpperLower :: string
  AntennaDirection :: string
  AntennaElevation :: string
  AntennaPolarisation :: string
  AntennaName :: string
  FeedingLoss :: string
  FadeMargin :: string
  EmissionCode :: string
  ApCommentIntern :: string
  Vector :: string
  LicenseeSurname :: string
  LicenseeFirstName :: string
  LicenseeCompany :: string
  Status :: string
  Tradeable :: string
  Publishable :: string
  ProductCode :: string
  ProductDescription :: string
  ProductDescription31 :: string
  ProductDescription32 :: string
  Wgs84LongitudeAsString :: string
  Wgs84LatitudeAsString :: string
  Wgs84Longitude :: "'f"
  Wgs84Latitude :: "'f"
  OsEasting :: int
  OsNorthing :: int

definition HeadingOsEasting :: string where "HeadingOsEasting = ''OS Easting''"
definition HeadingOsNorthing :: string where "HeadingOsNorthing = ''OS Northing''"
definition HeadingWgs84Longitude :: string where "HeadingWgs84Longitude = ''WGS84 Longitude''"
definition HeadingWgs84Latitude :: string where "HeadingWgs84Latitude = ''WGS84 Latitude''"

text \<open>The composite literal of \<^verbatim>\<open>newRow\<close>: the columns that every row has.\<close>

definition newRow_literal ::
  "(string \<rightharpoonup> string) \<Rightarrow> ('f::zero) Row" where
  "newRow_literal columns =
     \<lparr>LicenceNumber = lookup columns ''Licence Number'',
      LicenceIssueDate = lookup columns ''Licence issue date'',
      SidLatNS = lookup columns ''SID_LAT_N_S'', SidLatDeg = lookup columns ''SID_LAT_DEG'',
      SidLatMin = lookup columns ''SID_LAT_MIN'', SidLatSec = lookup columns ''SID_LAT_SEC'',
      SidLongEW = lookup columns ''SID_LONG_E_W'',
      SidLongDeg = lookup columns ''SID_LONG_DEG'',
      SidLongMin = lookup columns ''SID_LONG_MIN'',
      SidLongSec = lookup columns ''SID_LONG_SEC'', NGR = lookup columns ''NGR'',
      Frequency = lookup columns ''Frequency'',
      FrequencyType = lookup columns ''Frequency Type'',
      StationType = lookup columns ''Station Type'',
      ChannelWidth = lookup columns ''Channel Width'',
      ChannelWidthType = lookup columns ''Channel Width type'',
      HeightAboveSeaLevel = lookup columns ''Height above sea level'',
      AntennaErp = lookup columns ''Antenna ERP'',
      AntennaErpType = lookup columns ''Antenna ERP type'',
      AntennaType = lookup columns ''Antenna Type'',
      AntennaGain = lookup columns ''Antenna Gain'',
      AntennaAzimuth = lookup columns ''Antenna AZIMUTH'',
      HorizontalElements = lookup columns ''Horizontal Elements'',
      VerticalElements = lookup columns ''Vertical Elements'',
      AntennaHeight = lookup columns ''Antenna Height'',
      AntennaLocation = lookup columns ''Antenna Location'',
      EflUpperLower = lookup columns ''EFL_UPPER_LOWER'',
      AntennaDirection = lookup columns ''Antenna Direction'',
      AntennaElevation = lookup columns ''Antenna Elevation'',
      AntennaPolarisation = lookup columns ''Antenna Polarisation'',
      AntennaName = lookup columns ''Antenna Name'',
      FeedingLoss = lookup columns ''Feeding Loss'',
      FadeMargin = lookup columns ''Fade Margin'',
      EmissionCode = lookup columns ''Emission Code'',
      ApCommentIntern = lookup columns ''AP_COMMENT_INTERN'',
      Vector = lookup columns ''Vector'',
      LicenseeSurname = lookup columns ''Licencee Surname'',
      LicenseeFirstName = lookup columns ''Licencee First Name'',
      LicenseeCompany = lookup columns ''Licencee Company'',
      Status = lookup columns ''Status'', Tradeable = lookup columns ''Tradeable'',
      Publishable = lookup columns ''Publishable'',
      ProductCode = lookup columns ''Product Code'',
      ProductDescription = lookup columns ''Product Description'',
      ProductDescription31 = lookup columns ''Product Description 31'',
      ProductDescription32 = lookup columns ''Product Description 32'',
      Wgs84LongitudeAsString = '''', Wgs84LatitudeAsString = '''', Wgs84Longitude = 0,
      Wgs84Latitude = 0, OsEasting = 0, OsNorthing = 0\<rparr>"

text \<open>
  \<^verbatim>\<open>newRow\<close>: the core columns are copied; each added column is converted when the raw
  row has it, and a conversion error ends the process (\<^verbatim>\<open>log.Fatalf\<close>).
\<close>

definition newRow ::
  "(string \<Rightarrow> error + 'f) \<Rightarrow> (string \<rightharpoonup> string) \<Rightarrow> error + ('f::zero) Row" where
  "newRow ParseFloat columns =
     (let row = newRow_literal columns
      in andThen
           (if HeadingOsEasting \<in> dom columns
            then (case Atoi (lookup columns HeadingOsEasting) of
                    Inl err \<Rightarrow> Inl (Wrap err ''could not convert easting'')
                  | Inr n \<Rightarrow> Inr (row\<lparr>OsEasting := n\<rparr>))
            else Inr row)
        (\<lambda>row. andThen
           (if HeadingOsNorthing \<in> dom columns
            then (case Atoi (lookup columns HeadingOsNorthing) of
                    Inl err \<Rightarrow> Inl (Wrap err ''could not convert northing'')
                  | Inr n \<Rightarrow> Inr (row\<lparr>OsNorthing := n\<rparr>))
            else Inr row)
        (\<lambda>row. andThen
           (if HeadingWgs84Longitude \<in> dom columns
            then (let row = row\<lparr>Wgs84LongitudeAsString := lookup columns HeadingWgs84Longitude\<rparr>
                  in case ParseFloat (Wgs84LongitudeAsString row) of
                       Inl err \<Rightarrow> Inl (Wrap err ''could not convert WGS84 longitude'')
                     | Inr x \<Rightarrow> Inr (row\<lparr>Wgs84Longitude := x\<rparr>))
            else Inr row)
        (\<lambda>row.
           (if HeadingWgs84Latitude \<in> dom columns
            then (let row = row\<lparr>Wgs84LatitudeAsString := lookup columns HeadingWgs84Latitude\<rparr>
                  in case ParseFloat (Wgs84LatitudeAsString row) of
                       Inl err \<Rightarrow> Inl (Wrap err ''could not convert WGS84 latitude'')
                     | Inr x \<Rightarrow> Inr (row\<lparr>Wgs84Latitude := x\<rparr>))
            else Inr row)))))"

text \<open>
  \<^verbatim>\<open>toMap\<close>: the integers are formatted from their numbers, the WGS84 coordinates are
  the strings kept by \<^verbatim>\<open>newRow\<close>.
\<close>

definition toMap :: "'f Row \<Rightarrow> (string \<rightharpoonup> string)" where
  "toMap row =
     map_of [(''Licence Number'', LicenceNumber row), (''Licence issue date'', LicenceIssueDate row),
      (''SID_LAT_N_S'', SidLatNS row), (''SID_LAT_DEG'', SidLatDeg row),
      (''SID_LAT_MIN'', SidLatMin row), (''SID_LAT_SEC'', SidLatSec row),
      (''SID_LONG_E_W'', SidLongEW row), (''SID_LONG_DEG'', SidLongDeg row),
      (''SID_LONG_MIN'', SidLongMin row), (''SID_LONG_SEC'', SidLongSec row),
      (''NGR'', NGR row), (''Frequency'', Frequency row),
      (''Frequency Type'', FrequencyType row), (''Station Type'', StationType row),
      (''Channel Width'', ChannelWidth row), (''Channel Width type'', ChannelWidthType row),
      (''Height above sea level'', HeightAboveSeaLevel row), (''Antenna ERP'', AntennaErp row),
      (''Antenna ERP type'', AntennaErpType row), (''Antenna Type'', AntennaType row),
      (''Antenna Gain'', AntennaGain row), (''Antenna AZIMUTH'', AntennaAzimuth row),
      (''Horizontal Elements'', HorizontalElements row),
      (''Vertical Elements'', VerticalElements row), (''Antenna Height'', AntennaHeight row),
      (''Antenna Location'', AntennaLocation row), (''EFL_UPPER_LOWER'', EflUpperLower row),
      (''Antenna Direction'', AntennaDirection row),
      (''Antenna Elevation'', AntennaElevation row),
      (''Antenna Polarisation'', AntennaPolarisation row), (''Antenna Name'', AntennaName row),
      (''Feeding Loss'', FeedingLoss row), (''Fade Margin'', FadeMargin row),
      (''Emission Code'', EmissionCode row), (''AP_COMMENT_INTERN'', ApCommentIntern row),
      (''Vector'', Vector row), (''Licencee Surname'', LicenseeSurname row),
      (''Licencee First Name'', LicenseeFirstName row),
      (''Licencee Company'', LicenseeCompany row), (''Status'', Status row),
      (''Tradeable'', Tradeable row), (''Publishable'', Publishable row),
      (''Product Code'', ProductCode row), (''Product Description'', ProductDescription row),
      (''Product Description 31'', ProductDescription31 row),
      (''Product Description 32'', ProductDescription32 row),
      (HeadingOsEasting, Itoa (OsEasting row)), (HeadingOsNorthing, Itoa (OsNorthing row)),
      (HeadingWgs84Longitude, Wgs84LongitudeAsString row),
      (HeadingWgs84Latitude, Wgs84LatitudeAsString row)]"

definition ReadCSV ::
  "(string \<Rightarrow> error + 'f) \<Rightarrow> 'f Row heap \<Rightarrow> string list list \<Rightarrow> error + ('f::zero) Row heap \<times> addr" where
  "ReadCSV ParseFloat h reader =
     andThen (CSVToMap reader) (\<lambda>(header, rawColumns).
       let (h1, rows) = make_slice h (length rawColumns)
       in andThen (ReadCSV_loop (newRow ParseFloat) h1 rows 0 rawColumns) (\<lambda>h2.
            Inr (new_coll h2 \<lparr>Header = header, Rows = rows\<rparr>)))"

definition WriteCSV :: "'f Row heap \<Rightarrow> addr \<Rightarrow> error + string list list" where
  "WriteCSV h collection =
     andThen (WriteCSV_loop toMap (Header (colls h collection)) (elems h (Rows (colls h collection))))
       (\<lambda>written. Inr (Header (colls h collection) # written))"

section \<open>Filtering\<close>

text \<open>
  A \<^verbatim>\<open>FilterFn\<close> takes a \<^verbatim>\<open>*Row\<close> and answers yes or no. The inner loop of \<^verbatim>\<open>Filter\<close>
  and \<^verbatim>\<open>FilterInPlace\<close> leaves \<open>ok\<close> true when no filter function refuses the row, and
  stops at the first one that does.
\<close>

type_synonym 'r FilterFn = "'r ptr \<Rightarrow> bool"

fun filters_ok :: "'r FilterFn list \<Rightarrow> 'r ptr \<Rightarrow> bool" where
  "filters_ok [] row = True"
| "filters_ok (filterFunc # rest) row = (if \<not> filterFunc row then False else filters_ok rest row)"

text \<open>
  \<^verbatim>\<open>Filter\<close> of wtrcsv.go and of part_001. \<^verbatim>\<open>range collection.Rows\<close> fixes the slice
  once; the element at index \<open>i\<close> is read from the backing array when the loop reaches it.
\<close>

definition Filter ::
  "(nat \<Rightarrow> nat) \<Rightarrow> 'r heap \<Rightarrow> addr \<Rightarrow> 'r FilterFn list \<Rightarrow> 'r heap \<times> addr" where
  "Filter growslice h collection filterFuncs =
     (let header = Header (colls h collection);
          (h0, rows0) = make_slice h 0;
          ranged = Rows (colls h collection);
          (h1, filteredRows) =
            fold (\<lambda>i (h, filteredRows).
                    let row = arrays h (arr ranged) ! (off ranged + i)
                    in if filters_ok filterFuncs row
                       then append_slice growslice h filteredRows row
                       else (h, filteredRows))
              [0..<len ranged] (h0, rows0)
      in new_coll h1 \<lparr>Header = header, Rows = filteredRows\<rparr>)"

text \<open>
  \<^verbatim>\<open>FilterInPlace\<close> of wtrcsv.go and of part_001: the rows kept are appended to
  \<^verbatim>\<open>collection.Rows[:0]\<close>, a slice on the receiver's own backing array, while the loop
  still reads that array.
\<close>

definition FilterInPlace ::
  "(nat \<Rightarrow> nat) \<Rightarrow> 'r heap \<Rightarrow> addr \<Rightarrow> 'r FilterFn list \<Rightarrow> 'r heap \<times> addr" where
  "FilterInPlace growslice h collection filterFuncs =
     (let ranged = Rows (colls h collection);
          rows0 = ranged\<lparr>len := 0\<rparr>;
          (h1, filteredRows) =
            fold (\<lambda>i (h, filteredRows).
                    let row = arrays h (arr ranged) ! (off ranged + i)
                    in if filters_ok filterFuncs row
                       then append_slice growslice h filteredRows row
                       else (h, filteredRows))
              [0..<len ranged] (h, rows0)
      in (h1\<lparr>colls := (colls h1)(collection := (colls h1 collection)\<lparr>Rows := filteredRows\<rparr>)\<rparr>,
          collection))"

text \<open>
  \<^verbatim>\<open>Filter\<close> and \<^verbatim>\<open>FilterInPlace\<close> of part_000. The inner loop leaves with
  \<^verbatim>\<open>break Loop\<close>, and \<open>Loop\<close> labels the loop over the rows: the first row that a filter
  function refuses ends the whole walk.
\<close>

fun Loop_p0 ::
  "(nat \<Rightarrow> nat) \<Rightarrow> 'r FilterFn list \<Rightarrow> slice \<Rightarrow> nat list \<Rightarrow> 'r heap \<times> slice \<Rightarrow> 'r heap \<times> slice" where
  "Loop_p0 growslice filterFuncs ranged [] (h, filteredRows) = (h, filteredRows)"
| "Loop_p0 growslice filterFuncs ranged (i # rest) (h, filteredRows) =
     (let row = arrays h (arr ranged) ! (off ranged + i)
      in if \<not> filters_ok filterFuncs row then (h, filteredRows)
         else Loop_p0 growslice filterFuncs ranged rest (append_slice growslice h filteredRows row))"

definition Filter_p0 ::
  "(nat \<Rightarrow> nat) \<Rightarrow> 'r heap \<Rightarrow> addr \<Rightarrow> 'r FilterFn list \<Rightarrow> 'r heap \<times> addr" where
  "Filter_p0 growslice h lc filterFuncs =
     (let header = Header (colls h lc);
          (h0, rows0) = make_slice h 0;
          ranged = Rows (colls h lc);
          (h1, filteredRows) = Loop_p0 growslice filterFuncs ranged [0..<len ranged] (h0, rows0)
      in new_coll h1 \<lparr>Header = header, Rows = filteredRows\<rparr>)"

definition FilterInPlace_p0 ::
  "(nat \<Rightarrow> nat) \<Rightarrow> 'r heap \<Rightarrow> addr \<Rightarrow> 'r FilterFn list \<Rightarrow> 'r heap \<times> addr" where
  "FilterInPlace_p0 growslice h lc filterFuncs =
     (let ranged = Rows (colls h lc);
          rows0 = ranged\<lparr>len := 0\<rparr>;
          (h1, filteredRows) = Loop_p0 growslice filterFuncs ranged [0..<len ranged] (h, rows0)
      in (h1\<lparr>colls := (colls h1)(lc := (colls h1 lc)\<lparr>Rows := filteredRows\<rparr>)\<rparr>, lc))"

text \<open>
  A slice of a running program lies inside an allocated backing array, and a Collection
  that a caller holds is an allocated object.
\<close>

definition valid_slice :: "'r heap \<Rightarrow> slice \<Rightarrow> bool" where
  "valid_slice h s =
     (arr s < nextArray h \<and> len s \<le> cap s \<and> off s + cap s \<le> length (arrays h (arr s)))"

definition valid_coll :: "'r heap \<Rightarrow> addr \<Rightarrow> bool" where
  "valid_coll h c = (c < nextColl h \<and> valid_slice h (Rows (colls h c)))"

section \<open>Notions used to state the claims\<close>

text \<open>
  A value under an extension label fails to parse as the label's numeric kind: an
  integer for the two OS columns, a floating point number for the two WGS84 columns.
\<close>

definition parse_fails :: "(string \<Rightarrow> error + 'f) \<Rightarrow> string \<Rightarrow> string \<Rightarrow> bool" where
  "parse_fails ParseFloat label v =
     ((label = HeadingOsEasting \<or> label = HeadingOsNorthing) \<and> isl (Atoi v)
      \<or> (label = HeadingWgs84Longitude \<or> label = HeadingWgs84Latitude) \<and> isl (ParseFloat v))"

definition parse_fails_p1 :: "(string \<Rightarrow> error + 'f) \<Rightarrow> string \<Rightarrow> string \<Rightarrow> bool" where
  "parse_fails_p1 ParseFloat label v =
     ((label = HeadingOsgb36E \<or> label = HeadingOsgb36N) \<and> isl (Atoi v)
      \<or> (label = HeadingWgs84Long \<or> label = HeadingWgs84Lat) \<and> isl (ParseFloat v))"

text \<open>
  The heap of a program that holds one Collection, at address 0, whose rows fill the
  array at address 0.
\<close>

definition one_collection :: "string list \<Rightarrow> 'r ptr list \<Rightarrow> 'r heap" where
  "one_collection header rows =
     \<lparr>arrays = (\<lambda>a. if a = 0 then rows else []),
      colls = (\<lambda>a. \<lparr>Header = (if a = 0 then header else []),
                     Rows = \<lparr>arr = 0, off = 0, len = (if a = 0 then length rows else 0),
                             cap = (if a = 0 then length rows else 0)\<rparr>\<rparr>),
      nextArray = 1, nextColl = 1\<rparr>"


text \<open>
  The labels of the columns that every row of the OFCOM table has, as \<^verbatim>\<open>newRow\<close>,
  \<^verbatim>\<open>newLicenceRow\<close> and \<^verbatim>\<open>toMap\<close> spell them.
\<close>

definition core_headings :: "string list" where
  "core_headings =
    [''Licence Number'', ''Licence issue date'', ''SID_LAT_N_S'', ''SID_LAT_DEG'',
     ''SID_LAT_MIN'', ''SID_LAT_SEC'', ''SID_LONG_E_W'', ''SID_LONG_DEG'',
     ''SID_LONG_MIN'', ''SID_LONG_SEC'', ''NGR'', ''Frequency'', ''Frequency Type'',
     ''Station Type'', ''Channel Width'', ''Channel Width type'',
     ''Height above sea level'', ''Antenna ERP'', ''Antenna ERP type'', ''Antenna Type'',
     ''Antenna Gain'', ''Antenna AZIMUTH'', ''Horizontal Elements'', ''Vertical Elements'',
     ''Antenna Height'', ''Antenna Location'', ''EFL_UPPER_LOWER'', ''Antenna Direction'',
     ''Antenna Elevation'', ''Antenna Polarisation'', ''Antenna Name'', ''Feeding Loss'',
     ''Fade Margin'', ''Emission Code'', ''AP_COMMENT_INTERN'', ''Vector'',
     ''Licencee Surname'', ''Licencee First Name'', ''Licencee Company'', ''Status'',
     ''Tradeable'', ''Publishable'', ''Product Code'', ''Product Description'',
     ''Product Description 31'', ''Product Description 32'']"

text \<open>
  The cell that is expected back under a label of the header, from the raw row read
  (wtrcsv.go): the value read, for a core column and for the two WGS84 columns; the
  integer read, printed in decimal, for the two OS columns; the empty string for a label
  that is none of these.
\<close>

definition written_cell :: "(string \<rightharpoonup> string) \<Rightarrow> string \<Rightarrow> string" where
  "written_cell columns heading =
     (if heading \<in> set core_headings then lookup columns heading
      else if heading = HeadingOsEasting \<or> heading = HeadingOsNorthing
      then (case Atoi (lookup columns heading) of Inl err \<Rightarrow> '''' | Inr n \<Rightarrow> Itoa n)
      else if heading = HeadingWgs84Longitude \<or> heading = HeadingWgs84Latitude
      then lookup columns heading
      else '''')"

text \<open>
  The same for part_000: four core columns come back tidied, the others as read; the
  four added columns come back as their numbers formatted.
\<close>

definition tidied :: "(string \<rightharpoonup> string) \<Rightarrow> string \<Rightarrow> string" where
  "tidied row heading =
     (if heading = ''Product Code'' then fst (productCodeAndDescription row)
      else if heading = ''Product Description'' then snd (productCodeAndDescription row)
      else if heading = ''Licencee Company'' then tweakCompanyName row
      else if heading = ''NGR'' then Join (Fields (lookup row ''NGR'')) ''''
      else lookup row heading)"

definition written_cell_p0 ::
  "(string \<Rightarrow> error + 'f) \<Rightarrow> ('f \<Rightarrow> string) \<Rightarrow> (string \<rightharpoonup> string) \<Rightarrow> string \<Rightarrow> string" where
  "written_cell_p0 ParseFloat Sprintf_f row heading =
     (if heading \<in> set core_headings then tidied row heading
      else if heading = ''OSGB36 E'' \<or> heading = ''OSGB36 N''
      then (case Atoi (lookup row heading) of Inl err \<Rightarrow> '''' | Inr n \<Rightarrow> Itoa n)
      else if heading = ''WGS84 E'' \<or> heading = ''WGS84 N''
      then (case ParseFloat (lookup row heading) of Inl err \<Rightarrow> '''' | Inr x \<Rightarrow> Sprintf_f x)
      else '''')"

text \<open>
  The text \<open>old\<close> stands in \<open>s\<close> at byte index \<open>i\<close>; and \<open>t\<close> is \<open>s\<close> with the first
  occurrence of \<open>old\<close> replaced by \<open>new\<close>, or \<open>s\<close> itself when \<open>old\<close> does not occur.
\<close>

definition occurs_at :: "string \<Rightarrow> string \<Rightarrow> nat \<Rightarrow> bool" where
  "occurs_at old s i = (i + length old \<le> length s \<and> take (length old) (drop i s) = old)"

definition replaced_first :: "string \<Rightarrow> string \<Rightarrow> string \<Rightarrow> string \<Rightarrow> bool" where
  "replaced_first old new s t =
     (if \<exists>i \<le> length s. occurs_at old s i
      then \<exists>i \<le> length s. occurs_at old s i \<and> (\<forall>j < i. \<not> occurs_at old s j)
             \<and> t = take i s @ new @ drop (i + length old) s
      else t = s)"

text \<open>
  The text \<open>s\<close> matches the pattern behind the prefix \<open>pre\<close>: six digits (the group
  \<open>code\<close>), one or more dashes or spaces, and the rest of the text up to its end (the
  group \<open>rest\<close>), which holds no line feed.
\<close>

definition pattern_match :: "string \<Rightarrow> string \<Rightarrow> string \<Rightarrow> string \<Rightarrow> bool" where
  "pattern_match s pre code rest =
     (\<exists>sep. s = pre @ code @ sep @ rest \<and> length code = 6 \<and> list_all isDigit code
         \<and> sep \<noteq> [] \<and> list_all isSep sep \<and> CHR 0x0A \<notin> set rest)"

text \<open>
  A string is valid UTF-8 when reading it rune by rune never meets a byte that is no
  part of an encoding (which Go reads as \<^verbatim>\<open>utf8.RuneError\<close> of width 1).
\<close>

definition ValidString :: "string \<Rightarrow> bool" where
  "ValidString s = list_all (\<lambda>(r, bytes). \<not> (r = RuneError \<and> length bytes = 1)) (runes s)"

text \<open>
  A rune with its bytes is sound when the bytes decode to that rune whatever follows
  them.
\<close>

definition sound_rune :: "rune \<times> string \<Rightarrow> bool" where
  "sound_rune u = (snd u \<noteq> [] \<and> (\<forall>t. DecodeRuneInString (snd u @ t) = (fst u, length (snd u))))"
section \<open>Facts about reading and writing\<close>

lemma andThen_Inr_iff: "andThen m f = Inr y \<longleftrightarrow> (\<exists>x. m = Inr x \<and> f x = Inr y)"
  by (cases m) (simp_all add: andThen_def)

lemma andThen_Inl_iff: "andThen m f = Inl e \<longleftrightarrow> m = Inl e \<or> (\<exists>x. m = Inr x \<and> f x = Inl e)"
  by (cases m) (simp_all add: andThen_def)

text \<open>The map that \<^verbatim>\<open>CSVToMap\<close> builds for one record.\<close>

lemma dict_fold_dom:
  "n \<le> length header \<Longrightarrow>
   dom (fold (\<lambda>i dict. dict(header ! i \<mapsto> rcd ! i)) [0..<n] m) = dom m \<union> set (take n header)"
proof (induction n)
  case 0
  then show ?case by simp
next
  case (Suc n)
  from Suc.prems have n: "n < length header" by simp
  have IH: "dom (fold (\<lambda>i dict. dict(header ! i \<mapsto> rcd ! i)) [0..<n] m)
              = dom m \<union> set (take n header)"
    by (rule Suc.IH) (use n in simp)
  have "set (take (Suc n) header) = insert (header ! n) (set (take n header))"
    using n by (simp add: take_Suc_conv_app_nth)
  with IH show ?case by (simp del: fun_upd_apply)
qed

lemma dom_dict_of: "dom (dict_of header rcd) = set header"
  using dict_fold_dom [of "length header" header rcd Map.empty] by (simp add: dict_of_def)

lemma CSVToMap_loop_Some:
  "CSVToMap_loop recs (Some header) rows = Inr (labels, raw) \<Longrightarrow>
   labels = header \<and> raw = rows @ map (dict_of header) recs"
proof (induction recs arbitrary: rows)
  case Nil
  then show ?case by simp
next
  case (Cons rcd recs)
  from Cons.prems have "CSVToMap_loop recs (Some header) (rows @ [dict_of header rcd]) = Inr (labels, raw)"
    by (auto split: if_splits)
  from Cons.IH [OF this] show ?case by simp
qed

lemma CSVToMap_loop_header:
  "CSVToMap_loop (header # recs) None [] = Inr (labels, raw) \<Longrightarrow>
   labels = header \<and> raw = map (dict_of header) recs"
  using CSVToMap_loop_Some [of recs header "[]" labels raw] by simp

lemma CSVToMap_loop_Inl:
  "CSVToMap_loop recs (Some header) rows = Inl e \<longleftrightarrow>
   e = ErrFieldCount \<and> (\<exists>rcd \<in> set recs. length rcd \<noteq> length header)"
  by (induction recs arbitrary: rows) auto

text \<open>The loop of \<^verbatim>\<open>ReadCSV\<close> fills the slice with the rows built, or dies at the first error.\<close>

lemma ReadCSV_loop_Inr:
  "ReadCSV_loop new h rows i cols = Inr h2 \<Longrightarrow>
   off rows + i + length cols \<le> length (arrays h (arr rows)) \<Longrightarrow>
   \<exists>rs. list_all2 (\<lambda>c r. new c = Inr r) cols rs
      \<and> h2 = h\<lparr>arrays := (arrays h)(arr rows :=
                 take (off rows + i) (arrays h (arr rows)) @ map Some rs
                 @ drop (off rows + i + length cols) (arrays h (arr rows)))\<rparr>"
proof (induction cols arbitrary: h i)
  case Nil
  then show ?case by (simp del: fun_upd_apply)
next
  case (Cons c cols)
  from Cons.prems(1) obtain r where r: "new c = Inr r"
    and rest: "ReadCSV_loop new (store h rows i (Some r)) rows (Suc i) cols = Inr h2"
    by (auto split: sum.splits)
  let ?A = "arrays h (arr rows)"
  let ?k = "off rows + i"
  have A': "arrays (store h rows i (Some r)) (arr rows) = ?A[?k := Some r]"
    by (simp add: store_def)
  from Cons.prems(2) have len: "off rows + Suc i + length cols \<le> length (arrays (store h rows i (Some r)) (arr rows))"
    by (simp add: A')
  from Cons.IH [OF rest len] obtain rs where
    rs: "list_all2 (\<lambda>c r. new c = Inr r) cols rs"
    and h2: "h2 = (store h rows i (Some r))\<lparr>arrays := (arrays (store h rows i (Some r)))(arr rows :=
                 take (off rows + Suc i) (?A[?k := Some r]) @ map Some rs
                 @ drop (off rows + Suc i + length cols) (?A[?k := Some r]))\<rparr>"
    unfolding A' by blast
  from Cons.prems(2) have k: "?k < length ?A" by simp
  have t: "take (off rows + Suc i) (?A[?k := Some r]) = take ?k ?A @ [Some r]"
    using k by (simp add: take_Suc_conv_app_nth)
  have d: "drop (off rows + Suc i + length cols) (?A[?k := Some r])
             = drop (?k + length (c # cols)) ?A"
    by simp
  have "h2 = h\<lparr>arrays := (arrays h)(arr rows :=
                 take ?k ?A @ map Some (r # rs) @ drop (?k + length (c # cols)) ?A)\<rparr>"
    unfolding h2 t d by (simp add: store_def del: fun_upd_apply)
  with r rs show ?case
    by (intro exI [of _ "r # rs"]) (simp del: fun_upd_apply)
qed

lemma ReadCSV_loop_Inl:
  "(\<exists>e. ReadCSV_loop new h rows i cols = Inl e) \<longleftrightarrow> (\<exists>c \<in> set cols. isl (new c))"
proof (induction cols arbitrary: h i)
  case Nil
  then show ?case by simp
next
  case (Cons c cols)
  then show ?case by (cases "new c") auto
qed

text \<open>The body shared by \<^verbatim>\<open>ReadCSV\<close> and \<^verbatim>\<open>ReadCsv\<close>, after \<^verbatim>\<open>CSVToMap\<close>.\<close>

lemma load_Inr:
  assumes "(let (h1, rows) = make_slice h (length raw)
            in andThen (ReadCSV_loop new h1 rows 0 raw)
                 (\<lambda>h2. Inr (new_coll h2 \<lparr>Header = header, Rows = rows\<rparr>))) = Inr (h', c)"
  shows "\<exists>rs. list_all2 (\<lambda>columns r. new columns = Inr r) raw rs
            \<and> Header (colls h' c) = header
            \<and> elems h' (Rows (colls h' c)) = map Some rs"
proof -
  let ?rows = "\<lparr>arr = nextArray h, off = 0, len = length raw, cap = length raw\<rparr>"
  let ?h1 = "h\<lparr>arrays := (arrays h)(nextArray h := replicate (length raw) None),
               nextArray := Suc (nextArray h)\<rparr>"
  from assms obtain h2 where loop: "ReadCSV_loop new ?h1 ?rows 0 raw = Inr h2"
    and res: "new_coll h2 \<lparr>Header = header, Rows = ?rows\<rparr> = (h', c)"
    by (auto simp: make_slice_def andThen_Inr_iff)
  from ReadCSV_loop_Inr [OF loop] obtain rs where
    rs: "list_all2 (\<lambda>columns r. new columns = Inr r) raw rs"
    and h2: "arrays h2 (nextArray h) = map Some rs"
    by auto
  from rs have "length rs = length raw"
    by (simp add: list_all2_lengthD)
  with res h2 have "Header (colls h' c) = header \<and> elems h' (Rows (colls h' c)) = map Some rs"
    by (auto simp: new_coll_def elems_def)
  with rs show ?thesis by blast
qed

lemma load_Inl:
  "(\<exists>e. (let (h1, rows) = make_slice h (length raw)
         in andThen (ReadCSV_loop new h1 rows 0 raw)
              (\<lambda>h2. Inr (new_coll h2 \<lparr>Header = header, Rows = rows\<rparr>))) = Inl e)
   \<longleftrightarrow> (\<exists>columns \<in> set raw. isl (new columns))"
proof -
  have "(\<exists>e. (let (h1, rows) = make_slice h (length raw)
         in andThen (ReadCSV_loop new h1 rows 0 raw)
              (\<lambda>h2. Inr (new_coll h2 \<lparr>Header = header, Rows = rows\<rparr>))) = Inl e)
     \<longleftrightarrow> (\<exists>e. ReadCSV_loop new (fst (make_slice h (length raw))) (snd (make_slice h (length raw))) 0 raw = Inl e)"
    by (simp add: andThen_Inl_iff split_beta Let_def)
  then show ?thesis
    by (simp only: ReadCSV_loop_Inl)
qed

lemma WriteCSV_loop_rows:
  "WriteCSV_loop tm header (map Some rs)
     = Inr (map (\<lambda>row. map (\<lambda>heading. lookup (tm row) heading) header) rs)"
  by (induction rs) simp_all

section \<open>The rows of a loaded table\<close>

lemma ReadCSV_Inr:
  assumes "ReadCSV ParseFloat h (header # records) = Inr (h', collection)"
  shows "\<exists>rows. list_all2 (\<lambda>columns row. newRow ParseFloat columns = Inr row)
                   (map (dict_of header) records) rows
            \<and> Header (colls h' collection) = header
            \<and> elems h' (Rows (colls h' collection)) = map Some rows"
proof -
  from assms obtain labels raw where
    csv: "CSVToMap_loop (header # records) None [] = Inr (labels, raw)"
    and load: "(let (h1, rows) = make_slice h (length raw)
                in andThen (ReadCSV_loop (newRow ParseFloat) h1 rows 0 raw)
                     (\<lambda>h2. Inr (new_coll h2 \<lparr>Header = labels, Rows = rows\<rparr>))) = Inr (h', collection)"
    by (auto simp: ReadCSV_def CSVToMap_def andThen_Inr_iff split: sum.splits)
  from CSVToMap_loop_header [OF csv] load_Inr [OF load] show ?thesis by simp
qed

lemma ReadCsv_p0_Inr:
  assumes "ReadCsv_p0 ParseFloat h (header # records) = Inr (h', lc)"
  shows "\<exists>rows. list_all2 (\<lambda>columns row. newLicenceRow_p0 ParseFloat columns = Inr row)
                   (map (dict_of header) records) rows
            \<and> Header (colls h' lc) = header
            \<and> elems h' (Rows (colls h' lc)) = map Some rows"
proof -
  from assms obtain labels raw where
    csv: "CSVToMap_loop (header # records) None [] = Inr (labels, raw)"
    and load: "(let (h1, rows) = make_slice h (length raw)
                in andThen (ReadCSV_loop (newLicenceRow_p0 ParseFloat) h1 rows 0 raw)
                     (\<lambda>h2. Inr (new_coll h2 \<lparr>Header = labels, Rows = rows\<rparr>))) = Inr (h', lc)"
    by (auto simp: ReadCsv_p0_def CSVToMap_p0_def andThen_Inr_iff)
  from CSVToMap_loop_header [OF csv] load_Inr [OF load] show ?thesis by simp
qed

lemma ReadCsv_p1_Inr:
  assumes "ReadCsv_p1 ParseFloat h (header # records) = Inr (h', lc)"
  shows "\<exists>rows. list_all2 (\<lambda>columns row. newLicenceRow_p1 ParseFloat columns = Inr row)
                   (map (dict_of header) records) rows
            \<and> Header (colls h' lc) = header
            \<and> elems h' (Rows (colls h' lc)) = map Some rows"
proof -
  from assms obtain labels raw where
    csv: "CSVToMap_loop (header # records) None [] = Inr (labels, raw)"
    and load: "(let (h1, rows) = make_slice h (length raw)
                in andThen (ReadCSV_loop (newLicenceRow_p1 ParseFloat) h1 rows 0 raw)
                     (\<lambda>h2. Inr (new_coll h2 \<lparr>Header = labels, Rows = rows\<rparr>))) = Inr (h', lc)"
    by (auto simp: ReadCsv_p1_def CSVToMap_p1_def andThen_Inr_iff)
  from CSVToMap_loop_header [OF csv] load_Inr [OF load] show ?thesis by simp
qed

section \<open>The claim on an empty cell\<close>

lemmas load_defs =
  CSVToMap_def CSVToMap_p0_def CSVToMap_p1_def andThen_def make_slice_def Let_def Atoi_def
  lookup_def new_coll_def dict_of_def store_def empty_heap_def

text \<open>
  C10. A table with the column \<^verbatim>\<open>OS Easting\<close> and an empty cell under it makes the load
  die, and the same table without that column loads. \<^verbatim>\<open>ReadCsv\<close> of part_001 does the
  same with its column \<^verbatim>\<open>OSGB36 E\<close>.
\<close>

theorem C10_empty_cell_in_present_column_aborts:
  "ReadCSV ParseFloat h [[''Licence Number'', ''OS Easting''], [''1234'', '''']]
     = Inl (Wrap (NumError ''Atoi'' '''') ''could not convert easting'')
   \<and> \<not> isl (ReadCSV ParseFloat h [[''Licence Number''], [''1234'']])
   \<and> ReadCsv_p1 ParseFloat h1 [[''Licence Number'', ''OSGB36 E''], [''1234'', '''']]
     = Inl (NumError ''Atoi'' '''')
   \<and> \<not> isl (ReadCsv_p1 ParseFloat h1 [[''Licence Number''], [''1234'']])"
  by (simp add: ReadCSV_def ReadCsv_p1_def newRow_def newLicenceRow_p1_def
      HeadingOsEasting_def HeadingOsNorthing_def HeadingWgs84Longitude_def
      HeadingWgs84Latitude_def HeadingOsgb36E_def HeadingOsgb36N_def HeadingWgs84Long_def
      HeadingWgs84Lat_def CSVToMap_def CSVToMap_p1_def andThen_def make_slice_def Let_def
      Atoi_def lookup_def new_coll_def dict_of_def store_def)

section \<open>Extension columns at load time\<close>

lemma newRow_isl:
  "isl (newRow ParseFloat columns) \<longleftrightarrow>
   (\<exists>label \<in> dom columns. parse_fails ParseFloat label (lookup columns label))"
proof -
  have "isl (newRow ParseFloat columns) \<longleftrightarrow>
      (HeadingOsEasting \<in> dom columns \<and> isl (Atoi (lookup columns HeadingOsEasting)))
    \<or> (HeadingOsNorthing \<in> dom columns \<and> isl (Atoi (lookup columns HeadingOsNorthing)))
    \<or> (HeadingWgs84Longitude \<in> dom columns \<and> isl (ParseFloat (lookup columns HeadingWgs84Longitude)))
    \<or> (HeadingWgs84Latitude \<in> dom columns \<and> isl (ParseFloat (lookup columns HeadingWgs84Latitude)))"
    by (simp add: newRow_def andThen_def Let_def split: sum.split)
  also have "\<dots> \<longleftrightarrow> (\<exists>label \<in> dom columns. parse_fails ParseFloat label (lookup columns label))"
    unfolding parse_fails_def by blast
  finally show ?thesis .
qed

lemma newLicenceRow_p1_isl:
  "isl (newLicenceRow_p1 ParseFloat row) \<longleftrightarrow>
   (\<exists>label \<in> dom row. parse_fails_p1 ParseFloat label (lookup row label))"
proof -
  have "isl (newLicenceRow_p1 ParseFloat row) \<longleftrightarrow>
      (HeadingOsgb36E \<in> dom row \<and> isl (Atoi (lookup row HeadingOsgb36E)))
    \<or> (HeadingOsgb36N \<in> dom row \<and> isl (Atoi (lookup row HeadingOsgb36N)))
    \<or> (HeadingWgs84Long \<in> dom row \<and> isl (ParseFloat (lookup row HeadingWgs84Long)))
    \<or> (HeadingWgs84Lat \<in> dom row \<and> isl (ParseFloat (lookup row HeadingWgs84Lat)))"
    by (simp add: newLicenceRow_p1_def andThen_def Let_def split: sum.split)
  also have "\<dots> \<longleftrightarrow> (\<exists>label \<in> dom row. parse_fails_p1 ParseFloat label (lookup row label))"
    unfolding parse_fails_p1_def by blast
  finally show ?thesis .
qed

lemma newRow_literal_zero:
  "OsEasting (newRow_literal columns :: ('f::zero) Row) = 0"
  "OsNorthing (newRow_literal columns :: ('f::zero) Row) = 0"
  "Wgs84Longitude (newRow_literal columns :: ('f::zero) Row) = 0"
  "Wgs84LongitudeAsString (newRow_literal columns :: ('f::zero) Row) = ''''"
  "Wgs84Latitude (newRow_literal columns :: ('f::zero) Row) = 0"
  "Wgs84LatitudeAsString (newRow_literal columns :: ('f::zero) Row) = ''''"
  by (simp_all add: newRow_literal_def)

lemma newLicenceRow_p1_literal_zero:
  "LicenceRow_p1.Osgb36Eastings (newLicenceRow_p1_literal row :: ('f::zero) LicenceRow_p1) = 0"
  "LicenceRow_p1.Osgb36Northings (newLicenceRow_p1_literal row :: ('f::zero) LicenceRow_p1) = 0"
  "LicenceRow_p1.Wgs84Longitude (newLicenceRow_p1_literal row :: ('f::zero) LicenceRow_p1) = 0"
  "LicenceRow_p1.Wgs84LongitudeAsString (newLicenceRow_p1_literal row :: ('f::zero) LicenceRow_p1) = ''''"
  "LicenceRow_p1.Wgs84Latitude (newLicenceRow_p1_literal row :: ('f::zero) LicenceRow_p1) = 0"
  "LicenceRow_p1.Wgs84LatitudeAsString (newLicenceRow_p1_literal row :: ('f::zero) LicenceRow_p1) = ''''"
  by (simp_all add: newLicenceRow_p1_literal_def)

lemma newRow_absent:
  assumes "newRow ParseFloat columns = Inr row"
  shows "(HeadingOsEasting \<notin> dom columns \<longrightarrow> OsEasting row = 0)
       \<and> (HeadingOsNorthing \<notin> dom columns \<longrightarrow> OsNorthing row = 0)
       \<and> (HeadingWgs84Longitude \<notin> dom columns \<longrightarrow>
            Wgs84Longitude row = 0 \<and> Wgs84LongitudeAsString row = '''')
       \<and> (HeadingWgs84Latitude \<notin> dom columns \<longrightarrow>
            Wgs84Latitude row = 0 \<and> Wgs84LatitudeAsString row = '''')"
  using assms
  by (auto simp: newRow_def andThen_def Let_def newRow_literal_zero split: sum.splits if_splits)

lemma newLicenceRow_p1_absent:
  assumes "newLicenceRow_p1 ParseFloat row = Inr licenceRow"
  shows "(HeadingOsgb36E \<notin> dom row \<longrightarrow> LicenceRow_p1.Osgb36Eastings licenceRow = 0)
       \<and> (HeadingOsgb36N \<notin> dom row \<longrightarrow> LicenceRow_p1.Osgb36Northings licenceRow = 0)
       \<and> (HeadingWgs84Long \<notin> dom row \<longrightarrow>
            LicenceRow_p1.Wgs84Longitude licenceRow = 0
            \<and> LicenceRow_p1.Wgs84LongitudeAsString licenceRow = '''')
       \<and> (HeadingWgs84Lat \<notin> dom row \<longrightarrow>
            LicenceRow_p1.Wgs84Latitude licenceRow = 0
            \<and> LicenceRow_p1.Wgs84LatitudeAsString licenceRow = '''')"
  using assms
  by (auto simp: newLicenceRow_p1_def andThen_def Let_def newLicenceRow_p1_literal_zero
      split: sum.splits if_splits)

text \<open>When does reading the table itself fail, and what does it give otherwise.\<close>

lemma CSVToMap_loop_cases:
  "(\<exists>rcd \<in> set records. length rcd \<noteq> length header)
     \<and> CSVToMap_loop (header # records) None [] = Inl ErrFieldCount
   \<or> (\<forall>rcd \<in> set records. length rcd = length header)
     \<and> CSVToMap_loop (header # records) None [] = Inr (header, map (dict_of header) records)"
proof (cases "CSVToMap_loop records (Some header) []")
  case (Inl e)
  then show ?thesis
    by (simp add: CSVToMap_loop_Inl)
next
  case (Inr res)
  obtain labels raw where res: "res = (labels, raw)" by (cases res)
  from Inr have "\<not> (\<exists>rcd \<in> set records. length rcd \<noteq> length header)"
    using CSVToMap_loop_Inl [of records header "[]" ErrFieldCount] by auto
  with Inr res CSVToMap_loop_Some [of records header "[]" labels raw] show ?thesis
    by simp
qed

lemma load_isl:
  "isl (let (h1, rows) = make_slice h (length raw)
        in andThen (ReadCSV_loop new h1 rows 0 raw)
             (\<lambda>h2. Inr (new_coll h2 \<lparr>Header = header, Rows = rows\<rparr>)))
   \<longleftrightarrow> (\<exists>columns \<in> set raw. isl (new columns))"
  using load_Inl [of h raw new header] by (auto simp: isl_def)

lemma row_of_loaded:
  assumes "list_all2 (\<lambda>columns row. new columns = Inr row) (map (dict_of header) records) rows"
    and "row \<in> set rows"
  shows "\<exists>columns. dom columns = set header \<and> new columns = Inr row"
proof -
  from assms(2) obtain i where i: "i < length rows" "rows ! i = row"
    by (auto simp: in_set_conv_nth)
  from assms(1) i have "new (map (dict_of header) records ! i) = Inr row"
    by (auto dest: list_all2_nthD2)
  moreover from assms(1) i have "i < length records"
    by (auto dest: list_all2_lengthD)
  ultimately show ?thesis
    by (intro exI [of _ "dict_of header (records ! i)"]) (simp add: dom_dict_of)
qed

text \<open>
  C9. A load dies exactly when the table is ragged or some row holds, under an extension
  label of the header, a value that does not parse as that label's numeric kind: so a
  present label with an unparsable value is fatal to the whole load, and an absent label
  never is. After a load that succeeds, every row has the zero value (and the empty
  string form) in the fields of each extension label that the header lacks. Stated for
  \<^verbatim>\<open>ReadCSV\<close> of wtrcsv.go and \<^verbatim>\<open>ReadCsv\<close> of part_001.
\<close>

theorem C9_unparsable_extension_value_is_fatal:
  "(isl (ReadCSV ParseFloat h (header # records)) \<longleftrightarrow>
      (\<exists>rcd \<in> set records. length rcd \<noteq> length header)
      \<or> (\<exists>rcd \<in> set records. \<exists>label \<in> set header.
            parse_fails ParseFloat label (lookup (dict_of header rcd) label)))
   \<and> (ReadCSV ParseFloat h (header # records) = Inr (h', collection) \<longrightarrow>
        (\<forall>row. Some row \<in> set (elems h' (Rows (colls h' collection))) \<longrightarrow>
           (HeadingOsEasting \<notin> set header \<longrightarrow> OsEasting row = 0)
           \<and> (HeadingOsNorthing \<notin> set header \<longrightarrow> OsNorthing row = 0)
           \<and> (HeadingWgs84Longitude \<notin> set header \<longrightarrow>
                Wgs84Longitude row = 0 \<and> Wgs84LongitudeAsString row = '''')
           \<and> (HeadingWgs84Latitude \<notin> set header \<longrightarrow>
                Wgs84Latitude row = 0 \<and> Wgs84LatitudeAsString row = '''')))
   \<and> (isl (ReadCsv_p1 ParseFloat h1 (header # records)) \<longleftrightarrow>
      (\<exists>rcd \<in> set records. length rcd \<noteq> length header)
      \<or> (\<exists>rcd \<in> set records. \<exists>label \<in> set header.
            parse_fails_p1 ParseFloat label (lookup (dict_of header rcd) label)))
   \<and> (ReadCsv_p1 ParseFloat h1 (header # records) = Inr (h1', lc) \<longrightarrow>
        (\<forall>licenceRow. Some licenceRow \<in> set (elems h1' (Rows (colls h1' lc))) \<longrightarrow>
           (HeadingOsgb36E \<notin> set header \<longrightarrow> LicenceRow_p1.Osgb36Eastings licenceRow = 0)
           \<and> (HeadingOsgb36N \<notin> set header \<longrightarrow> LicenceRow_p1.Osgb36Northings licenceRow = 0)
           \<and> (HeadingWgs84Long \<notin> set header \<longrightarrow>
                LicenceRow_p1.Wgs84Longitude licenceRow = 0
                \<and> LicenceRow_p1.Wgs84LongitudeAsString licenceRow = '''')
           \<and> (HeadingWgs84Lat \<notin> set header \<longrightarrow>
                LicenceRow_p1.Wgs84Latitude licenceRow = 0
                \<and> LicenceRow_p1.Wgs84LatitudeAsString licenceRow = '''')))"
proof (intro conjI impI allI)
  show "isl (ReadCSV ParseFloat h (header # records)) \<longleftrightarrow>
      (\<exists>rcd \<in> set records. length rcd \<noteq> length header)
      \<or> (\<exists>rcd \<in> set records. \<exists>label \<in> set header.
            parse_fails ParseFloat label (lookup (dict_of header rcd) label))"
    using CSVToMap_loop_cases [of records header]
  proof (elim disjE conjE)
    assume "\<exists>rcd \<in> set records. length rcd \<noteq> length header"
      and "CSVToMap_loop (header # records) None [] = Inl ErrFieldCount"
    then show ?thesis
      by (simp add: ReadCSV_def CSVToMap_def andThen_def)
  next
    assume ok: "\<forall>rcd \<in> set records. length rcd = length header"
      and csv: "CSVToMap_loop (header # records) None [] = Inr (header, map (dict_of header) records)"
    from csv have csv': "CSVToMap_loop records (Some header) [] = Inr (header, map (dict_of header) records)"
      by simp
    have "isl (ReadCSV ParseFloat h (header # records))
        \<longleftrightarrow> (\<exists>columns \<in> set (map (dict_of header) records). isl (newRow ParseFloat columns))"
      using load_isl [of h "map (dict_of header) records" "newRow ParseFloat" header]
      by (simp add: ReadCSV_def CSVToMap_def csv' andThen_def [of "Inr _"] del: set_map)
    also have "\<dots> \<longleftrightarrow> (\<exists>rcd \<in> set records. \<exists>label \<in> set header.
            parse_fails ParseFloat label (lookup (dict_of header rcd) label))"
      by (simp add: newRow_isl dom_dict_of)
    finally show ?thesis using ok by simp
  qed
next
  fix row
  assume "ReadCSV ParseFloat h (header # records) = Inr (h', collection)"
    and row: "Some row \<in> set (elems h' (Rows (colls h' collection)))"
  from ReadCSV_Inr [OF this(1)] row obtain rows where
    "list_all2 (\<lambda>columns row. newRow ParseFloat columns = Inr row)
       (map (dict_of header) records) rows" "row \<in> set rows"
    by auto
  from row_of_loaded [OF this] obtain columns where
    columns: "dom columns = set header" "newRow ParseFloat columns = Inr row"
    by blast
  from newRow_absent [OF columns(2)] columns(1)
  show "HeadingOsEasting \<notin> set header \<Longrightarrow> OsEasting row = 0"
    and "HeadingOsNorthing \<notin> set header \<Longrightarrow> OsNorthing row = 0"
    and "HeadingWgs84Longitude \<notin> set header \<Longrightarrow> Wgs84Longitude row = 0"
    and "HeadingWgs84Longitude \<notin> set header \<Longrightarrow> Wgs84LongitudeAsString row = ''''"
    and "HeadingWgs84Latitude \<notin> set header \<Longrightarrow> Wgs84Latitude row = 0"
    and "HeadingWgs84Latitude \<notin> set header \<Longrightarrow> Wgs84LatitudeAsString row = ''''"
    by simp_all
next
  show "isl (ReadCsv_p1 ParseFloat h1 (header # records)) \<longleftrightarrow>
      (\<exists>rcd \<in> set records. length rcd \<noteq> length header)
      \<or> (\<exists>rcd \<in> set records. \<exists>label \<in> set header.
            parse_fails_p1 ParseFloat label (lookup (dict_of header rcd) label))"
    using CSVToMap_loop_cases [of records header]
  proof (elim disjE conjE)
    assume "\<exists>rcd \<in> set records. length rcd \<noteq> length header"
      and "CSVToMap_loop (header # records) None [] = Inl ErrFieldCount"
    then show ?thesis
      by (simp add: ReadCsv_p1_def CSVToMap_p1_def andThen_def)
  next
    assume ok: "\<forall>rcd \<in> set records. length rcd = length header"
      and csv: "CSVToMap_loop (header # records) None [] = Inr (header, map (dict_of header) records)"
    from csv have csv': "CSVToMap_loop records (Some header) [] = Inr (header, map (dict_of header) records)"
      by simp
    have "isl (ReadCsv_p1 ParseFloat h1 (header # records))
        \<longleftrightarrow> (\<exists>row \<in> set (map (dict_of header) records). isl (newLicenceRow_p1 ParseFloat row))"
      using load_isl [of h1 "map (dict_of header) records" "newLicenceRow_p1 ParseFloat" header]
      by (simp add: ReadCsv_p1_def CSVToMap_p1_def csv' andThen_def [of "Inr _"] del: set_map)
    also have "\<dots> \<longleftrightarrow> (\<exists>rcd \<in> set records. \<exists>label \<in> set header.
            parse_fails_p1 ParseFloat label (lookup (dict_of header rcd) label))"
      by (simp add: newLicenceRow_p1_isl dom_dict_of)
    finally show ?thesis using ok by simp
  qed
next
  fix licenceRow
  assume "ReadCsv_p1 ParseFloat h1 (header # records) = Inr (h1', lc)"
    and row: "Some licenceRow \<in> set (elems h1' (Rows (colls h1' lc)))"
  from ReadCsv_p1_Inr [OF this(1)] row obtain rows where
    "list_all2 (\<lambda>columns row. newLicenceRow_p1 ParseFloat columns = Inr row)
       (map (dict_of header) records) rows" "licenceRow \<in> set rows"
    by auto
  from row_of_loaded [OF this] obtain columns where
    columns: "dom columns = set header" "newLicenceRow_p1 ParseFloat columns = Inr licenceRow"
    by blast
  from newLicenceRow_p1_absent [OF columns(2)] columns(1)
  show "HeadingOsgb36E \<notin> set header \<Longrightarrow> LicenceRow_p1.Osgb36Eastings licenceRow = 0"
    and "HeadingOsgb36N \<notin> set header \<Longrightarrow> LicenceRow_p1.Osgb36Northings licenceRow = 0"
    and "HeadingWgs84Long \<notin> set header \<Longrightarrow> LicenceRow_p1.Wgs84Longitude licenceRow = 0"
    and "HeadingWgs84Long \<notin> set header \<Longrightarrow> LicenceRow_p1.Wgs84LongitudeAsString licenceRow = ''''"
    and "HeadingWgs84Lat \<notin> set header \<Longrightarrow> LicenceRow_p1.Wgs84Latitude licenceRow = 0"
    and "HeadingWgs84Lat \<notin> set header \<Longrightarrow> LicenceRow_p1.Wgs84LatitudeAsString licenceRow = ''''"
    by simp_all
qed

theorem C9_unparsable_extension_value_is_fatal_witness:
  "isl (ReadCSV (\<lambda>s. Inl (NumError ''ParseFloat'' s)) (empty_heap :: int Row heap)
          ([''NGR'', ''OS Easting''] # [[''SU 1'', ''12x'']]))
   \<and> (\<exists>h' collection.
         ReadCSV (\<lambda>s. Inl (NumError ''ParseFloat'' s)) (empty_heap :: int Row heap)
           ([''NGR''] # [[''SU 1'']]) = Inr (h', collection)
         \<and> (\<forall>row. Some row \<in> set (elems h' (Rows (colls h' collection))) \<longrightarrow>
               OsEasting row = 0 \<and> OsNorthing row = 0
               \<and> Wgs84Longitude row = 0 \<and> Wgs84LongitudeAsString row = ''''
               \<and> Wgs84Latitude row = 0 \<and> Wgs84LatitudeAsString row = ''''))
   \<and> isl (ReadCsv_p1 (\<lambda>s. Inl (NumError ''ParseFloat'' s)) (empty_heap :: int LicenceRow_p1 heap)
          ([''NGR'', ''WGS84 Latitude''] # [[''SU 1'', ''north'']]))
   \<and> (\<exists>h' lc.
         ReadCsv_p1 (\<lambda>s. Inl (NumError ''ParseFloat'' s)) (empty_heap :: int LicenceRow_p1 heap)
           ([''NGR''] # [[''SU 1'']]) = Inr (h', lc)
         \<and> (\<forall>licenceRow. Some licenceRow \<in> set (elems h' (Rows (colls h' lc))) \<longrightarrow>
               LicenceRow_p1.Osgb36Eastings licenceRow = 0
               \<and> LicenceRow_p1.Osgb36Northings licenceRow = 0
               \<and> LicenceRow_p1.Wgs84Longitude licenceRow = 0
               \<and> LicenceRow_p1.Wgs84LongitudeAsString licenceRow = ''''
               \<and> LicenceRow_p1.Wgs84Latitude licenceRow = 0
               \<and> LicenceRow_p1.Wgs84LatitudeAsString licenceRow = ''''))"
proof -
  let ?pf = "\<lambda>s. Inl (NumError ''ParseFloat'' s) :: error + int"
  note C9 = C9_unparsable_extension_value_is_fatal
  have bad: "\<exists>rcd \<in> set [[''SU 1'', ''12x'']]. \<exists>label \<in> set [''NGR'', ''OS Easting''].
               parse_fails ?pf label (lookup (dict_of [''NGR'', ''OS Easting''] rcd) label)"
    by (simp add: parse_fails_def HeadingOsEasting_def HeadingOsNorthing_def dict_of_def
        lookup_def Atoi_def isDigit_def)
  have bad1: "\<exists>rcd \<in> set [[''SU 1'', ''north'']]. \<exists>label \<in> set [''NGR'', ''WGS84 Latitude''].
               parse_fails_p1 ?pf label (lookup (dict_of [''NGR'', ''WGS84 Latitude''] rcd) label)"
    by (simp add: parse_fails_p1_def HeadingWgs84Lat_def dict_of_def lookup_def)
  let ?X = "ReadCSV ?pf empty_heap ([''NGR''] # [[''SU 1'']])"
  let ?Y = "ReadCsv_p1 ?pf empty_heap ([''NGR''] # [[''SU 1'']])"
  have "\<not> isl ?X"
    by (simp add: ReadCSV_def newRow_def HeadingOsEasting_def HeadingOsNorthing_def
        HeadingWgs84Longitude_def HeadingWgs84Latitude_def load_defs)
  then obtain h1 c1 where X: "?X = Inr (h1, c1)"
    by (cases ?X) auto
  have "\<not> isl ?Y"
    by (simp add: ReadCsv_p1_def newLicenceRow_p1_def HeadingOsgb36E_def HeadingOsgb36N_def
        HeadingWgs84Long_def HeadingWgs84Lat_def load_defs)
  then obtain h2 c2 where Y: "?Y = Inr (h2, c2)"
    by (cases ?Y) auto
  have absent: "HeadingOsEasting \<notin> set [''NGR'']" "HeadingOsNorthing \<notin> set [''NGR'']"
    "HeadingWgs84Longitude \<notin> set [''NGR'']" "HeadingWgs84Latitude \<notin> set [''NGR'']"
    "HeadingOsgb36E \<notin> set [''NGR'']" "HeadingOsgb36N \<notin> set [''NGR'']"
    "HeadingWgs84Long \<notin> set [''NGR'']" "HeadingWgs84Lat \<notin> set [''NGR'']"
    by (simp_all add: HeadingOsEasting_def HeadingOsNorthing_def HeadingWgs84Longitude_def
        HeadingWgs84Latitude_def HeadingOsgb36E_def HeadingOsgb36N_def HeadingWgs84Long_def
        HeadingWgs84Lat_def)
  from bad C9 [of ?pf empty_heap "[''NGR'', ''OS Easting'']" "[[''SU 1'', ''12x'']]"]
  have 1: "isl (ReadCSV ?pf (empty_heap :: int Row heap) ([''NGR'', ''OS Easting''] # [[''SU 1'', ''12x'']]))"
    by blast
  from bad1 C9 [of ?pf _ "[''NGR'', ''WGS84 Latitude'']" "[[''SU 1'', ''north'']]" _ _ empty_heap]
  have 3: "isl (ReadCsv_p1 ?pf (empty_heap :: int LicenceRow_p1 heap)
                  ([''NGR'', ''WGS84 Latitude''] # [[''SU 1'', ''north'']]))"
    by blast
  from X Y absent C9 [of ?pf empty_heap "[''NGR'']" "[[''SU 1'']]" h1 c1 empty_heap h2 c2]
  have 2: "\<forall>row. Some row \<in> set (elems h1 (Rows (colls h1 c1))) \<longrightarrow>
               OsEasting row = 0 \<and> OsNorthing row = 0
               \<and> Wgs84Longitude row = 0 \<and> Wgs84LongitudeAsString row = ''''
               \<and> Wgs84Latitude row = 0 \<and> Wgs84LatitudeAsString row = ''''"
    and 4: "\<forall>licenceRow. Some licenceRow \<in> set (elems h2 (Rows (colls h2 c2))) \<longrightarrow>
               LicenceRow_p1.Osgb36Eastings licenceRow = 0
               \<and> LicenceRow_p1.Osgb36Northings licenceRow = 0
               \<and> LicenceRow_p1.Wgs84Longitude licenceRow = 0
               \<and> LicenceRow_p1.Wgs84LongitudeAsString licenceRow = ''''
               \<and> LicenceRow_p1.Wgs84Latitude licenceRow = 0
               \<and> LicenceRow_p1.Wgs84LatitudeAsString licenceRow = ''''"
    by blast+
  from 1 2 3 4 X Y show ?thesis by blast
qed

section \<open>Rendering the extension fields\<close>

lemma Itoa_0: "Itoa 0 = ''0''"
  by code_simp

lemma toMap_extension:
  "toMap row HeadingOsEasting = Some (Itoa (OsEasting row))"
  "toMap row HeadingOsNorthing = Some (Itoa (OsNorthing row))"
  "toMap row HeadingWgs84Longitude = Some (Wgs84LongitudeAsString row)"
  "toMap row HeadingWgs84Latitude = Some (Wgs84LatitudeAsString row)"
  by (simp_all add: toMap_def HeadingOsEasting_def HeadingOsNorthing_def
      HeadingWgs84Longitude_def HeadingWgs84Latitude_def)

lemma toMap_p1_extension:
  "toMap_p1 licenceRow HeadingOsgb36E = Some (Itoa (LicenceRow_p1.Osgb36Eastings licenceRow))"
  "toMap_p1 licenceRow HeadingOsgb36N = Some (Itoa (LicenceRow_p1.Osgb36Northings licenceRow))"
  "toMap_p1 licenceRow HeadingWgs84Long = Some (LicenceRow_p1.Wgs84LongitudeAsString licenceRow)"
  "toMap_p1 licenceRow HeadingWgs84Lat = Some (LicenceRow_p1.Wgs84LatitudeAsString licenceRow)"
  by (simp_all add: toMap_p1_def HeadingOsgb36E_def HeadingOsgb36N_def
      HeadingWgs84Long_def HeadingWgs84Lat_def)

lemma toMap_p0_extension:
  "toMap_p0 Sprintf_f licenceRow ''OSGB36 E'' = Some (Itoa (LicenceRow_p0.Osgb36Eastings licenceRow))"
  "toMap_p0 Sprintf_f licenceRow ''OSGB36 N'' = Some (Itoa (LicenceRow_p0.Osgb36Northings licenceRow))"
  "toMap_p0 Sprintf_f licenceRow ''WGS84 E'' = Some (Sprintf_f (LicenceRow_p0.Wgs84Eastings licenceRow))"
  "toMap_p0 Sprintf_f licenceRow ''WGS84 N'' = Some (Sprintf_f (LicenceRow_p0.Wgs84Northings licenceRow))"
  by (simp_all add: toMap_p0_def)

lemma newRow_present:
  assumes "newRow ParseFloat columns = Inr row"
  shows "(HeadingOsEasting \<in> dom columns \<longrightarrow>
            Atoi (lookup columns HeadingOsEasting) = Inr (OsEasting row))
       \<and> (HeadingOsNorthing \<in> dom columns \<longrightarrow>
            Atoi (lookup columns HeadingOsNorthing) = Inr (OsNorthing row))
       \<and> (HeadingWgs84Longitude \<in> dom columns \<longrightarrow>
            Wgs84LongitudeAsString row = lookup columns HeadingWgs84Longitude)
       \<and> (HeadingWgs84Latitude \<in> dom columns \<longrightarrow>
            Wgs84LatitudeAsString row = lookup columns HeadingWgs84Latitude)"
  using assms
  by (auto simp: newRow_def andThen_def Let_def split: sum.splits if_splits)

lemma newLicenceRow_p1_present:
  assumes "newLicenceRow_p1 ParseFloat row = Inr licenceRow"
  shows "(HeadingOsgb36E \<in> dom row \<longrightarrow>
            Atoi (lookup row HeadingOsgb36E) = Inr (LicenceRow_p1.Osgb36Eastings licenceRow))
       \<and> (HeadingOsgb36N \<in> dom row \<longrightarrow>
            Atoi (lookup row HeadingOsgb36N) = Inr (LicenceRow_p1.Osgb36Northings licenceRow))
       \<and> (HeadingWgs84Long \<in> dom row \<longrightarrow>
            LicenceRow_p1.Wgs84LongitudeAsString licenceRow = lookup row HeadingWgs84Long)
       \<and> (HeadingWgs84Lat \<in> dom row \<longrightarrow>
            LicenceRow_p1.Wgs84LatitudeAsString licenceRow = lookup row HeadingWgs84Lat)"
  using assms
  by (auto simp: newLicenceRow_p1_def andThen_def Let_def split: sum.splits if_splits)

lemma newLicenceRow_p0_literal_zero:
  "LicenceRow_p0.Osgb36Eastings (newLicenceRow_p0_literal row pc pd lc ngr :: ('f::zero) LicenceRow_p0) = 0"
  "LicenceRow_p0.Osgb36Northings (newLicenceRow_p0_literal row pc pd lc ngr :: ('f::zero) LicenceRow_p0) = 0"
  "LicenceRow_p0.Wgs84Eastings (newLicenceRow_p0_literal row pc pd lc ngr :: ('f::zero) LicenceRow_p0) = 0"
  "LicenceRow_p0.Wgs84Northings (newLicenceRow_p0_literal row pc pd lc ngr :: ('f::zero) LicenceRow_p0) = 0"
  by (simp_all add: newLicenceRow_p0_literal_def)

lemma newLicenceRow_p0_extension:
  assumes "newLicenceRow_p0 ParseFloat row = Inr licenceRow"
  shows "(if ''OSGB36 E'' \<in> dom row
          then Atoi (lookup row ''OSGB36 E'') = Inr (LicenceRow_p0.Osgb36Eastings licenceRow)
          else LicenceRow_p0.Osgb36Eastings licenceRow = 0)
       \<and> (if ''OSGB36 N'' \<in> dom row
          then Atoi (lookup row ''OSGB36 N'') = Inr (LicenceRow_p0.Osgb36Northings licenceRow)
          else LicenceRow_p0.Osgb36Northings licenceRow = 0)
       \<and> (if ''WGS84 E'' \<in> dom row
          then ParseFloat (lookup row ''WGS84 E'') = Inr (LicenceRow_p0.Wgs84Eastings licenceRow)
          else LicenceRow_p0.Wgs84Eastings licenceRow = 0)
       \<and> (if ''WGS84 N'' \<in> dom row
          then ParseFloat (lookup row ''WGS84 N'') = Inr (LicenceRow_p0.Wgs84Northings licenceRow)
          else LicenceRow_p0.Wgs84Northings licenceRow = 0)"
  using assms
  by (auto simp: newLicenceRow_p0_def andThen_def Let_def split_beta newLicenceRow_p0_literal_zero
      split: sum.splits if_splits)

text \<open>
  C3, as the claim states it, fails: an OS easting read from \<^verbatim>\<open>"007"\<close> is rendered as
  \<^verbatim>\<open>"7"\<close>, a formatting of the parsed number and not the string read; and a WGS84
  longitude that was never populated is rendered as the empty string, not as a zero.
\<close>

theorem C3_counterexample:
  "map_sum id (\<lambda>row. toMap row ''OS Easting'')
     (newRow (\<lambda>s. Inl (NumError ''ParseFloat'' s) :: error + int) [''OS Easting'' \<mapsto> ''007''])
     = Inr (Some ''7'')
   \<and> map_sum id (\<lambda>row. toMap row ''WGS84 Longitude'')
     (newRow (\<lambda>s. Inl (NumError ''ParseFloat'' s) :: error + int) Map.empty)
     = Inr (Some '''')"
proof -
  let ?pf = "\<lambda>s. Inl (NumError ''ParseFloat'' s) :: error + int"
  have atoi: "Atoi ''007'' = Inr 7"
    by code_simp
  have itoa: "Itoa 7 = ''7''"
    by code_simp
  have 1: "newRow ?pf [''OS Easting'' \<mapsto> ''007'']
             = Inr ((newRow_literal [''OS Easting'' \<mapsto> ''007''])\<lparr>OsEasting := 7\<rparr>)"
    by (simp add: newRow_def andThen_def Let_def lookup_def atoi HeadingOsEasting_def
        HeadingOsNorthing_def HeadingWgs84Longitude_def HeadingWgs84Latitude_def)
  have 2: "newRow ?pf Map.empty = Inr (newRow_literal Map.empty)"
    by (simp add: newRow_def andThen_def Let_def)
  have 3: "toMap ((newRow_literal [''OS Easting'' \<mapsto> ''007''] :: int Row)\<lparr>OsEasting := 7\<rparr>)
             ''OS Easting'' = Some ''7''"
    using toMap_extension(1)
      [of "(newRow_literal [''OS Easting'' \<mapsto> ''007''] :: int Row)\<lparr>OsEasting := 7\<rparr>"]
    by (simp add: HeadingOsEasting_def itoa)
  have 4: "toMap (newRow_literal Map.empty :: int Row) ''WGS84 Longitude'' = Some ''''"
    using toMap_extension(3) [of "newRow_literal Map.empty :: int Row"]
    by (simp add: HeadingWgs84Longitude_def newRow_literal_zero)
  show ?thesis
    by (simp add: 1 2 3 4)
qed

text \<open>
  C3, amended. In wtrcsv.go and part_001 a WGS84 longitude or latitude that the raw row
  had is rendered as the very string read, and as the empty string when the raw row
  lacked the column; an OS easting or northing is rendered as \<^verbatim>\<open>strconv.Itoa\<close> of the
  integer parsed, and as \<^verbatim>\<open>"0"\<close> when the raw row lacked the column. In part_000 all four
  extension fields are rendered from the number: \<^verbatim>\<open>strconv.Itoa\<close> of the integer,
  \<^verbatim>\<open>fmt.Sprintf("%f", _)\<close> of the float, and the same formatting of zero when the raw
  row lacked the column.
\<close>

theorem C3_extension_fields_rendered:
  "(newRow ParseFloat columns = Inr row \<longrightarrow>
      (\<forall>s. columns HeadingWgs84Longitude = Some s \<longrightarrow> toMap row HeadingWgs84Longitude = Some s)
    \<and> (\<forall>s. columns HeadingWgs84Latitude = Some s \<longrightarrow> toMap row HeadingWgs84Latitude = Some s)
    \<and> (columns HeadingWgs84Longitude = None \<longrightarrow> toMap row HeadingWgs84Longitude = Some '''')
    \<and> (columns HeadingWgs84Latitude = None \<longrightarrow> toMap row HeadingWgs84Latitude = Some '''')
    \<and> (\<forall>s. columns HeadingOsEasting = Some s \<longrightarrow>
          (\<exists>n. Atoi s = Inr n \<and> toMap row HeadingOsEasting = Some (Itoa n)))
    \<and> (\<forall>s. columns HeadingOsNorthing = Some s \<longrightarrow>
          (\<exists>n. Atoi s = Inr n \<and> toMap row HeadingOsNorthing = Some (Itoa n)))
    \<and> (columns HeadingOsEasting = None \<longrightarrow> toMap row HeadingOsEasting = Some ''0'')
    \<and> (columns HeadingOsNorthing = None \<longrightarrow> toMap row HeadingOsNorthing = Some ''0''))
   \<and> (newLicenceRow_p1 ParseFloat columns = Inr row1 \<longrightarrow>
      (\<forall>s. columns HeadingWgs84Long = Some s \<longrightarrow> toMap_p1 row1 HeadingWgs84Long = Some s)
    \<and> (\<forall>s. columns HeadingWgs84Lat = Some s \<longrightarrow> toMap_p1 row1 HeadingWgs84Lat = Some s)
    \<and> (columns HeadingWgs84Long = None \<longrightarrow> toMap_p1 row1 HeadingWgs84Long = Some '''')
    \<and> (columns HeadingWgs84Lat = None \<longrightarrow> toMap_p1 row1 HeadingWgs84Lat = Some '''')
    \<and> (\<forall>s. columns HeadingOsgb36E = Some s \<longrightarrow>
          (\<exists>n. Atoi s = Inr n \<and> toMap_p1 row1 HeadingOsgb36E = Some (Itoa n)))
    \<and> (\<forall>s. columns HeadingOsgb36N = Some s \<longrightarrow>
          (\<exists>n. Atoi s = Inr n \<and> toMap_p1 row1 HeadingOsgb36N = Some (Itoa n)))
    \<and> (columns HeadingOsgb36E = None \<longrightarrow> toMap_p1 row1 HeadingOsgb36E = Some ''0'')
    \<and> (columns HeadingOsgb36N = None \<longrightarrow> toMap_p1 row1 HeadingOsgb36N = Some ''0''))
   \<and> (newLicenceRow_p0 ParseFloat columns = Inr row0 \<longrightarrow>
      (\<forall>s. columns ''WGS84 E'' = Some s \<longrightarrow>
          (\<exists>x. ParseFloat s = Inr x \<and> toMap_p0 Sprintf_f row0 ''WGS84 E'' = Some (Sprintf_f x)))
    \<and> (\<forall>s. columns ''WGS84 N'' = Some s \<longrightarrow>
          (\<exists>x. ParseFloat s = Inr x \<and> toMap_p0 Sprintf_f row0 ''WGS84 N'' = Some (Sprintf_f x)))
    \<and> (columns ''WGS84 E'' = None \<longrightarrow> toMap_p0 Sprintf_f row0 ''WGS84 E'' = Some (Sprintf_f 0))
    \<and> (columns ''WGS84 N'' = None \<longrightarrow> toMap_p0 Sprintf_f row0 ''WGS84 N'' = Some (Sprintf_f 0))
    \<and> (\<forall>s. columns ''OSGB36 E'' = Some s \<longrightarrow>
          (\<exists>n. Atoi s = Inr n \<and> toMap_p0 Sprintf_f row0 ''OSGB36 E'' = Some (Itoa n)))
    \<and> (\<forall>s. columns ''OSGB36 N'' = Some s \<longrightarrow>
          (\<exists>n. Atoi s = Inr n \<and> toMap_p0 Sprintf_f row0 ''OSGB36 N'' = Some (Itoa n)))
    \<and> (columns ''OSGB36 E'' = None \<longrightarrow> toMap_p0 Sprintf_f row0 ''OSGB36 E'' = Some ''0'')
    \<and> (columns ''OSGB36 N'' = None \<longrightarrow> toMap_p0 Sprintf_f row0 ''OSGB36 N'' = Some ''0''))"
proof (intro conjI impI)
  assume new: "newRow ParseFloat columns = Inr row"
  note p = newRow_present [OF new] and a = newRow_absent [OF new]
  show "\<forall>s. columns HeadingWgs84Longitude = Some s \<longrightarrow> toMap row HeadingWgs84Longitude = Some s"
    and "\<forall>s. columns HeadingWgs84Latitude = Some s \<longrightarrow> toMap row HeadingWgs84Latitude = Some s"
    using p by (auto simp: toMap_extension lookup_def)
  show "columns HeadingWgs84Longitude = None \<Longrightarrow> toMap row HeadingWgs84Longitude = Some ''''"
    and "columns HeadingWgs84Latitude = None \<Longrightarrow> toMap row HeadingWgs84Latitude = Some ''''"
    and "columns HeadingOsEasting = None \<Longrightarrow> toMap row HeadingOsEasting = Some ''0''"
    and "columns HeadingOsNorthing = None \<Longrightarrow> toMap row HeadingOsNorthing = Some ''0''"
    using a by (auto simp: toMap_extension Itoa_0 domIff)
  show "\<forall>s. columns HeadingOsEasting = Some s \<longrightarrow>
          (\<exists>n. Atoi s = Inr n \<and> toMap row HeadingOsEasting = Some (Itoa n))"
    and "\<forall>s. columns HeadingOsNorthing = Some s \<longrightarrow>
          (\<exists>n. Atoi s = Inr n \<and> toMap row HeadingOsNorthing = Some (Itoa n))"
    using p by (auto simp: toMap_extension lookup_def)
next
  assume new: "newLicenceRow_p1 ParseFloat columns = Inr row1"
  note p = newLicenceRow_p1_present [OF new] and a = newLicenceRow_p1_absent [OF new]
  show "\<forall>s. columns HeadingWgs84Long = Some s \<longrightarrow> toMap_p1 row1 HeadingWgs84Long = Some s"
    and "\<forall>s. columns HeadingWgs84Lat = Some s \<longrightarrow> toMap_p1 row1 HeadingWgs84Lat = Some s"
    using p by (auto simp: toMap_p1_extension lookup_def)
  show "columns HeadingWgs84Long = None \<Longrightarrow> toMap_p1 row1 HeadingWgs84Long = Some ''''"
    and "columns HeadingWgs84Lat = None \<Longrightarrow> toMap_p1 row1 HeadingWgs84Lat = Some ''''"
    and "columns HeadingOsgb36E = None \<Longrightarrow> toMap_p1 row1 HeadingOsgb36E = Some ''0''"
    and "columns HeadingOsgb36N = None \<Longrightarrow> toMap_p1 row1 HeadingOsgb36N = Some ''0''"
    using a by (auto simp: toMap_p1_extension Itoa_0 domIff)
  show "\<forall>s. columns HeadingOsgb36E = Some s \<longrightarrow>
          (\<exists>n. Atoi s = Inr n \<and> toMap_p1 row1 HeadingOsgb36E = Some (Itoa n))"
    and "\<forall>s. columns HeadingOsgb36N = Some s \<longrightarrow>
          (\<exists>n. Atoi s = Inr n \<and> toMap_p1 row1 HeadingOsgb36N = Some (Itoa n))"
    using p by (auto simp: toMap_p1_extension lookup_def)
next
  assume new: "newLicenceRow_p0 ParseFloat columns = Inr row0"
  note e = newLicenceRow_p0_extension [OF new]
  show "\<forall>s. columns ''WGS84 E'' = Some s \<longrightarrow>
          (\<exists>x. ParseFloat s = Inr x \<and> toMap_p0 Sprintf_f row0 ''WGS84 E'' = Some (Sprintf_f x))"
    and "\<forall>s. columns ''WGS84 N'' = Some s \<longrightarrow>
          (\<exists>x. ParseFloat s = Inr x \<and> toMap_p0 Sprintf_f row0 ''WGS84 N'' = Some (Sprintf_f x))"
    and "\<forall>s. columns ''OSGB36 E'' = Some s \<longrightarrow>
          (\<exists>n. Atoi s = Inr n \<and> toMap_p0 Sprintf_f row0 ''OSGB36 E'' = Some (Itoa n))"
    and "\<forall>s. columns ''OSGB36 N'' = Some s \<longrightarrow>
          (\<exists>n. Atoi s = Inr n \<and> toMap_p0 Sprintf_f row0 ''OSGB36 N'' = Some (Itoa n))"
    using e by (auto simp: toMap_p0_extension lookup_def split: if_splits)
  show "columns ''WGS84 E'' = None \<Longrightarrow> toMap_p0 Sprintf_f row0 ''WGS84 E'' = Some (Sprintf_f 0)"
    and "columns ''WGS84 N'' = None \<Longrightarrow> toMap_p0 Sprintf_f row0 ''WGS84 N'' = Some (Sprintf_f 0)"
    and "columns ''OSGB36 E'' = None \<Longrightarrow> toMap_p0 Sprintf_f row0 ''OSGB36 E'' = Some ''0''"
    and "columns ''OSGB36 N'' = None \<Longrightarrow> toMap_p0 Sprintf_f row0 ''OSGB36 N'' = Some ''0''"
    using e by (auto simp: toMap_p0_extension Itoa_0 domIff split: if_splits)
qed

theorem C3_extension_fields_rendered_witness:
  "(\<exists>row. newRow (\<lambda>s. if s = ''-1.50'' then Inr (-2) else Inl (NumError ''ParseFloat'' s))
             [''OS Easting'' \<mapsto> ''+12'', ''WGS84 Longitude'' \<mapsto> ''-1.50''] = Inr (row :: int Row)
          \<and> toMap row HeadingWgs84Longitude = Some ''-1.50''
          \<and> toMap row HeadingWgs84Latitude = Some ''''
          \<and> toMap row HeadingOsEasting = Some ''12''
          \<and> toMap row HeadingOsNorthing = Some ''0'')
   \<and> (\<exists>row1. newLicenceRow_p1 (\<lambda>s. if s = ''-1.50'' then Inr (-2) else Inl (NumError ''ParseFloat'' s))
             [''OSGB36 E'' \<mapsto> ''+12'', ''WGS84 Longitude'' \<mapsto> ''-1.50''] = Inr (row1 :: int LicenceRow_p1)
          \<and> toMap_p1 row1 HeadingWgs84Long = Some ''-1.50''
          \<and> toMap_p1 row1 HeadingWgs84Lat = Some ''''
          \<and> toMap_p1 row1 HeadingOsgb36E = Some ''12''
          \<and> toMap_p1 row1 HeadingOsgb36N = Some ''0'')
   \<and> (\<exists>row0. newLicenceRow_p0 (\<lambda>s. if s = ''-1.50'' then Inr (-2) else Inl (NumError ''ParseFloat'' s))
             [''OSGB36 E'' \<mapsto> ''+12'', ''WGS84 E'' \<mapsto> ''-1.50''] = Inr (row0 :: int LicenceRow_p0)
          \<and> toMap_p0 Itoa row0 ''WGS84 E'' = Some ''-2''
          \<and> toMap_p0 Itoa row0 ''WGS84 N'' = Some ''0''
          \<and> toMap_p0 Itoa row0 ''OSGB36 E'' = Some ''12''
          \<and> toMap_p0 Itoa row0 ''OSGB36 N'' = Some ''0'')"
proof -
  let ?pf = "\<lambda>s. if s = ''-1.50'' then Inr (-2) else Inl (NumError ''ParseFloat'' s) :: error + int"
  let ?cols = "[''OS Easting'' \<mapsto> ''+12'', ''WGS84 Longitude'' \<mapsto> ''-1.50'']"
  let ?colsB = "[''OSGB36 E'' \<mapsto> ''+12'', ''WGS84 Longitude'' \<mapsto> ''-1.50'']"
  let ?colsA = "[''OSGB36 E'' \<mapsto> ''+12'', ''WGS84 E'' \<mapsto> ''-1.50'']"
  note C3 = C3_extension_fields_rendered
  have atoi: "Atoi ''+12'' = Inr 12" by code_simp
  have itoa: "Itoa 12 = ''12''" "Itoa (-2) = ''-2''" by code_simp+
  have "\<not> isl (newRow ?pf ?cols)"
    by (simp add: newRow_def andThen_def Let_def lookup_def atoi HeadingOsEasting_def
        HeadingOsNorthing_def HeadingWgs84Longitude_def HeadingWgs84Latitude_def)
  then obtain row :: "int Row" where row: "newRow ?pf ?cols = Inr row"
    by (cases "newRow ?pf ?cols") auto
  have "\<not> isl (newLicenceRow_p1 ?pf ?colsB)"
    by (simp add: newLicenceRow_p1_def andThen_def Let_def lookup_def atoi HeadingOsgb36E_def
        HeadingOsgb36N_def HeadingWgs84Long_def HeadingWgs84Lat_def)
  then obtain row1 :: "int LicenceRow_p1" where row1: "newLicenceRow_p1 ?pf ?colsB = Inr row1"
    by (cases "newLicenceRow_p1 ?pf ?colsB") auto
  have "\<not> isl (newLicenceRow_p0 ?pf ?colsA)"
    by (simp add: newLicenceRow_p0_def andThen_def Let_def lookup_def atoi split_beta)
  then obtain row0 :: "int LicenceRow_p0" where row0: "newLicenceRow_p0 ?pf ?colsA = Inr row0"
    by (cases "newLicenceRow_p0 ?pf ?colsA") auto
  from row C3 [where ParseFloat = ?pf and columns = ?cols and row = row]
  have "toMap row HeadingWgs84Longitude = Some ''-1.50''
          \<and> toMap row HeadingWgs84Latitude = Some ''''
          \<and> toMap row HeadingOsEasting = Some ''12''
          \<and> toMap row HeadingOsNorthing = Some ''0''"
    by (simp add: HeadingOsEasting_def HeadingOsNorthing_def HeadingWgs84Longitude_def
        HeadingWgs84Latitude_def atoi itoa)
  moreover from row1 C3 [where ParseFloat = ?pf and columns = ?colsB and ?row1.0 = row1]
  have "toMap_p1 row1 HeadingWgs84Long = Some ''-1.50''
          \<and> toMap_p1 row1 HeadingWgs84Lat = Some ''''
          \<and> toMap_p1 row1 HeadingOsgb36E = Some ''12''
          \<and> toMap_p1 row1 HeadingOsgb36N = Some ''0''"
    by (simp add: HeadingOsgb36E_def HeadingOsgb36N_def HeadingWgs84Long_def
        HeadingWgs84Lat_def atoi itoa)
  moreover from row0 C3 [where ParseFloat = ?pf and columns = ?colsA and ?row0.0 = row0 and Sprintf_f = Itoa]
  have "toMap_p0 Itoa row0 ''WGS84 E'' = Some ''-2''
          \<and> toMap_p0 Itoa row0 ''WGS84 N'' = Some ''0''
          \<and> toMap_p0 Itoa row0 ''OSGB36 E'' = Some ''12''
          \<and> toMap_p0 Itoa row0 ''OSGB36 N'' = Some ''0''"
    by (simp add: atoi itoa Itoa_0)
  ultimately show ?thesis
    using row row1 row0 by blast
qed

section \<open>Facts about slices and filtering\<close>

lemma filters_ok_iff: "filters_ok filterFuncs row \<longleftrightarrow> (\<forall>f \<in> set filterFuncs. f row)"
  by (induction filterFuncs) auto

lemma elems_nth:
  "valid_slice h s \<Longrightarrow> i < len s \<Longrightarrow> elems h s ! i = arrays h (arr s) ! (off s + i)"
  by (simp add: elems_def valid_slice_def)

lemma length_elems: "valid_slice h s \<Longrightarrow> length (elems h s) = len s"
  by (auto simp: elems_def valid_slice_def)

text \<open>Appending in place: there is spare capacity.\<close>

lemma append_slice_in_place:
  assumes "len s < cap s"
  shows "append_slice g h s v =
           (h\<lparr>arrays := (arrays h)(arr s := (arrays h (arr s))[off s + len s := v])\<rparr>,
            s\<lparr>len := Suc (len s)\<rparr>)"
  using assms by (simp add: append_slice_def store_def)

text \<open>Appending never touches another array that exists already.\<close>

lemma append_slice_frame:
  assumes "append_slice g h s v = (h', s')" and "valid_slice h s"
  shows "colls h' = colls h" and "nextColl h' = nextColl h" and "nextArray h \<le> nextArray h'"
    and "\<And>a. a < nextArray h \<Longrightarrow> a \<noteq> arr s \<Longrightarrow> arrays h' a = arrays h a"
    and "arr s' = arr s \<or> nextArray h \<le> arr s'"
  using assms
  by (auto simp: append_slice_def store_def valid_slice_def Let_def split: if_splits)

lemma append_slice_elems:
  assumes "append_slice g h s v = (h', s')" and "valid_slice h s"
  shows "valid_slice h' s'" and "elems h' s' = elems h s @ [v]"
proof -
  show "valid_slice h' s'"
    using assms
    by (auto simp: append_slice_def store_def valid_slice_def Let_def elems_def split: if_splits)
  show "elems h' s' = elems h s @ [v]"
  proof (cases "len s < cap s")
    case True
    let ?A = "arrays h (arr s)"
    from True assms(2) have k: "off s + len s < length ?A"
      by (simp add: valid_slice_def)
    from True assms(1) have "elems h' s' = take (Suc (len s)) (drop (off s) (?A[off s + len s := v]))"
      by (auto simp: append_slice_in_place elems_def)
    also have "\<dots> = take (len s) (drop (off s) ?A) @ [v]"
      using k by (simp add: take_Suc_conv_app_nth drop_update_swap)
    finally show ?thesis by (simp add: elems_def)
  next
    case False
    with assms show ?thesis
      by (auto simp: append_slice_def Let_def elems_def valid_slice_def)
  qed
qed

text \<open>
  The loop of \<^verbatim>\<open>Filter\<close>. The rows kept go to a slice whose array is not older than
  \<open>B\<close>, while the slice read lies below \<open>B\<close>: after \<open>n\<close> rounds the new slice has
  gained the rows among the first \<open>n\<close> that pass, and nothing below \<open>B\<close> has changed.
\<close>

lemma Filter_loop:
  assumes ranged: "valid_slice h0 ranged" "arr ranged < B"
    and dst: "valid_slice h0 d0" "B \<le> arr d0" "B \<le> nextArray h0"
    and n: "n \<le> len ranged"
  shows "case fold (\<lambda>i (h, filteredRows).
                    let row = arrays h (arr ranged) ! (off ranged + i)
                    in if filters_ok filterFuncs row
                       then append_slice growslice h filteredRows row
                       else (h, filteredRows))
              [0..<n] (h0, d0) of
           (h, d) \<Rightarrow>
             valid_slice h d \<and> B \<le> arr d \<and> nextArray h0 \<le> nextArray h
             \<and> (\<forall>a < B. arrays h a = arrays h0 a)
             \<and> colls h = colls h0 \<and> nextColl h = nextColl h0
             \<and> elems h d = elems h0 d0 @ filter (filters_ok filterFuncs) (take n (elems h0 ranged))"
  using n
proof (induction n)
  case 0
  with dst show ?case by simp
next
  case (Suc n)
  let ?step = "\<lambda>i (h, filteredRows).
                    let row = arrays h (arr ranged) ! (off ranged + i)
                    in if filters_ok filterFuncs row
                       then append_slice growslice h filteredRows row
                       else (h, filteredRows)"
  obtain h d where fold: "fold ?step [0..<n] (h0, d0) = (h, d)"
    by (cases "fold ?step [0..<n] (h0, d0)")
  from Suc.prems have n: "n < len ranged" by simp
  with Suc.IH fold have inv: "valid_slice h d" "B \<le> arr d" "nextArray h0 \<le> nextArray h"
    "\<forall>a < B. arrays h a = arrays h0 a" "colls h = colls h0" "nextColl h = nextColl h0"
    "elems h d = elems h0 d0 @ filter (filters_ok filterFuncs) (take n (elems h0 ranged))"
    by simp_all
  let ?row = "arrays h (arr ranged) ! (off ranged + n)"
  have row: "?row = elems h0 ranged ! n"
    using inv(4) ranged n by (simp add: elems_nth)
  have take: "take (Suc n) (elems h0 ranged) = take n (elems h0 ranged) @ [?row]"
    using n ranged(1) by (simp add: take_Suc_conv_app_nth length_elems row)
  have step: "fold ?step [0..<Suc n] (h0, d0) = ?step n (h, d)"
    by (simp add: fold)
  show ?case
  proof (cases "filters_ok filterFuncs ?row")
    case False
    with inv show ?thesis
      unfolding step take by simp
  next
    case True
    obtain h' d' where app: "append_slice growslice h d ?row = (h', d')"
      by (cases "append_slice growslice h d ?row")
    note f = append_slice_frame [OF app inv(1)] and e = append_slice_elems [OF app inv(1)]
    have "B \<le> arr d'"
      using f(5) inv(2,3) dst(3) by auto
    moreover have "\<forall>a < B. arrays h' a = arrays h0 a"
    proof (intro allI impI)
      fix a assume a: "a < B"
      with inv(2,3) dst(3) have "a < nextArray h" "a \<noteq> arr d" by auto
      with f(4) inv(4) a show "arrays h' a = arrays h0 a" by simp
    qed
    ultimately show ?thesis
      unfolding step take using True app e f(1,2,3) inv by simp
  qed
qed

text \<open>
  The loop of \<^verbatim>\<open>FilterInPlace\<close>. The slice written starts where the slice read starts.
  After \<open>n\<close> rounds it holds the \<open>k\<close> rows among the first \<open>n\<close> that pass, with
  \<open>k \<le> n\<close>: every write so far went to an index that had been read before, so the rows
  from index \<open>n\<close> on are still the original ones, and no append ever needed a new array.
\<close>

lemma FilterInPlace_loop:
  assumes ranged: "valid_slice h0 ranged" and n: "n \<le> len ranged"
  shows "case fold (\<lambda>i (h, filteredRows).
                    let row = arrays h (arr ranged) ! (off ranged + i)
                    in if filters_ok filterFuncs row
                       then append_slice growslice h filteredRows row
                       else (h, filteredRows))
              [0..<n] (h0, ranged\<lparr>len := 0\<rparr>) of
           (h, d) \<Rightarrow>
             d = ranged\<lparr>len := length (filter (filters_ok filterFuncs) (take n (elems h0 ranged)))\<rparr>
             \<and> (\<forall>a. a \<noteq> arr ranged \<longrightarrow> arrays h a = arrays h0 a)
             \<and> nextArray h = nextArray h0 \<and> colls h = colls h0 \<and> nextColl h = nextColl h0
             \<and> length (arrays h (arr ranged)) = length (arrays h0 (arr ranged))
             \<and> take (length (filter (filters_ok filterFuncs) (take n (elems h0 ranged))))
                   (drop (off ranged) (arrays h (arr ranged)))
                 = filter (filters_ok filterFuncs) (take n (elems h0 ranged))
             \<and> (\<forall>j \<ge> off ranged + n. arrays h (arr ranged) ! j = arrays h0 (arr ranged) ! j)"
  using n
proof (induction n)
  case 0
  show ?case by simp
next
  case (Suc n)
  let ?step = "\<lambda>i (h, filteredRows).
                    let row = arrays h (arr ranged) ! (off ranged + i)
                    in if filters_ok filterFuncs row
                       then append_slice growslice h filteredRows row
                       else (h, filteredRows)"
  let ?P = "filters_ok filterFuncs"
  let ?E = "elems h0 ranged"
  let ?k = "length (filter ?P (take n ?E))"
  obtain h d where fold: "fold ?step [0..<n] (h0, ranged\<lparr>len := 0\<rparr>) = (h, d)"
    by (cases "fold ?step [0..<n] (h0, ranged\<lparr>len := 0\<rparr>)")
  from Suc.prems have n: "n < len ranged" by simp
  with Suc.IH fold have inv: "d = ranged\<lparr>len := ?k\<rparr>"
    "\<forall>a. a \<noteq> arr ranged \<longrightarrow> arrays h a = arrays h0 a"
    "nextArray h = nextArray h0" "colls h = colls h0" "nextColl h = nextColl h0"
    "length (arrays h (arr ranged)) = length (arrays h0 (arr ranged))"
    "take ?k (drop (off ranged) (arrays h (arr ranged))) = filter ?P (take n ?E)"
    "\<forall>j \<ge> off ranged + n. arrays h (arr ranged) ! j = arrays h0 (arr ranged) ! j"
    by simp_all
  let ?A = "arrays h (arr ranged)"
  let ?row = "?A ! (off ranged + n)"
  have row: "?row = ?E ! n"
    using inv(8) ranged n by (simp add: elems_nth)
  have take: "take (Suc n) ?E = take n ?E @ [?row]"
    using n ranged by (simp add: take_Suc_conv_app_nth length_elems row)
  have step: "fold ?step [0..<Suc n] (h0, ranged\<lparr>len := 0\<rparr>) = ?step n (h, d)"
    by (simp add: fold)
  have k: "?k \<le> n"
    using length_filter_le [of ?P "take n ?E"] by simp
  show ?case
  proof (cases "?P ?row")
    case False
    with inv show ?thesis
      unfolding step take by simp
  next
    case True
    from k n ranged have spare: "len d < cap d"
      by (simp add: inv(1) valid_slice_def)
    from k n ranged inv(6) have room: "off ranged + ?k < length ?A"
      by (simp add: valid_slice_def)
    have app: "append_slice growslice h d ?row =
        (h\<lparr>arrays := (arrays h)(arr ranged := ?A[off ranged + ?k := ?row])\<rparr>,
         ranged\<lparr>len := Suc ?k\<rparr>)"
      using append_slice_in_place [OF spare, of growslice h ?row] by (simp add: inv(1))
    have written: "take (Suc ?k) (drop (off ranged) (?A[off ranged + ?k := ?row]))
                     = filter ?P (take n ?E) @ [?row]"
      using room inv(7) by (simp add: take_Suc_conv_app_nth drop_update_swap)
    have unread: "\<forall>j \<ge> off ranged + Suc n.
                    (?A[off ranged + ?k := ?row]) ! j = arrays h0 (arr ranged) ! j"
      using k inv(8) by simp
    show ?thesis
      unfolding step take
      using True app written unread inv(2,3,4,5,6)
      by (simp del: fun_upd_apply) simp
  qed
qed

text \<open>What \<^verbatim>\<open>Filter\<close> and \<^verbatim>\<open>FilterInPlace\<close> return.\<close>

lemma Filter_result:
  assumes valid: "valid_coll h c" and run: "Filter growslice h c filterFuncs = (h', p)"
  shows "p = nextColl h"
    and "Header (colls h' p) = Header (colls h c)"
    and "elems h' (Rows (colls h' p)) = filter (filters_ok filterFuncs) (elems h (Rows (colls h c)))"
    and "valid_slice h' (Rows (colls h' p))"
    and "nextArray h \<le> arr (Rows (colls h' p))"
    and "\<forall>a < nextArray h. arrays h' a = arrays h a"
    and "\<forall>q < nextColl h. colls h' q = colls h q"
    and "nextColl h' = Suc (nextColl h)"
    and "nextArray h \<le> nextArray h'"
proof -
  let ?ranged = "Rows (colls h c)"
  let ?h0 = "h\<lparr>arrays := (arrays h)(nextArray h := replicate 0 None), nextArray := Suc (nextArray h)\<rparr>"
  let ?d0 = "\<lparr>arr = nextArray h, off = 0, len = 0, cap = 0\<rparr>"
  let ?step = "\<lambda>i (h, filteredRows).
                    let row = arrays h (arr ?ranged) ! (off ?ranged + i)
                    in if filters_ok filterFuncs row
                       then append_slice growslice h filteredRows row
                       else (h, filteredRows)"
  from valid have r: "arr ?ranged < nextArray h" "valid_slice h ?ranged"
    by (simp_all add: valid_coll_def valid_slice_def)
  then have r0: "valid_slice ?h0 ?ranged"
    by (simp add: valid_slice_def)
  have d0: "valid_slice ?h0 ?d0" "nextArray h \<le> arr ?d0" "nextArray h \<le> nextArray ?h0"
    by (simp_all add: valid_slice_def)
  obtain h1 d where fold: "fold ?step [0..<len ?ranged] (?h0, ?d0) = (h1, d)"
    by (cases "fold ?step [0..<len ?ranged] (?h0, ?d0)")
  from Filter_loop [OF r0 r(1) d0 le_refl, of filterFuncs growslice] fold
  have inv: "valid_slice h1 d" "nextArray h \<le> arr d"
    "\<forall>a < nextArray h. arrays h1 a = arrays ?h0 a" "colls h1 = colls h" "nextColl h1 = nextColl h"
    "elems h1 d = elems ?h0 ?d0 @ filter (filters_ok filterFuncs) (take (len ?ranged) (elems ?h0 ?ranged))"
    "nextArray h \<le> nextArray h1"
    by simp_all
  have e0: "elems ?h0 ?d0 = []" "elems ?h0 ?ranged = elems h ?ranged"
    using r(1) by (simp_all add: elems_def)
  have full: "take (len ?ranged) (elems h ?ranged) = elems h ?ranged"
    using length_elems [OF r(2)] by simp
  from run fold have res: "h' = h1\<lparr>colls := (colls h1)(nextColl h1 := \<lparr>Header = Header (colls h c), Rows = d\<rparr>),
                                  nextColl := Suc (nextColl h1)\<rparr>" "p = nextColl h1"
    by (auto simp: Filter_def make_slice_def new_coll_def Let_def)
  show "p = nextColl h" by (simp add: res inv)
  show "Header (colls h' p) = Header (colls h c)" by (simp add: res)
  have "elems h' (Rows (colls h' p)) = elems h1 d"
    by (simp add: res elems_def)
  also have "\<dots> = filter (filters_ok filterFuncs) (elems h (Rows (colls h c)))"
    using inv(6) by (simp only: e0 full append_Nil)
  finally show "elems h' (Rows (colls h' p))
                  = filter (filters_ok filterFuncs) (elems h (Rows (colls h c)))" .
  show "valid_slice h' (Rows (colls h' p))"
    using inv(1) by (simp add: res valid_slice_def)
  show "nextArray h \<le> arr (Rows (colls h' p))"
    using inv(2) by (simp add: res)
  show "\<forall>a < nextArray h. arrays h' a = arrays h a"
    using inv(3) by (simp add: res)
  show "\<forall>q < nextColl h. colls h' q = colls h q"
    by (simp add: res inv)
  show "nextColl h' = Suc (nextColl h)"
    by (simp add: res inv)
  show "nextArray h \<le> nextArray h'"
    using inv(7) by (simp add: res)
qed

lemma FilterInPlace_result:
  assumes valid: "valid_coll h c" and run: "FilterInPlace growslice h c filterFuncs = (h', q)"
  shows "q = c"
    and "Header (colls h' c) = Header (colls h c)"
    and "Rows (colls h' c) = (Rows (colls h c))
           \<lparr>len := length (filter (filters_ok filterFuncs) (elems h (Rows (colls h c))))\<rparr>"
    and "elems h' (Rows (colls h' c)) = filter (filters_ok filterFuncs) (elems h (Rows (colls h c)))"
    and "\<forall>a. a \<noteq> arr (Rows (colls h c)) \<longrightarrow> arrays h' a = arrays h a"
    and "\<forall>p. p \<noteq> c \<longrightarrow> colls h' p = colls h p"
    and "nextArray h' = nextArray h" and "nextColl h' = nextColl h"
proof -
  let ?ranged = "Rows (colls h c)"
  let ?sel = "filter (filters_ok filterFuncs) (elems h ?ranged)"
  let ?step = "\<lambda>i (h, filteredRows).
                    let row = arrays h (arr ?ranged) ! (off ?ranged + i)
                    in if filters_ok filterFuncs row
                       then append_slice growslice h filteredRows row
                       else (h, filteredRows)"
  from valid have r: "valid_slice h ?ranged"
    by (simp add: valid_coll_def)
  obtain h1 d where fold: "fold ?step [0..<len ?ranged] (h, ?ranged\<lparr>len := 0\<rparr>) = (h1, d)"
    by (cases "fold ?step [0..<len ?ranged] (h, ?ranged\<lparr>len := 0\<rparr>)")
  have full: "take (len ?ranged) (elems h ?ranged) = elems h ?ranged"
    using length_elems [OF r] by simp
  from FilterInPlace_loop [OF r le_refl, of filterFuncs growslice] fold
  have inv: "d = ?ranged\<lparr>len := length ?sel\<rparr>"
    "\<forall>a. a \<noteq> arr ?ranged \<longrightarrow> arrays h1 a = arrays h a"
    "nextArray h1 = nextArray h" "colls h1 = colls h" "nextColl h1 = nextColl h"
    "take (length ?sel) (drop (off ?ranged) (arrays h1 (arr ?ranged))) = ?sel"
    by (simp_all add: full)
  from run fold have res: "h' = h1\<lparr>colls := (colls h1)(c := (colls h1 c)\<lparr>Rows := d\<rparr>)\<rparr>" "q = c"
    by (auto simp: FilterInPlace_def Let_def)
  show "q = c" by (rule res)
  show "Header (colls h' c) = Header (colls h c)" by (simp add: res inv)
  show "Rows (colls h' c) = ?ranged\<lparr>len := length ?sel\<rparr>" by (simp add: res inv)
  show "elems h' (Rows (colls h' c)) = ?sel"
    using inv(6) by (simp add: res inv(1) elems_def)
  show "\<forall>a. a \<noteq> arr ?ranged \<longrightarrow> arrays h' a = arrays h a"
    using inv(2) by (simp add: res)
  show "\<forall>p. p \<noteq> c \<longrightarrow> colls h' p = colls h p" by (simp add: res inv)
  show "nextArray h' = nextArray h" by (simp add: res inv)
  show "nextColl h' = nextColl h" by (simp add: res inv)
qed

text \<open>
  The loop of part_000 stops at the first row that a filter function refuses: it keeps
  the longest run of leading rows that all pass.
\<close>

lemma Loop_p0_fresh:
  assumes ranged: "valid_slice h0 ranged" "arr ranged < B"
    and dst: "valid_slice h d" "B \<le> arr d" "B \<le> nextArray h"
    and same: "\<forall>a < B. arrays h a = arrays h0 a"
    and i: "i \<le> m" "m \<le> len ranged"
  shows "case Loop_p0 growslice filterFuncs ranged [i..<m] (h, d) of
           (h', d') \<Rightarrow>
             valid_slice h' d' \<and> B \<le> arr d'
             \<and> (\<forall>a < B. arrays h' a = arrays h0 a)
             \<and> colls h' = colls h \<and> nextColl h' = nextColl h \<and> nextArray h \<le> nextArray h'
             \<and> elems h' d' = elems h d
                   @ takeWhile (filters_ok filterFuncs) (drop i (take m (elems h0 ranged)))"
  using dst same i
proof (induction "m - i" arbitrary: i h d)
  case 0
  then show ?case by simp
next
  case (Suc k)
  from Suc.hyps(2) Suc.prems(5,6) have i: "i < m" "i < len ranged" by simp_all
  let ?row = "arrays h (arr ranged) ! (off ranged + i)"
  have row: "?row = elems h0 ranged ! i"
    using Suc.prems(4) ranged i by (simp add: elems_nth)
  have upt: "[i..<m] = i # [Suc i..<m]"
    using i by (simp add: upt_conv_Cons)
  have "i < length (take m (elems h0 ranged))"
    using i ranged(1) by (simp add: length_elems)
  from Cons_nth_drop_Suc [OF this, symmetric]
  have drop: "drop i (take m (elems h0 ranged)) = ?row # drop (Suc i) (take m (elems h0 ranged))"
    using i by (simp add: row)
  show ?case
  proof (cases "filters_ok filterFuncs ?row")
    case False
    with Suc.prems show ?thesis
      unfolding upt drop by simp
  next
    case True
    obtain h1 d1 where app: "append_slice growslice h d ?row = (h1, d1)"
      by (cases "append_slice growslice h d ?row")
    note f = append_slice_frame [OF app Suc.prems(1)] and e = append_slice_elems [OF app Suc.prems(1)]
    have B: "B \<le> arr d1" "B \<le> nextArray h1"
      using f(3,5) Suc.prems(2,3) by auto
    have same1: "\<forall>a < B. arrays h1 a = arrays h0 a"
    proof (intro allI impI)
      fix a assume a: "a < B"
      with Suc.prems(2,3) have "a < nextArray h" "a \<noteq> arr d" by auto
      with f(4) Suc.prems(4) a show "arrays h1 a = arrays h0 a" by simp
    qed
    from Suc.hyps(2) have k: "k = m - Suc i" by simp
    from i have "Suc i \<le> m" by simp
    from Suc.hyps(1) [OF k e(1) B same1 this Suc.prems(6)]
    show ?thesis
      unfolding upt drop using True app e(2) f(1,2,3)
      by (auto simp: split_beta)
  qed
qed

lemma Loop_p0_in_place:
  assumes ranged: "valid_slice h ranged" and i: "i \<le> m" "m \<le> len ranged"
  shows "Loop_p0 growslice filterFuncs ranged [i..<m] (h, ranged\<lparr>len := i\<rparr>)
           = (h, ranged\<lparr>len := i + length (takeWhile (filters_ok filterFuncs)
                                              (drop i (take m (elems h ranged))))\<rparr>)"
  using i
proof (induction "m - i" arbitrary: i)
  case 0
  then show ?case by simp
next
  case (Suc k)
  from Suc.hyps(2) Suc.prems have i: "i < m" "i < len ranged" by simp_all
  let ?A = "arrays h (arr ranged)"
  let ?row = "?A ! (off ranged + i)"
  have row: "?row = elems h ranged ! i"
    using ranged i by (simp add: elems_nth)
  have upt: "[i..<m] = i # [Suc i..<m]"
    using i by (simp add: upt_conv_Cons)
  have "i < length (take m (elems h ranged))"
    using i ranged by (simp add: length_elems)
  from Cons_nth_drop_Suc [OF this, symmetric]
  have drop: "drop i (take m (elems h ranged)) = ?row # drop (Suc i) (take m (elems h ranged))"
    using i by (simp add: row)
  show ?case
  proof (cases "filters_ok filterFuncs ?row")
    case False
    then show ?thesis
      unfolding upt drop by simp
  next
    case True
    from i ranged have spare: "len (ranged\<lparr>len := i\<rparr>) < cap (ranged\<lparr>len := i\<rparr>)"
      by (simp add: valid_slice_def)
    have "h\<lparr>arrays := (arrays h)(arr ranged := ?A[off ranged + i := ?row])\<rparr> = h"
      by simp
    then have app: "append_slice growslice h (ranged\<lparr>len := i\<rparr>) ?row = (h, ranged\<lparr>len := Suc i\<rparr>)"
      using append_slice_in_place [OF spare, of growslice h ?row] by simp
    from Suc.hyps(2) have k: "k = m - Suc i" by simp
    from i have "Suc i \<le> m" by simp
    from Suc.hyps(1) [OF k this Suc.prems(2)]
    show ?thesis
      unfolding upt drop using True app by simp
  qed
qed

lemma Filter_p0_result:
  assumes valid: "valid_coll h lc" and run: "Filter_p0 growslice h lc filterFuncs = (h', p)"
  shows "p = nextColl h"
    and "Header (colls h' p) = Header (colls h lc)"
    and "elems h' (Rows (colls h' p))
           = takeWhile (filters_ok filterFuncs) (elems h (Rows (colls h lc)))"
    and "valid_slice h' (Rows (colls h' p))"
    and "nextArray h \<le> arr (Rows (colls h' p))"
    and "\<forall>a < nextArray h. arrays h' a = arrays h a"
    and "\<forall>q < nextColl h. colls h' q = colls h q"
    and "nextColl h' = Suc (nextColl h)"
    and "nextArray h \<le> nextArray h'"
proof -
  let ?ranged = "Rows (colls h lc)"
  let ?h0 = "h\<lparr>arrays := (arrays h)(nextArray h := replicate 0 None), nextArray := Suc (nextArray h)\<rparr>"
  let ?d0 = "\<lparr>arr = nextArray h, off = 0, len = 0, cap = 0\<rparr>"
  from valid have r: "arr ?ranged < nextArray h" "valid_slice h ?ranged"
    by (simp_all add: valid_coll_def valid_slice_def)
  then have r0: "valid_slice ?h0 ?ranged"
    by (simp add: valid_slice_def)
  have d0: "valid_slice ?h0 ?d0" "nextArray h \<le> arr ?d0" "nextArray h \<le> nextArray ?h0"
    by (simp_all add: valid_slice_def)
  obtain h1 d where loop: "Loop_p0 growslice filterFuncs ?ranged [0..<len ?ranged] (?h0, ?d0) = (h1, d)"
    by (cases "Loop_p0 growslice filterFuncs ?ranged [0..<len ?ranged] (?h0, ?d0)")
  have same: "\<forall>a < nextArray h. arrays ?h0 a = arrays ?h0 a" by simp
  from Loop_p0_fresh [OF r0 r(1) d0 same le0 le_refl, where growslice = growslice
      and filterFuncs = filterFuncs] loop
  have inv: "valid_slice h1 d" "nextArray h \<le> arr d"
    "\<forall>a < nextArray h. arrays h1 a = arrays ?h0 a" "colls h1 = colls h" "nextColl h1 = nextColl h"
    "elems h1 d = elems ?h0 ?d0 @ takeWhile (filters_ok filterFuncs)
                                     (drop 0 (take (len ?ranged) (elems ?h0 ?ranged)))"
    "nextArray h \<le> nextArray h1"
    by simp_all
  have e0: "elems ?h0 ?d0 = []" "elems ?h0 ?ranged = elems h ?ranged"
    using r(1) by (simp_all add: elems_def)
  have full: "take (len ?ranged) (elems h ?ranged) = elems h ?ranged"
    using length_elems [OF r(2)] by simp
  from run loop have res: "h' = h1\<lparr>colls := (colls h1)(nextColl h1 := \<lparr>Header = Header (colls h lc), Rows = d\<rparr>),
                                  nextColl := Suc (nextColl h1)\<rparr>" "p = nextColl h1"
    by (auto simp: Filter_p0_def make_slice_def new_coll_def Let_def)
  show "p = nextColl h" by (simp add: res inv)
  show "Header (colls h' p) = Header (colls h lc)" by (simp add: res)
  have "elems h' (Rows (colls h' p)) = elems h1 d"
    by (simp add: res elems_def)
  also have "\<dots> = takeWhile (filters_ok filterFuncs) (elems h (Rows (colls h lc)))"
    using inv(6) by (simp only: e0 full append_Nil drop_0)
  finally show "elems h' (Rows (colls h' p))
                  = takeWhile (filters_ok filterFuncs) (elems h (Rows (colls h lc)))" .
  show "valid_slice h' (Rows (colls h' p))"
    using inv(1) by (simp add: res valid_slice_def)
  show "nextArray h \<le> arr (Rows (colls h' p))"
    using inv(2) by (simp add: res)
  show "\<forall>a < nextArray h. arrays h' a = arrays h a"
    using inv(3) by (simp add: res)
  show "\<forall>q < nextColl h. colls h' q = colls h q"
    by (simp add: res inv)
  show "nextColl h' = Suc (nextColl h)"
    by (simp add: res inv)
  show "nextArray h \<le> nextArray h'"
    using inv(7) by (simp add: res)
qed

lemma FilterInPlace_p0_result:
  assumes valid: "valid_coll h lc" and run: "FilterInPlace_p0 growslice h lc filterFuncs = (h', q)"
  shows "q = lc"
    and "Header (colls h' lc) = Header (colls h lc)"
    and "Rows (colls h' lc) = (Rows (colls h lc))
           \<lparr>len := length (takeWhile (filters_ok filterFuncs) (elems h (Rows (colls h lc))))\<rparr>"
    and "elems h' (Rows (colls h' lc))
           = takeWhile (filters_ok filterFuncs) (elems h (Rows (colls h lc)))"
    and "arrays h' = arrays h"
    and "\<forall>p. p \<noteq> lc \<longrightarrow> colls h' p = colls h p"
    and "nextArray h' = nextArray h" and "nextColl h' = nextColl h"
proof -
  let ?ranged = "Rows (colls h lc)"
  let ?sel = "takeWhile (filters_ok filterFuncs) (elems h ?ranged)"
  from valid have r: "valid_slice h ?ranged"
    by (simp add: valid_coll_def)
  have full: "take (len ?ranged) (elems h ?ranged) = elems h ?ranged"
    using length_elems [OF r] by simp
  from Loop_p0_in_place [OF r le0 le_refl, where growslice = growslice
      and filterFuncs = filterFuncs]
  have loop: "Loop_p0 growslice filterFuncs ?ranged [0..<len ?ranged] (h, ?ranged\<lparr>len := 0\<rparr>)
                = (h, ?ranged\<lparr>len := length ?sel\<rparr>)"
    by (simp add: full)
  from run loop have res: "h' = h\<lparr>colls := (colls h)(lc := (colls h lc)\<lparr>Rows := ?ranged\<lparr>len := length ?sel\<rparr>\<rparr>)\<rparr>"
    "q = lc"
    by (auto simp: FilterInPlace_p0_def Let_def)
  show "q = lc" by (rule res)
  show "Header (colls h' lc) = Header (colls h lc)" by (simp add: res)
  show "Rows (colls h' lc) = ?ranged\<lparr>len := length ?sel\<rparr>" by (simp add: res)
  have "take (length ?sel) (elems h ?ranged) = ?sel"
    by (rule takeWhile_eq_take [symmetric])
  moreover have "length ?sel \<le> len ?ranged"
    using length_takeWhile_le [of "filters_ok filterFuncs" "elems h ?ranged"] length_elems [OF r]
    by simp
  ultimately show "elems h' (Rows (colls h' lc)) = ?sel"
    by (simp add: res elems_def min_absorb2)
  show "arrays h' = arrays h" by (simp add: res)
  show "\<forall>p. p \<noteq> lc \<longrightarrow> colls h' p = colls h p" by (simp add: res)
  show "nextArray h' = nextArray h" by (simp add: res)
  show "nextColl h' = nextColl h" by (simp add: res)
qed

section \<open>The claims about filtering\<close>

lemma valid_one_collection: "valid_coll (one_collection header rows) 0"
  by (simp add: valid_coll_def valid_slice_def one_collection_def)

lemma elems_one_collection:
  "elems (one_collection header rows) (Rows (colls (one_collection header rows) 0)) = rows"
  by (simp add: elems_def one_collection_def)

text \<open>
  \<^verbatim>\<open>Filter\<close> of wtrcsv.go and part_001 does what C1 says: the new Collection has the
  receiver's header and exactly the receiver's rows that every filter function accepts,
  in their order; without filter functions these are all the rows.
\<close>

lemma Filter_selects:
  assumes "valid_coll h collection"
    and "Filter growslice h collection filterFuncs = (h', filtered)"
  shows "Header (colls h' filtered) = Header (colls h collection)"
    and "elems h' (Rows (colls h' filtered))
           = filter (\<lambda>row. \<forall>f \<in> set filterFuncs. f row) (elems h (Rows (colls h collection)))"
  using Filter_result(2,3) [OF assms] by (simp_all add: filters_ok_iff [abs_def])

lemma Filter_no_filters:
  assumes "valid_coll h collection" and "Filter growslice h collection [] = (h', filtered)"
  shows "elems h' (Rows (colls h' filtered)) = elems h (Rows (colls h collection))"
  using Filter_selects(2) [OF assms] by simp

text \<open>
  C1 fails for \<^verbatim>\<open>Filter\<close> of part_000. On a Collection of two rows and a filter function
  that refuses the first row and accepts the second, it returns no row at all: the walk
  ends at the first refusal. \<^verbatim>\<open>Filter\<close> of wtrcsv.go returns the second row there.
\<close>

theorem C1_Filter_p0_stops_at_first_refusal:
  "(case Filter_p0 growslice (one_collection [''NGR''] [Some (5::nat), Some 6]) 0
          [\<lambda>row. row = Some 6] of
      (h', filtered) \<Rightarrow> elems h' (Rows (colls h' filtered))) = []
   \<and> (case Filter growslice (one_collection [''NGR''] [Some (5::nat), Some 6]) 0
          [\<lambda>row. row = Some 6] of
      (h', filtered) \<Rightarrow> elems h' (Rows (colls h' filtered))) = [Some 6]"
proof -
  let ?h = "one_collection [''NGR''] [Some (5::nat), Some 6]"
  let ?fs = "[\<lambda>row. row = Some (6::nat)]"
  obtain h0 p0 where p0: "Filter_p0 growslice ?h 0 ?fs = (h0, p0)"
    by (cases "Filter_p0 growslice ?h 0 ?fs")
  obtain h3 p3 where p3: "Filter growslice ?h 0 ?fs = (h3, p3)"
    by (cases "Filter growslice ?h 0 ?fs")
  from Filter_p0_result(3) [OF valid_one_collection p0]
  have "elems h0 (Rows (colls h0 p0)) = []"
    by (simp add: elems_one_collection)
  moreover from Filter_result(3) [OF valid_one_collection p3]
  have "elems h3 (Rows (colls h3 p3)) = [Some 6]"
    by (simp add: elems_one_collection)
  ultimately show ?thesis
    unfolding p0 p3 by simp
qed

text \<open>
  C4. \<^verbatim>\<open>Filter\<close> leaves the receiver as it was: the Collection object (header and row
  slice), every array and every Collection that existed before the call are unchanged,
  so the receiver still has the same rows; the result is another object, and it has at
  most as many rows as the receiver.
\<close>

theorem C4_Filter_leaves_receiver:
  assumes "valid_coll h collection"
    and "Filter growslice h collection filterFuncs = (h', filtered)"
  shows "colls h' collection = colls h collection
       \<and> elems h' (Rows (colls h' collection)) = elems h (Rows (colls h collection))
       \<and> (\<forall>a < nextArray h. arrays h' a = arrays h a)
       \<and> (\<forall>c < nextColl h. colls h' c = colls h c)
       \<and> filtered \<noteq> collection
       \<and> length (elems h' (Rows (colls h' filtered)))
           \<le> length (elems h (Rows (colls h collection)))"
proof -
  note r = Filter_result [OF assms]
  from assms(1) have c: "collection < nextColl h" "arr (Rows (colls h collection)) < nextArray h"
    by (simp_all add: valid_coll_def valid_slice_def)
  from c(1) r(7) have same: "colls h' collection = colls h collection" by simp
  from c(2) r(6) have "arrays h' (arr (Rows (colls h collection))) = arrays h (arr (Rows (colls h collection)))"
    by simp
  with same have "elems h' (Rows (colls h' collection)) = elems h (Rows (colls h collection))"
    by (simp add: elems_def)
  moreover from r(1) c(1) have "filtered \<noteq> collection" by simp
  moreover have "length (elems h' (Rows (colls h' filtered)))
           \<le> length (elems h (Rows (colls h collection)))"
    by (simp add: r(3))
  ultimately show ?thesis
    using same r(6,7) by simp
qed

theorem C4_Filter_leaves_receiver_witness:
  "valid_coll (one_collection [''NGR''] [Some (5::nat), Some 6, Some 7]) 0
   \<and> (\<exists>h' filtered.
         Filter (\<lambda>c. 2 * c) (one_collection [''NGR''] [Some (5::nat), Some 6, Some 7]) 0
           [\<lambda>row. row \<noteq> Some 6] = (h', filtered)
         \<and> colls h' 0 = colls (one_collection [''NGR''] [Some (5::nat), Some 6, Some 7]) 0
         \<and> elems h' (Rows (colls h' 0)) = [Some (5::nat), Some 6, Some 7]
         \<and> filtered \<noteq> 0
         \<and> length (elems h' (Rows (colls h' filtered))) \<le> 3)"
proof -
  let ?h = "one_collection [''NGR''] [Some (5::nat), Some 6, Some 7]"
  obtain h' filtered where run: "Filter (\<lambda>c. 2 * c) ?h 0 [\<lambda>row. row \<noteq> Some 6] = (h', filtered)"
    by (cases "Filter (\<lambda>c. 2 * c) ?h 0 [\<lambda>row. row \<noteq> Some 6]")
  note C4 = C4_Filter_leaves_receiver [OF valid_one_collection run, unfolded elems_one_collection]
  from C4 have 1: "colls h' 0 = colls ?h 0" by blast
  from C4 have 2: "elems h' (Rows (colls h' 0)) = [Some 5, Some 6, Some 7]" by blast
  from C4 have 3: "filtered \<noteq> 0" by blast
  from C4 have "length (elems h' (Rows (colls h' filtered))) \<le> length [Some (5::nat), Some 6, Some 7]"
    by blast
  then have 4: "length (elems h' (Rows (colls h' filtered))) \<le> 3" by simp
  from valid_one_collection run 1 2 3 4 show ?thesis
    by blast
qed

text \<open>
  After \<^verbatim>\<open>Filter\<close> the receiver is still a valid Collection of the new heap, and the
  rows of the result lie in another array than the receiver's.
\<close>

lemma Filter_keeps_receiver_valid:
  assumes "valid_coll h c" and "Filter growslice h c filterFuncs = (h', p)"
  shows "valid_coll h' c" and "p \<noteq> c"
    and "arr (Rows (colls h' p)) \<noteq> arr (Rows (colls h' c))"
proof -
  note r = Filter_result [OF assms]
  from assms(1) have c: "c < nextColl h" "arr (Rows (colls h c)) < nextArray h"
    "valid_slice h (Rows (colls h c))"
    by (simp_all add: valid_coll_def valid_slice_def)
  from c(1) r(7) have same: "colls h' c = colls h c" by simp
  from c(2) r(6) have arr: "arrays h' (arr (Rows (colls h c))) = arrays h (arr (Rows (colls h c)))"
    by simp
  from c r(8,9) show "valid_coll h' c"
    by (simp add: valid_coll_def valid_slice_def same arr)
  from r(1) c(1) show "p \<noteq> c" by simp
  from r(5) c(2) show "arr (Rows (colls h' p)) \<noteq> arr (Rows (colls h' c))"
    by (simp add: same)
qed

lemma Filter_p0_keeps_receiver_valid:
  assumes "valid_coll h c" and "Filter_p0 growslice h c filterFuncs = (h', p)"
  shows "valid_coll h' c" and "p \<noteq> c"
proof -
  note r = Filter_p0_result [OF assms]
  from assms(1) have c: "c < nextColl h" "arr (Rows (colls h c)) < nextArray h"
    "valid_slice h (Rows (colls h c))"
    by (simp_all add: valid_coll_def valid_slice_def)
  from c(1) r(7) have same: "colls h' c = colls h c" by simp
  from c(2) r(6) have arr: "arrays h' (arr (Rows (colls h c))) = arrays h (arr (Rows (colls h c)))"
    by simp
  from c r(8,9) show "valid_coll h' c"
    by (simp add: valid_coll_def valid_slice_def same arr)
  from r(1) c(1) show "p \<noteq> c" by simp
qed

text \<open>
  C5. In each revision \<^verbatim>\<open>FilterInPlace\<close> selects the rows that \<^verbatim>\<open>Filter\<close> of the same
  revision selects from the same Collection, returns the receiver, and leaves the
  selected rows in the receiver's own storage: the row slice keeps its array, offset and
  capacity, and its length is the number of rows selected. A Collection that \<^verbatim>\<open>Filter\<close>
  made from the receiver before is another object with rows in another array, and a
  later \<^verbatim>\<open>FilterInPlace\<close> on the receiver changes neither its header nor its rows.
  Stated for wtrcsv.go (and part_001, which has the same code) and for part_000.
\<close>

theorem C5_FilterInPlace_selects_as_Filter:
  "(valid_coll h c \<longrightarrow>
      (FilterInPlace growslice h c filterFuncs = (hI, q) \<and> Filter growslice h c filterFuncs = (hF, p) \<longrightarrow>
         q = c
         \<and> elems hI (Rows (colls hI c)) = elems hF (Rows (colls hF p))
         \<and> Header (colls hI c) = Header (colls h c)
         \<and> Rows (colls hI c) = (Rows (colls h c))\<lparr>len := length (elems hF (Rows (colls hF p)))\<rparr>)
      \<and> (Filter growslice h c filterFuncs = (hF, p) \<and> FilterInPlace growslice hF c otherFuncs = (h2, q2) \<longrightarrow>
         p \<noteq> c \<and> colls h2 p = colls hF p
         \<and> elems h2 (Rows (colls h2 p)) = elems hF (Rows (colls hF p))))
   \<and> (valid_coll h c \<longrightarrow>
      (FilterInPlace_p0 growslice h c filterFuncs = (hI0, q0) \<and> Filter_p0 growslice h c filterFuncs = (hF0, p0) \<longrightarrow>
         q0 = c
         \<and> elems hI0 (Rows (colls hI0 c)) = elems hF0 (Rows (colls hF0 p0))
         \<and> Header (colls hI0 c) = Header (colls h c)
         \<and> Rows (colls hI0 c) = (Rows (colls h c))\<lparr>len := length (elems hF0 (Rows (colls hF0 p0)))\<rparr>)
      \<and> (Filter_p0 growslice h c filterFuncs = (hF0, p0) \<and> FilterInPlace_p0 growslice hF0 c otherFuncs = (h20, q20) \<longrightarrow>
         p0 \<noteq> c \<and> colls h20 p0 = colls hF0 p0
         \<and> elems h20 (Rows (colls h20 p0)) = elems hF0 (Rows (colls hF0 p0))))"
proof (intro conjI impI; elim conjE)
  assume v: "valid_coll h c"
    and i: "FilterInPlace growslice h c filterFuncs = (hI, q)"
    and f: "Filter growslice h c filterFuncs = (hF, p)"
  note ri = FilterInPlace_result [OF v i] and rf = Filter_result [OF v f]
  show "q = c" by (rule ri(1))
  show "elems hI (Rows (colls hI c)) = elems hF (Rows (colls hF p))"
    by (simp add: ri(4) rf(3))
  show "Header (colls hI c) = Header (colls h c)" by (rule ri(2))
  show "Rows (colls hI c) = (Rows (colls h c))\<lparr>len := length (elems hF (Rows (colls hF p)))\<rparr>"
    by (simp add: ri(3) rf(3))
next
  assume v: "valid_coll h c"
    and f: "Filter growslice h c filterFuncs = (hF, p)"
    and i: "FilterInPlace growslice hF c otherFuncs = (h2, q2)"
  note k = Filter_keeps_receiver_valid [OF v f]
  note ri = FilterInPlace_result [OF k(1) i]
  show "p \<noteq> c" by (rule k(2))
  from ri(6) k(2) show same: "colls h2 p = colls hF p" by simp
  from ri(5) k(3) have "arrays h2 (arr (Rows (colls hF p))) = arrays hF (arr (Rows (colls hF p)))"
    by simp
  with same show "elems h2 (Rows (colls h2 p)) = elems hF (Rows (colls hF p))"
    by (simp add: elems_def)
next
  assume v: "valid_coll h c"
    and i: "FilterInPlace_p0 growslice h c filterFuncs = (hI0, q0)"
    and f: "Filter_p0 growslice h c filterFuncs = (hF0, p0)"
  note ri = FilterInPlace_p0_result [OF v i] and rf = Filter_p0_result [OF v f]
  show "q0 = c" by (rule ri(1))
  show "elems hI0 (Rows (colls hI0 c)) = elems hF0 (Rows (colls hF0 p0))"
    by (simp add: ri(4) rf(3))
  show "Header (colls hI0 c) = Header (colls h c)" by (rule ri(2))
  show "Rows (colls hI0 c) = (Rows (colls h c))\<lparr>len := length (elems hF0 (Rows (colls hF0 p0)))\<rparr>"
    by (simp add: ri(3) rf(3))
next
  assume v: "valid_coll h c"
    and f: "Filter_p0 growslice h c filterFuncs = (hF0, p0)"
    and i: "FilterInPlace_p0 growslice hF0 c otherFuncs = (h20, q20)"
  note k = Filter_p0_keeps_receiver_valid [OF v f]
  note ri = FilterInPlace_p0_result [OF k(1) i]
  show "p0 \<noteq> c" by (rule k(2))
  from ri(6) k(2) show same: "colls h20 p0 = colls hF0 p0" by simp
  with ri(5) show "elems h20 (Rows (colls h20 p0)) = elems hF0 (Rows (colls hF0 p0))"
    by (simp add: elems_def)
qed

theorem C5_FilterInPlace_selects_as_Filter_witness:
  "valid_coll (one_collection [''NGR''] [Some (5::nat), Some 6, Some 7]) 0
   \<and> (\<exists>hI q hF p.
         FilterInPlace (\<lambda>c. 2 * c) (one_collection [''NGR''] [Some (5::nat), Some 6, Some 7]) 0
           [\<lambda>row. row \<noteq> Some 6] = (hI, q)
         \<and> Filter (\<lambda>c. 2 * c) (one_collection [''NGR''] [Some (5::nat), Some 6, Some 7]) 0
           [\<lambda>row. row \<noteq> Some 6] = (hF, p)
         \<and> q = 0
         \<and> elems hI (Rows (colls hI 0)) = elems hF (Rows (colls hF p))
         \<and> elems hF (Rows (colls hF p)) = [Some 5, Some 7])
   \<and> (\<exists>hF p h2 q2.
         Filter (\<lambda>c. 2 * c) (one_collection [''NGR''] [Some (5::nat), Some 6, Some 7]) 0
           [\<lambda>row. row \<noteq> Some 6] = (hF, p)
         \<and> FilterInPlace (\<lambda>c. 2 * c) hF 0 [\<lambda>row. row = Some 6] = (h2, q2)
         \<and> p \<noteq> 0
         \<and> elems h2 (Rows (colls h2 p)) = elems hF (Rows (colls hF p)))
   \<and> (\<exists>hI q hF p.
         FilterInPlace_p0 (\<lambda>c. 2 * c) (one_collection [''NGR''] [Some (5::nat), Some 6, Some 7]) 0
           [\<lambda>row. row \<noteq> Some 6] = (hI, q)
         \<and> Filter_p0 (\<lambda>c. 2 * c) (one_collection [''NGR''] [Some (5::nat), Some 6, Some 7]) 0
           [\<lambda>row. row \<noteq> Some 6] = (hF, p)
         \<and> q = 0
         \<and> elems hI (Rows (colls hI 0)) = elems hF (Rows (colls hF p))
         \<and> elems hF (Rows (colls hF p)) = [Some 5])
   \<and> (\<exists>hF p h2 q2.
         Filter_p0 (\<lambda>c. 2 * c) (one_collection [''NGR''] [Some (5::nat), Some 6, Some 7]) 0
           [\<lambda>row. row \<noteq> Some 6] = (hF, p)
         \<and> FilterInPlace_p0 (\<lambda>c. 2 * c) hF 0 [\<lambda>row. row = Some 6] = (h2, q2)
         \<and> p \<noteq> 0
         \<and> elems h2 (Rows (colls h2 p)) = elems hF (Rows (colls hF p)))"
proof -
  let ?h = "one_collection [''NGR''] [Some (5::nat), Some 6, Some 7]"
  let ?g = "\<lambda>c::nat. 2 * c"
  let ?fs = "[\<lambda>row. row \<noteq> Some (6::nat)]"
  let ?gs = "[\<lambda>row. row = Some (6::nat)]"
  note v = valid_one_collection [of "[''NGR'']" "[Some (5::nat), Some 6, Some 7]"]
  obtain hI q where i: "FilterInPlace ?g ?h 0 ?fs = (hI, q)"
    by (cases "FilterInPlace ?g ?h 0 ?fs")
  obtain hF p where f: "Filter ?g ?h 0 ?fs = (hF, p)"
    by (cases "Filter ?g ?h 0 ?fs")
  obtain h2 q2 where i2: "FilterInPlace ?g hF 0 ?gs = (h2, q2)"
    by (cases "FilterInPlace ?g hF 0 ?gs")
  obtain hI0 q0 where i0: "FilterInPlace_p0 ?g ?h 0 ?fs = (hI0, q0)"
    by (cases "FilterInPlace_p0 ?g ?h 0 ?fs")
  obtain hF0 p0 where f0: "Filter_p0 ?g ?h 0 ?fs = (hF0, p0)"
    by (cases "Filter_p0 ?g ?h 0 ?fs")
  obtain h20 q20 where i20: "FilterInPlace_p0 ?g hF0 0 ?gs = (h20, q20)"
    by (cases "FilterInPlace_p0 ?g hF0 0 ?gs")
  have sel: "elems hF (Rows (colls hF p)) = [Some 5, Some 7]"
    using Filter_result(3) [OF v f] by (simp add: elems_one_collection)
  have sel0: "elems hF0 (Rows (colls hF0 p0)) = [Some 5]"
    using Filter_p0_result(3) [OF v f0] by (simp add: elems_one_collection)
  note C5 = C5_FilterInPlace_selects_as_Filter [where h = ?h and c = 0 and growslice = ?g
      and filterFuncs = ?fs and otherFuncs = ?gs and hI = hI and q = q and hF = hF and p = p
      and ?h2.0 = h2 and ?q2.0 = q2 and ?hI0.0 = hI0 and ?q0.0 = q0 and ?hF0.0 = hF0
      and ?p0.0 = p0 and ?h20.0 = h20 and ?q20.0 = q20]
  from C5 v i f have 1: "q = 0" "elems hI (Rows (colls hI 0)) = elems hF (Rows (colls hF p))"
    by blast+
  from C5 v f i2 have 2: "p \<noteq> 0" "elems h2 (Rows (colls h2 p)) = elems hF (Rows (colls hF p))"
    by blast+
  from C5 v i0 f0 have 3: "q0 = 0" "elems hI0 (Rows (colls hI0 0)) = elems hF0 (Rows (colls hF0 p0))"
    by blast+
  from C5 v f0 i20 have 4: "p0 \<noteq> 0" "elems h20 (Rows (colls h20 p0)) = elems hF0 (Rows (colls hF0 p0))"
    by blast+
  from v i f 1 sel have A: "\<exists>hI q hF p.
         FilterInPlace ?g ?h 0 ?fs = (hI, q) \<and> Filter ?g ?h 0 ?fs = (hF, p) \<and> q = 0
         \<and> elems hI (Rows (colls hI 0)) = elems hF (Rows (colls hF p))
         \<and> elems hF (Rows (colls hF p)) = [Some 5, Some 7]"
    by blast
  from f i2 2 have B: "\<exists>hF p h2 q2.
         Filter ?g ?h 0 ?fs = (hF, p) \<and> FilterInPlace ?g hF 0 ?gs = (h2, q2) \<and> p \<noteq> 0
         \<and> elems h2 (Rows (colls h2 p)) = elems hF (Rows (colls hF p))"
    by blast
  from i0 f0 3 sel0 have C: "\<exists>hI q hF p.
         FilterInPlace_p0 ?g ?h 0 ?fs = (hI, q) \<and> Filter_p0 ?g ?h 0 ?fs = (hF, p) \<and> q = 0
         \<and> elems hI (Rows (colls hI 0)) = elems hF (Rows (colls hF p))
         \<and> elems hF (Rows (colls hF p)) = [Some 5]"
    by blast
  from f0 i20 4 have D: "\<exists>hF p h2 q2.
         Filter_p0 ?g ?h 0 ?fs = (hF, p) \<and> FilterInPlace_p0 ?g hF 0 ?gs = (h2, q2) \<and> p \<noteq> 0
         \<and> elems h2 (Rows (colls h2 p)) = elems hF (Rows (colls hF p))"
    by blast
  from v A B C D show ?thesis by (intro conjI)
qed


section \<open>The cells written back\<close>

text \<open>With labels that are all different, the map of a record has each field under its label.\<close>

lemma dict_fold_nth:
  "n \<le> length header \<Longrightarrow> distinct header \<Longrightarrow> i < n \<Longrightarrow>
   fold (\<lambda>i dict. dict(header ! i \<mapsto> rcd ! i)) [0..<n] m (header ! i) = Some (rcd ! i)"
proof (induction n)
  case 0
  then show ?case by simp
next
  case (Suc n)
  show ?case
  proof (cases "i = n")
    case True
    then show ?thesis by simp
  next
    case False
    with Suc.prems have "i < n" "n < length header" "i < length header" by simp_all
    with Suc.prems have "header ! i \<noteq> header ! n"
      by (simp add: nth_eq_iff_index_eq)
    with Suc.IH \<open>i < n\<close> Suc.prems show ?thesis by simp
  qed
qed

lemma dict_of_nth:
  "distinct header \<Longrightarrow> i < length header \<Longrightarrow> lookup (dict_of header rcd) (header ! i) = rcd ! i"
  using dict_fold_nth [of "length header" header i rcd Map.empty]
  by (simp add: dict_of_def lookup_def)

lemma lookup_map_of_keys:
  "lookup (map_of (map (\<lambda>l. (l, f l)) ls @ ps)) k
     = (if k \<in> set ls then f k else lookup (map_of ps) k)"
  by (induction ls) (simp_all add: lookup_def)

text \<open>A row built by \<^verbatim>\<open>newRow\<close> is the composite literal with the added fields set.\<close>

lemma newRow_shape:
  assumes "newRow ParseFloat columns = Inr row"
  shows "\<exists>e n los lo las la. row = (newRow_literal columns)
           \<lparr>OsEasting := e, OsNorthing := n, Wgs84LongitudeAsString := los,
            Wgs84Longitude := lo, Wgs84LatitudeAsString := las, Wgs84Latitude := la\<rparr>"
proof -
  let ?lit = "newRow_literal columns :: 'a Row"
  from assms obtain r1 r2 r3 where
    1: "(if HeadingOsEasting \<in> dom columns
         then (case Atoi (lookup columns HeadingOsEasting) of
                 Inl err \<Rightarrow> Inl (Wrap err ''could not convert easting'')
               | Inr n \<Rightarrow> Inr (?lit\<lparr>OsEasting := n\<rparr>))
         else Inr ?lit) = Inr r1"
    and 2: "(if HeadingOsNorthing \<in> dom columns
         then (case Atoi (lookup columns HeadingOsNorthing) of
                 Inl err \<Rightarrow> Inl (Wrap err ''could not convert northing'')
               | Inr n \<Rightarrow> Inr (r1\<lparr>OsNorthing := n\<rparr>))
         else Inr r1) = Inr r2"
    and 3: "(if HeadingWgs84Longitude \<in> dom columns
         then (let row = r2\<lparr>Wgs84LongitudeAsString := lookup columns HeadingWgs84Longitude\<rparr>
               in case ParseFloat (Wgs84LongitudeAsString row) of
                 Inl err \<Rightarrow> Inl (Wrap err ''could not convert WGS84 longitude'')
               | Inr x \<Rightarrow> Inr (row\<lparr>Wgs84Longitude := x\<rparr>))
         else Inr r2) = Inr r3"
    and 4: "(if HeadingWgs84Latitude \<in> dom columns
         then (let row = r3\<lparr>Wgs84LatitudeAsString := lookup columns HeadingWgs84Latitude\<rparr>
               in case ParseFloat (Wgs84LatitudeAsString row) of
                 Inl err \<Rightarrow> Inl (Wrap err ''could not convert WGS84 latitude'')
               | Inr x \<Rightarrow> Inr (row\<lparr>Wgs84Latitude := x\<rparr>))
         else Inr r3) = Inr row"
    unfolding newRow_def by (simp only: Let_def [of ?lit] andThen_Inr_iff) blast
  have "\<exists>e. r1 = ?lit\<lparr>OsEasting := e\<rparr>"
  proof (cases "HeadingOsEasting \<in> dom columns")
    case True
    with 1 show ?thesis by (auto split: sum.splits)
  next
    case False
    with 1 have "r1 = ?lit" by simp
    then show ?thesis by (intro exI [of _ "OsEasting ?lit"]) simp
  qed
  moreover have "\<exists>n. r2 = r1\<lparr>OsNorthing := n\<rparr>"
  proof (cases "HeadingOsNorthing \<in> dom columns")
    case True
    with 2 show ?thesis by (auto split: sum.splits)
  next
    case False
    with 2 have "r2 = r1" by simp
    then show ?thesis by (intro exI [of _ "OsNorthing r1"]) simp
  qed
  moreover have "\<exists>los lo. r3 = r2\<lparr>Wgs84LongitudeAsString := los, Wgs84Longitude := lo\<rparr>"
  proof (cases "HeadingWgs84Longitude \<in> dom columns")
    case True
    with 3 show ?thesis by (auto simp: Let_def split: sum.splits)
  next
    case False
    with 3 have "r3 = r2" by simp
    then show ?thesis
      by (intro exI [of _ "Wgs84LongitudeAsString r2"] exI [of _ "Wgs84Longitude r2"]) simp
  qed
  moreover have "\<exists>las la. row = r3\<lparr>Wgs84LatitudeAsString := las, Wgs84Latitude := la\<rparr>"
  proof (cases "HeadingWgs84Latitude \<in> dom columns")
    case True
    with 4 show ?thesis by (auto simp: Let_def split: sum.splits)
  next
    case False
    with 4 have "row = r3" by simp
    then show ?thesis
      by (intro exI [of _ "Wgs84LatitudeAsString r3"] exI [of _ "Wgs84Latitude r3"]) simp
  qed
  ultimately show ?thesis by blast
qed

lemma toMap_newRow:
  assumes "newRow ParseFloat columns = Inr row"
  shows "toMap row =
           map_of (map (\<lambda>l. (l, lookup columns l)) core_headings
                   @ [(HeadingOsEasting, Itoa (OsEasting row)),
                      (HeadingOsNorthing, Itoa (OsNorthing row)),
                      (HeadingWgs84Longitude, Wgs84LongitudeAsString row),
                      (HeadingWgs84Latitude, Wgs84LatitudeAsString row)])"
proof -
  obtain e n los lo las la where row: "row = (newRow_literal columns)
           \<lparr>OsEasting := e, OsNorthing := n, Wgs84LongitudeAsString := los,
            Wgs84Longitude := lo, Wgs84LatitudeAsString := las, Wgs84Latitude := la\<rparr>"
    using newRow_shape [OF assms] by blast
  show ?thesis
    unfolding row
    by (simp add: toMap_def newRow_literal_def core_headings_def del: map_of.simps)
qed

lemma toMap_newRow_cell:
  assumes "newRow ParseFloat columns = Inr row" and "heading \<in> dom columns"
  shows "lookup (toMap row) heading = written_cell columns heading"
proof -
  note present = newRow_present [OF assms(1)]
  have cell: "lookup (toMap row) heading
      = (if heading \<in> set core_headings then lookup columns heading
         else lookup (map_of [(HeadingOsEasting, Itoa (OsEasting row)),
                      (HeadingOsNorthing, Itoa (OsNorthing row)),
                      (HeadingWgs84Longitude, Wgs84LongitudeAsString row),
                      (HeadingWgs84Latitude, Wgs84LatitudeAsString row)]) heading)"
    by (simp only: toMap_newRow [OF assms(1)] lookup_map_of_keys)
  consider (core) "heading \<in> set core_headings"
    | (e) "heading \<notin> set core_headings" "heading = HeadingOsEasting"
    | (n) "heading \<notin> set core_headings" "heading \<noteq> HeadingOsEasting"
        "heading = HeadingOsNorthing"
    | (x) "heading \<notin> set core_headings" "heading \<noteq> HeadingOsEasting"
        "heading \<noteq> HeadingOsNorthing" "heading = HeadingWgs84Longitude"
    | (y) "heading \<notin> set core_headings" "heading \<noteq> HeadingOsEasting"
        "heading \<noteq> HeadingOsNorthing" "heading \<noteq> HeadingWgs84Longitude"
        "heading = HeadingWgs84Latitude"
    | (other) "heading \<notin> set core_headings" "heading \<noteq> HeadingOsEasting"
        "heading \<noteq> HeadingOsNorthing" "heading \<noteq> HeadingWgs84Longitude"
        "heading \<noteq> HeadingWgs84Latitude"
    by blast
  then show ?thesis
  proof cases
    case core
    then show ?thesis by (simp only: cell written_cell_def if_True)
  next
    case e
    from present assms(2) e(2)
    have "Atoi (lookup columns HeadingOsEasting) = Inr (OsEasting row)" by simp
    with e show ?thesis unfolding cell written_cell_def by (simp add: lookup_def)
  next
    case n
    from present assms(2) n(3)
    have "Atoi (lookup columns HeadingOsNorthing) = Inr (OsNorthing row)" by simp
    with n show ?thesis unfolding cell written_cell_def by (simp add: lookup_def)
  next
    case x
    from present assms(2) x(4)
    have "Wgs84LongitudeAsString row = lookup columns HeadingWgs84Longitude" by simp
    with x show ?thesis unfolding cell written_cell_def by (simp add: lookup_def)
  next
    case y
    from present assms(2) y(5)
    have "Wgs84LatitudeAsString row = lookup columns HeadingWgs84Latitude" by simp
    with y show ?thesis unfolding cell written_cell_def by (simp add: lookup_def)
  next
    case other
    then show ?thesis unfolding cell written_cell_def by (simp add: lookup_def)
  qed
qed

text \<open>The same for \<^verbatim>\<open>newLicenceRow\<close> and \<^verbatim>\<open>toMap\<close> of part_000.\<close>

lemma newLicenceRow_p0_shape:
  assumes "newLicenceRow_p0 ParseFloat row = Inr licenceRow"
  shows "\<exists>e n x y. licenceRow =
           (newLicenceRow_p0_literal row (fst (productCodeAndDescription row))
              (snd (productCodeAndDescription row)) (tweakCompanyName row)
              (Join (Fields (lookup row ''NGR'')) ''''))
           \<lparr>LicenceRow_p0.Osgb36Eastings := e, LicenceRow_p0.Osgb36Northings := n,
            Wgs84Eastings := x, Wgs84Northings := y\<rparr>"
proof -
  let ?lit = "newLicenceRow_p0_literal row (fst (productCodeAndDescription row))
              (snd (productCodeAndDescription row)) (tweakCompanyName row)
              (Join (Fields (lookup row ''NGR'')) '''') :: 'a LicenceRow_p0"
  from assms obtain r1 r2 r3 where
    1: "(if ''OSGB36 E'' \<in> dom row
         then (case Atoi (lookup row ''OSGB36 E'') of
                 Inl err \<Rightarrow> Inl err
               | Inr n \<Rightarrow> Inr (?lit\<lparr>LicenceRow_p0.Osgb36Eastings := n\<rparr>))
         else Inr ?lit) = Inr r1"
    and 2: "(if ''OSGB36 N'' \<in> dom row
         then (case Atoi (lookup row ''OSGB36 N'') of
                 Inl err \<Rightarrow> Inl err
               | Inr n \<Rightarrow> Inr (r1\<lparr>LicenceRow_p0.Osgb36Northings := n\<rparr>))
         else Inr r1) = Inr r2"
    and 3: "(if ''WGS84 E'' \<in> dom row
         then (case ParseFloat (lookup row ''WGS84 E'') of
                 Inl err \<Rightarrow> Inl err
               | Inr x \<Rightarrow> Inr (r2\<lparr>Wgs84Eastings := x\<rparr>))
         else Inr r2) = Inr r3"
    and 4: "(if ''WGS84 N'' \<in> dom row
         then (case ParseFloat (lookup row ''WGS84 N'') of
                 Inl err \<Rightarrow> Inl err
               | Inr x \<Rightarrow> Inr (r3\<lparr>Wgs84Northings := x\<rparr>))
         else Inr r3) = Inr licenceRow"
    unfolding newLicenceRow_p0_def by (simp only: Let_def case_prod_beta andThen_Inr_iff) blast
  have "\<exists>e. r1 = ?lit\<lparr>LicenceRow_p0.Osgb36Eastings := e\<rparr>"
  proof (cases "''OSGB36 E'' \<in> dom row")
    case True
    with 1 show ?thesis by (auto split: sum.splits)
  next
    case False
    with 1 have "r1 = ?lit" by simp
    then show ?thesis by (intro exI [of _ "LicenceRow_p0.Osgb36Eastings ?lit"]) simp
  qed
  moreover have "\<exists>n. r2 = r1\<lparr>LicenceRow_p0.Osgb36Northings := n\<rparr>"
  proof (cases "''OSGB36 N'' \<in> dom row")
    case True
    with 2 show ?thesis by (auto split: sum.splits)
  next
    case False
    with 2 have "r2 = r1" by simp
    then show ?thesis by (intro exI [of _ "LicenceRow_p0.Osgb36Northings r1"]) simp
  qed
  moreover have "\<exists>x. r3 = r2\<lparr>Wgs84Eastings := x\<rparr>"
  proof (cases "''WGS84 E'' \<in> dom row")
    case True
    with 3 show ?thesis by (auto split: sum.splits)
  next
    case False
    with 3 have "r3 = r2" by simp
    then show ?thesis by (intro exI [of _ "Wgs84Eastings r2"]) simp
  qed
  moreover have "\<exists>y. licenceRow = r3\<lparr>Wgs84Northings := y\<rparr>"
  proof (cases "''WGS84 N'' \<in> dom row")
    case True
    with 4 show ?thesis by (auto split: sum.splits)
  next
    case False
    with 4 have "licenceRow = r3" by simp
    then show ?thesis by (intro exI [of _ "Wgs84Northings r3"]) simp
  qed
  ultimately show ?thesis by blast
qed

lemma toMap_p0_newLicenceRow:
  assumes "newLicenceRow_p0 ParseFloat row = Inr licenceRow"
  shows "toMap_p0 Sprintf_f licenceRow =
           map_of (map (\<lambda>l. (l, tidied row l)) core_headings
                   @ [(''OSGB36 E'', Itoa (LicenceRow_p0.Osgb36Eastings licenceRow)),
                      (''OSGB36 N'', Itoa (LicenceRow_p0.Osgb36Northings licenceRow)),
                      (''WGS84 E'', Sprintf_f (Wgs84Eastings licenceRow)),
                      (''WGS84 N'', Sprintf_f (Wgs84Northings licenceRow))])"
proof -
  obtain e n x y where r: "licenceRow =
           (newLicenceRow_p0_literal row (fst (productCodeAndDescription row))
              (snd (productCodeAndDescription row)) (tweakCompanyName row)
              (Join (Fields (lookup row ''NGR'')) ''''))
           \<lparr>LicenceRow_p0.Osgb36Eastings := e, LicenceRow_p0.Osgb36Northings := n,
            Wgs84Eastings := x, Wgs84Northings := y\<rparr>"
    using newLicenceRow_p0_shape [OF assms] by blast
  show ?thesis
    unfolding r
    by (simp add: toMap_p0_def newLicenceRow_p0_literal_def core_headings_def tidied_def
        del: map_of.simps)
qed

lemma toMap_p0_newLicenceRow_cell:
  assumes "newLicenceRow_p0 ParseFloat row = Inr licenceRow" and "heading \<in> dom row"
  shows "lookup (toMap_p0 Sprintf_f licenceRow) heading
           = written_cell_p0 ParseFloat Sprintf_f row heading"
proof -
  note ext = newLicenceRow_p0_extension [OF assms(1)]
  have cell: "lookup (toMap_p0 Sprintf_f licenceRow) heading
      = (if heading \<in> set core_headings then tidied row heading
         else lookup (map_of [(''OSGB36 E'', Itoa (LicenceRow_p0.Osgb36Eastings licenceRow)),
                      (''OSGB36 N'', Itoa (LicenceRow_p0.Osgb36Northings licenceRow)),
                      (''WGS84 E'', Sprintf_f (Wgs84Eastings licenceRow)),
                      (''WGS84 N'', Sprintf_f (Wgs84Northings licenceRow))]) heading)"
    by (simp only: toMap_p0_newLicenceRow [OF assms(1)] lookup_map_of_keys)
  consider (core) "heading \<in> set core_headings"
    | (e) "heading \<notin> set core_headings" "heading = ''OSGB36 E''"
    | (n) "heading \<notin> set core_headings" "heading = ''OSGB36 N''"
    | (x) "heading \<notin> set core_headings" "heading = ''WGS84 E''"
    | (y) "heading \<notin> set core_headings" "heading = ''WGS84 N''"
    | (other) "heading \<notin> set core_headings" "heading \<noteq> ''OSGB36 E''"
        "heading \<noteq> ''OSGB36 N''" "heading \<noteq> ''WGS84 E''" "heading \<noteq> ''WGS84 N''"
    by blast
  then show ?thesis
  proof cases
    case core
    then show ?thesis by (simp only: cell written_cell_p0_def if_True)
  next
    case e
    from ext assms(2) e(2) have "Atoi (lookup row ''OSGB36 E'') = Inr (LicenceRow_p0.Osgb36Eastings licenceRow)"
      by simp
    with e show ?thesis unfolding cell written_cell_p0_def by (simp add: lookup_def)
  next
    case n
    from ext assms(2) n(2) have "Atoi (lookup row ''OSGB36 N'') = Inr (LicenceRow_p0.Osgb36Northings licenceRow)"
      by simp
    with n show ?thesis unfolding cell written_cell_p0_def by (simp add: lookup_def)
  next
    case x
    from ext assms(2) x(2) have "ParseFloat (lookup row ''WGS84 E'') = Inr (Wgs84Eastings licenceRow)"
      by simp
    with x show ?thesis unfolding cell written_cell_p0_def by (simp add: lookup_def)
  next
    case y
    from ext assms(2) y(2) have "ParseFloat (lookup row ''WGS84 N'') = Inr (Wgs84Northings licenceRow)"
      by simp
    with y show ?thesis unfolding cell written_cell_p0_def by (simp add: lookup_def)
  next
    case other
    then show ?thesis unfolding cell written_cell_p0_def by (simp add: lookup_def)
  qed
qed

section \<open>The claim on the records written\<close>

lemma list_all2_map_eq:
  "list_all2 R xs ys \<Longrightarrow> (\<And>x y. R x y \<Longrightarrow> f y = g x) \<Longrightarrow> map f ys = map g xs"
  by (induction rule: list_all2_induct) auto

lemma WriteCSV_cells:
  assumes "ReadCSV ParseFloat h (header # records) = Inr (h', collection)"
  shows "\<exists>rows. elems h' (Rows (colls h' collection)) = map Some rows
           \<and> list_all2 (\<lambda>rcd row. newRow ParseFloat (dict_of header rcd) = Inr row) records rows
           \<and> WriteCSV h' collection =
               Inr (header # map (\<lambda>row. map (\<lambda>heading. lookup (toMap row) heading) header) rows)
           \<and> WriteCSV h' collection =
               Inr (header # map (\<lambda>rcd. map (written_cell (dict_of header rcd)) header) records)"
proof -
  from ReadCSV_Inr [OF assms] obtain rows where
    rows: "list_all2 (\<lambda>columns row. newRow ParseFloat columns = Inr row)
             (map (dict_of header) records) rows"
    and hdr: "Header (colls h' collection) = header"
    and el: "elems h' (Rows (colls h' collection)) = map Some rows"
    by blast
  from rows have all: "list_all2 (\<lambda>rcd row. newRow ParseFloat (dict_of header rcd) = Inr row) records rows"
    by (simp add: list_all2_map1)
  have w: "WriteCSV h' collection =
      Inr (header # map (\<lambda>row. map (\<lambda>heading. lookup (toMap row) heading) header) rows)"
    by (simp add: WriteCSV_def hdr el WriteCSV_loop_rows andThen_def)
  have "map (\<lambda>row. map (\<lambda>heading. lookup (toMap row) heading) header) rows
          = map (\<lambda>rcd. map (written_cell (dict_of header rcd)) header) records"
  proof (rule list_all2_map_eq [OF all])
    fix rcd row
    assume "newRow ParseFloat (dict_of header rcd) = Inr row"
    then show "map (\<lambda>heading. lookup (toMap row) heading) header
                 = map (written_cell (dict_of header rcd)) header"
      by (simp add: toMap_newRow_cell dom_dict_of)
  qed
  with w el all show ?thesis by simp
qed

lemma WriteCsv_p0_cells:
  assumes "ReadCsv_p0 ParseFloat h (header # records) = Inr (h', lc)"
  shows "\<exists>rows. elems h' (Rows (colls h' lc)) = map Some rows
           \<and> list_all2 (\<lambda>rcd licenceRow. newLicenceRow_p0 ParseFloat (dict_of header rcd) = Inr licenceRow)
                records rows
           \<and> WriteCsv_p0 Sprintf_f h' lc =
               Inr (header # map (\<lambda>licenceRow. map (\<lambda>heading.
                      lookup (toMap_p0 Sprintf_f licenceRow) heading) header) rows)
           \<and> WriteCsv_p0 Sprintf_f h' lc =
               Inr (header # map (\<lambda>rcd. map (written_cell_p0 ParseFloat Sprintf_f
                      (dict_of header rcd)) header) records)"
proof -
  from ReadCsv_p0_Inr [OF assms] obtain rows where
    rows: "list_all2 (\<lambda>columns row. newLicenceRow_p0 ParseFloat columns = Inr row)
             (map (dict_of header) records) rows"
    and hdr: "Header (colls h' lc) = header"
    and el: "elems h' (Rows (colls h' lc)) = map Some rows"
    by blast
  from rows have all: "list_all2 (\<lambda>rcd licenceRow.
      newLicenceRow_p0 ParseFloat (dict_of header rcd) = Inr licenceRow) records rows"
    by (simp add: list_all2_map1)
  have w: "WriteCsv_p0 Sprintf_f h' lc =
      Inr (header # map (\<lambda>licenceRow. map (\<lambda>heading.
             lookup (toMap_p0 Sprintf_f licenceRow) heading) header) rows)"
    by (simp add: WriteCsv_p0_def hdr el WriteCSV_loop_rows andThen_def)
  have "map (\<lambda>licenceRow. map (\<lambda>heading. lookup (toMap_p0 Sprintf_f licenceRow) heading) header) rows
          = map (\<lambda>rcd. map (written_cell_p0 ParseFloat Sprintf_f (dict_of header rcd)) header) records"
  proof (rule list_all2_map_eq [OF all])
    fix rcd licenceRow
    assume "newLicenceRow_p0 ParseFloat (dict_of header rcd) = Inr licenceRow"
    then show "map (\<lambda>heading. lookup (toMap_p0 Sprintf_f licenceRow) heading) header
                 = map (written_cell_p0 ParseFloat Sprintf_f (dict_of header rcd)) header"
      by (simp add: toMap_p0_newLicenceRow_cell dom_dict_of)
  qed
  with w el all show ?thesis by simp
qed

text \<open>
  C2. For every loaded Collection, the first record that \<^verbatim>\<open>WriteCSV\<close> writes is the header
  of the input, label for label, and every later record holds the values of one Record,
  the Records in the order of the rows read and the values in the order of that header.
  The cell under a label is the value that \<^verbatim>\<open>toMap\<close> gives for the Record, which is: the
  value read, for a core column and for the two WGS84 columns; the integer read, printed
  in decimal, for the two OS columns; and the empty string for a label that is none of
  these. \<^verbatim>\<open>WriteCsv\<close> of part_000 does the same, with its four tidied columns and with its
  four added columns formatted from their numbers. When the labels are all different, the
  value read under the label at a position is the record's field at that position.
\<close>

theorem C2_WriteCSV_header_and_cells:
  "(ReadCSV ParseFloat h (header # records) = Inr (h', collection) \<longrightarrow>
      (\<exists>rows. elems h' (Rows (colls h' collection)) = map Some rows
         \<and> list_all2 (\<lambda>rcd row. newRow ParseFloat (dict_of header rcd) = Inr row) records rows
         \<and> WriteCSV h' collection =
             Inr (header # map (\<lambda>row. map (\<lambda>heading. lookup (toMap row) heading) header) rows)
         \<and> WriteCSV h' collection =
             Inr (header # map (\<lambda>rcd. map (written_cell (dict_of header rcd)) header) records)))
   \<and> (ReadCsv_p0 ParseFloat h0 (header # records) = Inr (h0', lc) \<longrightarrow>
      (\<exists>rows. elems h0' (Rows (colls h0' lc)) = map Some rows
         \<and> list_all2 (\<lambda>rcd licenceRow.
                newLicenceRow_p0 ParseFloat (dict_of header rcd) = Inr licenceRow) records rows
         \<and> WriteCsv_p0 Sprintf_f h0' lc =
             Inr (header # map (\<lambda>licenceRow. map (\<lambda>heading.
                    lookup (toMap_p0 Sprintf_f licenceRow) heading) header) rows)
         \<and> WriteCsv_p0 Sprintf_f h0' lc =
             Inr (header # map (\<lambda>rcd. map (written_cell_p0 ParseFloat Sprintf_f
                    (dict_of header rcd)) header) records)))
   \<and> (distinct header \<and> length rcd = length header \<and> i < length header \<longrightarrow>
        lookup (dict_of header rcd) (header ! i) = rcd ! i)"
proof (intro conjI impI)
  assume "ReadCSV ParseFloat h (header # records) = Inr (h', collection)"
  then show "\<exists>rows. elems h' (Rows (colls h' collection)) = map Some rows
         \<and> list_all2 (\<lambda>rcd row. newRow ParseFloat (dict_of header rcd) = Inr row) records rows
         \<and> WriteCSV h' collection =
             Inr (header # map (\<lambda>row. map (\<lambda>heading. lookup (toMap row) heading) header) rows)
         \<and> WriteCSV h' collection =
             Inr (header # map (\<lambda>rcd. map (written_cell (dict_of header rcd)) header) records)"
    by (rule WriteCSV_cells)
next
  assume "ReadCsv_p0 ParseFloat h0 (header # records) = Inr (h0', lc)"
  then show "\<exists>rows. elems h0' (Rows (colls h0' lc)) = map Some rows
         \<and> list_all2 (\<lambda>rcd licenceRow.
                newLicenceRow_p0 ParseFloat (dict_of header rcd) = Inr licenceRow) records rows
         \<and> WriteCsv_p0 Sprintf_f h0' lc =
             Inr (header # map (\<lambda>licenceRow. map (\<lambda>heading.
                    lookup (toMap_p0 Sprintf_f licenceRow) heading) header) rows)
         \<and> WriteCsv_p0 Sprintf_f h0' lc =
             Inr (header # map (\<lambda>rcd. map (written_cell_p0 ParseFloat Sprintf_f
                    (dict_of header rcd)) header) records)"
    by (rule WriteCsv_p0_cells)
next
  assume "distinct header \<and> length rcd = length header \<and> i < length header"
  then show "lookup (dict_of header rcd) (header ! i) = rcd ! i"
    by (simp add: dict_of_nth)
qed

theorem C2_WriteCSV_header_and_cells_witness:
  "(\<exists>h' collection.
      ReadCSV (\<lambda>s. Inl (NumError ''ParseFloat'' s)) (empty_heap :: int Row heap)
        [[''OS Easting'', ''NGR'', ''Colour''], [''007'', ''SU 1'', ''red'']] = Inr (h', collection)
      \<and> WriteCSV h' collection
          = Inr [[''OS Easting'', ''NGR'', ''Colour''], [''7'', ''SU 1'', '''']])
   \<and> (\<exists>h' lc.
      ReadCsv_p0 (\<lambda>s. Inl (NumError ''ParseFloat'' s)) (empty_heap :: int LicenceRow_p0 heap)
        [[''OSGB36 E'', ''NGR'', ''Colour''], [''007'', ''SU 1'', ''red'']] = Inr (h', lc)
      \<and> WriteCsv_p0 (\<lambda>x. ''0.000000'') h' lc
          = Inr [[''OSGB36 E'', ''NGR'', ''Colour''], [''7'', ''SU1'', '''']])
   \<and> lookup (dict_of [''OS Easting'', ''NGR'', ''Colour''] [''007'', ''SU 1'', ''red''])
        ''OS Easting'' = ''007''"
proof -
  let ?pf = "\<lambda>s. Inl (NumError ''ParseFloat'' s) :: error + int"
  let ?sf = "\<lambda>x :: int. ''0.000000''"
  let ?hdc = "[''OS Easting'', ''NGR'', ''Colour'']"
  let ?hdr = "[''OSGB36 E'', ''NGR'', ''Colour'']"
  let ?rcd = "[''007'', ''SU 1'', ''red'']"
  let ?X = "ReadCSV ?pf (empty_heap :: int Row heap) [?hdc, ?rcd]"
  let ?Y = "ReadCsv_p0 ?pf (empty_heap :: int LicenceRow_p0 heap) [?hdr, ?rcd]"
  note C2 = C2_WriteCSV_header_and_cells
  have atoi: "Atoi ''007'' = Inr 7"
    by code_simp
  have itoa: "Itoa 7 = ''7''"
    by code_simp
  have d: "dict_of ?hdc ?rcd = [''OS Easting'' \<mapsto> ''007'', ''NGR'' \<mapsto> ''SU 1'', ''Colour'' \<mapsto> ''red'']"
    by (simp add: dict_of_def upt_rec_numeral del: fun_upd_apply)
  have d0: "dict_of ?hdr ?rcd = [''OSGB36 E'' \<mapsto> ''007'', ''NGR'' \<mapsto> ''SU 1'', ''Colour'' \<mapsto> ''red'']"
    by (simp add: dict_of_def upt_rec_numeral del: fun_upd_apply)
  have "\<not> isl ?X"
    by (simp add: ReadCSV_def newRow_def HeadingOsEasting_def HeadingOsNorthing_def
        HeadingWgs84Longitude_def HeadingWgs84Latitude_def CSVToMap_def andThen_def
        make_slice_def Let_def lookup_def new_coll_def d store_def empty_heap_def atoi)
  then obtain h1 c1 where X: "?X = Inr (h1, c1)"
    by (cases ?X) auto
  have "\<not> isl ?Y"
    by (simp add: ReadCsv_p0_def newLicenceRow_p0_def CSVToMap_p0_def andThen_def
        make_slice_def Let_def lookup_def new_coll_def d0 store_def empty_heap_def atoi
        split_beta)
  then obtain h2 c2 where Y: "?Y = Inr (h2, c2)"
    by (cases ?Y) auto
  have cells: "map (written_cell (dict_of ?hdc ?rcd)) ?hdc = [''7'', ''SU 1'', '''']"
    by (simp add: d written_cell_def core_headings_def lookup_def HeadingOsEasting_def
        HeadingOsNorthing_def HeadingWgs84Longitude_def HeadingWgs84Latitude_def atoi itoa)
  have ngr: "Join (Fields ''SU 1'') '''' = ''SU1''"
    by (simp add: Fields_def runes.simps byteIn_def IsSpace_def RuneError_def Let_def)
  have cells0: "map (written_cell_p0 ?pf ?sf (dict_of ?hdr ?rcd)) ?hdr = [''7'', ''SU1'', '''']"
    by (simp add: d0 written_cell_p0_def tidied_def core_headings_def lookup_def atoi itoa ngr)
  have "WriteCSV h1 c1
          = Inr (?hdc # map (\<lambda>rcd. map (written_cell (dict_of ?hdc rcd)) ?hdc) [?rcd])"
    using X C2 [where ParseFloat = ?pf and h = empty_heap and header = ?hdc
        and records = "[?rcd]" and h' = h1 and collection = c1]
    by blast
  with cells have 1: "WriteCSV h1 c1 = Inr [?hdc, [''7'', ''SU 1'', []]]"
    by simp
  have "WriteCsv_p0 ?sf h2 c2
          = Inr (?hdr # map (\<lambda>rcd. map (written_cell_p0 ?pf ?sf (dict_of ?hdr rcd)) ?hdr) [?rcd])"
    using Y C2 [where ParseFloat = ?pf and ?h0.0 = empty_heap and header = ?hdr
        and records = "[?rcd]" and ?h0' = h2 and lc = c2 and Sprintf_f = ?sf]
    by blast
  with cells0 have 2: "WriteCsv_p0 ?sf h2 c2 = Inr [?hdr, [''7'', ''SU1'', []]]"
    by simp
  have 3: "lookup (dict_of ?hdc ?rcd) ''OS Easting'' = ''007''"
    using C2 [where header = ?hdc and rcd = ?rcd and i = "0::nat", THEN conjunct2, THEN conjunct2]
    by simp
  from X Y 1 2 3 show ?thesis by blast
qed

section \<open>Company names\<close>

lemma HasPrefix_iff: "HasPrefix s p \<longleftrightarrow> occurs_at p s 0"
  by (induction s p rule: HasPrefix.induct) (auto simp: occurs_at_def)

lemma occurs_at_Cons: "occurs_at old (c # cs) (Suc i) \<longleftrightarrow> occurs_at old cs i"
  by (simp add: occurs_at_def)

lemma occurs_at_bound: "occurs_at old s i \<Longrightarrow> i \<le> length s"
  by (simp add: occurs_at_def)

lemma Index_None: "Index s old = None \<longleftrightarrow> (\<forall>i. \<not> occurs_at old s i)"
proof (induction s)
  case Nil
  then show ?case by (auto simp: occurs_at_def)
next
  case (Cons c cs)
  show ?case
  proof (cases "HasPrefix (c # cs) old")
    case True
    then show ?thesis by (auto simp: HasPrefix_iff)
  next
    case False
    have "(\<forall>i. \<not> occurs_at old (c # cs) i) \<longleftrightarrow> (\<forall>i. \<not> occurs_at old cs i)"
    proof
      assume "\<forall>i. \<not> occurs_at old (c # cs) i"
      then show "\<forall>i. \<not> occurs_at old cs i"
        using occurs_at_Cons by blast
    next
      assume a: "\<forall>i. \<not> occurs_at old cs i"
      show "\<forall>i. \<not> occurs_at old (c # cs) i"
      proof
        fix i show "\<not> occurs_at old (c # cs) i"
          using a False by (cases i) (simp_all add: HasPrefix_iff occurs_at_Cons)
      qed
    qed
    with False Cons.IH show ?thesis by simp
  qed
qed

lemma Index_Some:
  "Index s old = Some i \<Longrightarrow> occurs_at old s i \<and> (\<forall>j < i. \<not> occurs_at old s j)"
proof (induction s arbitrary: i)
  case Nil
  then show ?case by (auto simp: occurs_at_def split: if_splits)
next
  case (Cons c cs)
  show ?case
  proof (cases "HasPrefix (c # cs) old")
    case True
    with Cons.prems show ?thesis by (simp add: HasPrefix_iff)
  next
    case False
    with Cons.prems obtain k where k: "Index cs old = Some k" "i = Suc k"
      by auto
    from Cons.IH [OF k(1)] have IH: "occurs_at old cs k" "\<forall>j < k. \<not> occurs_at old cs j"
      by simp_all
    have "\<forall>j < Suc k. \<not> occurs_at old (c # cs) j"
    proof (intro allI impI)
      fix j assume "j < Suc k"
      with IH(2) False show "\<not> occurs_at old (c # cs) j"
        by (cases j) (simp_all add: HasPrefix_iff occurs_at_Cons)
    qed
    with IH(1) k(2) show ?thesis by (simp add: occurs_at_Cons)
  qed
qed

text \<open>One round of the loop over \<open>pairs\<close> replaces the first occurrence, if there is one.\<close>

lemma replace_round:
  "replaced_first old new s (if Contains s old then Replace1 s old new else s)"
proof (cases "Index s old")
  case None
  then have "\<not> (\<exists>i \<le> length s. occurs_at old s i)"
    by (simp add: Index_None)
  with None show ?thesis
    unfolding replaced_first_def Contains_def by auto
next
  case (Some i)
  from Index_Some [OF Some] have i: "occurs_at old s i" "\<forall>j < i. \<not> occurs_at old s j"
    by simp_all
  from i(1) have b: "i \<le> length s" by (rule occurs_at_bound)
  have ex: "\<exists>k \<le> length s. occurs_at old s k"
    using i(1) b by blast
  have "\<exists>k \<le> length s. occurs_at old s k \<and> (\<forall>j < k. \<not> occurs_at old s j)
          \<and> Replace1 s old new = take k s @ new @ drop (k + length old) s"
    using i b Some by (intro exI [of _ i]) (simp add: Replace1_def)
  with ex Some show ?thesis
    by (simp add: replaced_first_def Contains_def)
qed

lemma tweakCompanyName_cases:
  "(lookup row ''Licencee Company'' = ''BRITISH TELECOMMUNICATIONS PUBLIC LIMITED COMPANY''
      \<longrightarrow> tweakCompanyName row = ''BT PLC'')
   \<and> (lookup row ''Licencee Company'' = ''MOBILE BROADBAND NETWORK LIMITED''
      \<longrightarrow> tweakCompanyName row = ''MBNL'')
   \<and> (lookup row ''Licencee Company'' \<noteq> ''BRITISH TELECOMMUNICATIONS PUBLIC LIMITED COMPANY''
      \<and> lookup row ''Licencee Company'' \<noteq> ''MOBILE BROADBAND NETWORK LIMITED''
      \<longrightarrow> (\<exists>t1 t2 t3.
             replaced_first ''Public Limited Company'' ''PLC'' (lookup row ''Licencee Company'') t1
           \<and> replaced_first ''PUBLIC LIMITED COMPANY'' ''PLC'' t1 t2
           \<and> replaced_first ''Limited'' ''Ltd'' t2 t3
           \<and> replaced_first ''LIMITED'' ''LTD'' t3 (tweakCompanyName row)))"
proof (intro conjI impI)
  assume "lookup row ''Licencee Company'' = ''BRITISH TELECOMMUNICATIONS PUBLIC LIMITED COMPANY''"
  then show "tweakCompanyName row = ''BT PLC''"
    by (simp add: tweakCompanyName_def)
next
  assume "lookup row ''Licencee Company'' = ''MOBILE BROADBAND NETWORK LIMITED''"
  then show "tweakCompanyName row = ''MBNL''"
    by (simp add: tweakCompanyName_def)
next
  let ?s = "lookup row ''Licencee Company''"
  let ?round = "\<lambda>old new s. if Contains s old then Replace1 s old new else s"
  let ?t1 = "?round ''Public Limited Company'' ''PLC'' ?s"
  let ?t2 = "?round ''PUBLIC LIMITED COMPANY'' ''PLC'' ?t1"
  let ?t3 = "?round ''Limited'' ''Ltd'' ?t2"
  assume "?s \<noteq> ''BRITISH TELECOMMUNICATIONS PUBLIC LIMITED COMPANY''
      \<and> ?s \<noteq> ''MOBILE BROADBAND NETWORK LIMITED''"
  then have "tweakCompanyName row = ?round ''LIMITED'' ''LTD'' ?t3"
    by (simp add: tweakCompanyName_def pairs_def Let_def)
  then show "\<exists>t1 t2 t3.
             replaced_first ''Public Limited Company'' ''PLC'' ?s t1
           \<and> replaced_first ''PUBLIC LIMITED COMPANY'' ''PLC'' t1 t2
           \<and> replaced_first ''Limited'' ''Ltd'' t2 t3
           \<and> replaced_first ''LIMITED'' ''LTD'' t3 (tweakCompanyName row)"
    using replace_round [of "''Public Limited Company''" "''PLC''" ?s]
      replace_round [of "''PUBLIC LIMITED COMPANY''" "''PLC''" ?t1]
      replace_round [of "''Limited''" "''Ltd''" ?t2]
      replace_round [of "''LIMITED''" "''LTD''" ?t3]
    by (intro exI [of _ ?t1] exI [of _ ?t2] exI [of _ ?t3]) (simp only: simp_thms)
qed

section \<open>Product code and description\<close>

lemma matchAt_Some:
  assumes "matchAt t = Some (code, rest)"
  shows "pattern_match t [] code rest" and "rest = [] \<or> \<not> isSep (hd rest)"
proof -
  let ?tail = "drop 6 t"
  from assms have c: "code = take 6 t" "rest = dropWhile isSep ?tail" "length code = 6"
    "list_all isDigit code" "?tail \<noteq> []" "isSep (hd ?tail)" "CHR 0x0A \<notin> set rest"
    by (auto simp: matchAt_def Let_def split: if_splits)
  let ?sep = "takeWhile isSep ?tail"
  have "t = code @ ?sep @ rest"
    by (simp add: c(1,2))
  moreover from c(5,6) have "?sep \<noteq> []"
    by (cases ?tail) simp_all
  moreover have "list_all isSep ?sep"
    by (auto simp: list_all_iff dest: set_takeWhileD)
  ultimately show "pattern_match t [] code rest"
    using c(3,4,7) unfolding pattern_match_def by (intro exI [of _ ?sep]) simp
  show "rest = [] \<or> \<not> isSep (hd rest)"
    unfolding c(2) using hd_dropWhile [of isSep ?tail] by blast
qed

lemma matchAt_None:
  assumes "matchAt t = None"
  shows "\<not> pattern_match t [] code rest"
proof
  assume "pattern_match t [] code rest"
  then obtain sep where m: "t = code @ sep @ rest" "length code = 6" "list_all isDigit code"
    "sep \<noteq> []" "list_all isSep sep" "CHR 0x0A \<notin> set rest"
    by (auto simp: pattern_match_def)
  from m(1,2) have t: "take 6 t = code" "drop 6 t = sep @ rest"
    by simp_all
  from m(5) have "dropWhile isSep (sep @ rest) = dropWhile isSep rest"
    by (intro dropWhile_append2) (simp add: list_all_iff)
  with m(6) have "CHR 0x0A \<notin> set (dropWhile isSep (sep @ rest))"
    by (auto dest: set_dropWhileD)
  moreover from m(4,5) have "isSep (hd (sep @ rest))"
    by (cases sep) simp_all
  ultimately have "matchAt t \<noteq> None"
    using m(2,3,4) by (simp add: matchAt_def Let_def t)
  with assms show False by simp
qed

lemma pattern_match_Cons_Cons:
  "pattern_match (c # cs) (c' # pre) code rest \<longleftrightarrow> c' = c \<and> pattern_match cs pre code rest"
  by (auto simp: pattern_match_def)

lemma pattern_match_Nil: "\<not> pattern_match [] pre code rest"
  by (auto simp: pattern_match_def)

text \<open>
  \<^verbatim>\<open>FindStringSubmatch\<close> finds nothing exactly when the pattern matches nowhere;
  otherwise its groups are those of a match, the one that starts leftmost and whose run
  of separators is the longest.
\<close>

lemma FindStringSubmatch_Nil:
  "FindStringSubmatch s = [] \<longleftrightarrow> (\<forall>pre code rest. \<not> pattern_match s pre code rest)"
proof (induction s)
  case Nil
  then show ?case by (simp add: pattern_match_Nil)
next
  case (Cons c cs)
  show ?case
  proof (cases "matchAt (c # cs)")
    case None
    have "(\<forall>pre code rest. \<not> pattern_match (c # cs) pre code rest)
            \<longleftrightarrow> (\<forall>pre code rest. \<not> pattern_match cs pre code rest)"
    proof
      assume a: "\<forall>pre code rest. \<not> pattern_match (c # cs) pre code rest"
      show "\<forall>pre code rest. \<not> pattern_match cs pre code rest"
      proof (intro allI)
        fix pre code rest
        from a have "\<not> pattern_match (c # cs) (c # pre) code rest" by blast
        then show "\<not> pattern_match cs pre code rest"
          by (simp add: pattern_match_Cons_Cons)
      qed
    next
      assume a: "\<forall>pre code rest. \<not> pattern_match cs pre code rest"
      show "\<forall>pre code rest. \<not> pattern_match (c # cs) pre code rest"
      proof (intro allI)
        fix pre code rest
        show "\<not> pattern_match (c # cs) pre code rest"
        proof (cases pre)
          case Nil
          with matchAt_None [OF None] show ?thesis by simp
        next
          case (Cons c' pre')
          with a show ?thesis by (simp add: pattern_match_Cons_Cons)
        qed
      qed
    qed
    with None Cons.IH show ?thesis by simp
  next
    case (Some m)
    obtain code rest where m: "m = (code, rest)" by (cases m)
    from matchAt_Some(1) [OF Some [unfolded m]] have "pattern_match (c # cs) [] code rest" .
    then have "\<not> (\<forall>pre code rest. \<not> pattern_match (c # cs) pre code rest)" by blast
    then show ?thesis by (simp add: Some m)
  qed
qed

lemma FindStringSubmatch_groups:
  assumes "FindStringSubmatch s \<noteq> []"
  shows "\<exists>pre whole code rest.
           FindStringSubmatch s = [whole, code, rest] \<and> s = pre @ whole
           \<and> pattern_match s pre code rest
           \<and> (rest = [] \<or> \<not> isSep (hd rest))
           \<and> (\<forall>pre' code' rest'. pattern_match s pre' code' rest' \<longrightarrow> length pre \<le> length pre')"
  using assms
proof (induction s)
  case Nil
  then show ?case by simp
next
  case (Cons c cs)
  show ?case
  proof (cases "matchAt (c # cs)")
    case (Some m)
    obtain code rest where m: "m = (code, rest)" by (cases m)
    note ok = matchAt_Some [OF Some [unfolded m]]
    have "FindStringSubmatch (c # cs) = [c # cs, code, rest]"
      by (simp add: Some m)
    with ok show ?thesis
      by (intro exI [of _ "[]"] exI [of _ "c # cs"] exI [of _ code] exI [of _ rest]) simp
  next
    case None
    with Cons.prems have "FindStringSubmatch cs \<noteq> []" by simp
    from Cons.IH [OF this] obtain pre whole code rest where
      IH: "FindStringSubmatch cs = [whole, code, rest]" "cs = pre @ whole"
        "pattern_match cs pre code rest" "rest = [] \<or> \<not> isSep (hd rest)"
        "\<forall>pre' code' rest'. pattern_match cs pre' code' rest' \<longrightarrow> length pre \<le> length pre'"
      by blast
    have least: "\<forall>pre' code' rest'. pattern_match (c # cs) pre' code' rest'
            \<longrightarrow> length (c # pre) \<le> length pre'"
    proof (intro allI impI)
      fix pre' code' rest'
      assume pm: "pattern_match (c # cs) pre' code' rest'"
      show "length (c # pre) \<le> length pre'"
      proof (cases pre')
        case Nil
        with pm matchAt_None [OF None] show ?thesis by simp
      next
        case (Cons c' pre'')
        with pm have "pattern_match cs pre'' code' rest'"
          by (simp add: pattern_match_Cons_Cons)
        with IH(5) Cons show ?thesis by auto
      qed
    qed
    have "FindStringSubmatch (c # cs) = [whole, code, rest]"
      by (simp add: None IH(1))
    moreover have "pattern_match (c # cs) (c # pre) code rest"
      using IH(3) by (simp add: pattern_match_Cons_Cons)
    ultimately show ?thesis
      using IH(2,4) least
      by (intro exI [of _ "c # pre"] exI [of _ whole] exI [of _ code] exI [of _ rest]) simp
  qed
qed

lemma productCodeAndDescription_cases:
  fixes row :: "string \<rightharpoonup> string"
  defines "pc \<equiv> TrimSpace (lookup row ''Product Code'')"
    and "pd \<equiv> TrimSpace (lookup row ''Product Description'')"
  shows "(length pc > 6 \<and> length pd = 0 \<and> (\<exists>pre code rest. pattern_match pc pre code rest) \<longrightarrow>
            (\<exists>pre. pattern_match pc pre (fst (productCodeAndDescription row))
                       (snd (productCodeAndDescription row))
                 \<and> (\<forall>pre' code' rest'. pattern_match pc pre' code' rest'
                        \<longrightarrow> length pre \<le> length pre'))
            \<and> (snd (productCodeAndDescription row) = []
                 \<or> \<not> isSep (hd (snd (productCodeAndDescription row)))))
       \<and> (length pc > 6 \<and> length pd = 0 \<and> \<not> (\<exists>pre code rest. pattern_match pc pre code rest) \<longrightarrow>
            productCodeAndDescription row = (pc, pd))
       \<and> (\<not> (length pc > 6 \<and> length pd = 0) \<longrightarrow> productCodeAndDescription row = (pc, pd))"
proof (intro conjI impI; (elim conjE)?)
  assume c: "length pc > 6" "length pd = 0" and ex: "\<exists>pre code rest. pattern_match pc pre code rest"
  then have "FindStringSubmatch pc \<noteq> []"
    by (simp add: FindStringSubmatch_Nil)
  from FindStringSubmatch_groups [OF this] obtain pre whole code rest where
    g: "FindStringSubmatch pc = [whole, code, rest]" "pattern_match pc pre code rest"
      "rest = [] \<or> \<not> isSep (hd rest)"
      "\<forall>pre' code' rest'. pattern_match pc pre' code' rest' \<longrightarrow> length pre \<le> length pre'"
    by blast
  from c g(1) have res: "productCodeAndDescription row = (code, rest)"
    by (simp add: productCodeAndDescription_def Let_def pc_def [symmetric] pd_def [symmetric])
  from g(2,4) show "\<exists>pre. pattern_match pc pre (fst (productCodeAndDescription row))
                       (snd (productCodeAndDescription row))
                 \<and> (\<forall>pre' code' rest'. pattern_match pc pre' code' rest'
                        \<longrightarrow> length pre \<le> length pre')"
    unfolding res by auto
  from g(3) show "snd (productCodeAndDescription row) = []
                 \<or> \<not> isSep (hd (snd (productCodeAndDescription row)))"
    unfolding res by simp
next
  assume c: "length pc > 6" "length pd = 0" and "\<not> (\<exists>pre code rest. pattern_match pc pre code rest)"
  then have "FindStringSubmatch pc = []"
    by (simp add: FindStringSubmatch_Nil)
  with c show "productCodeAndDescription row = (pc, pd)"
    by (simp add: productCodeAndDescription_def Let_def pc_def [symmetric] pd_def [symmetric])
next
  assume "\<not> (length pc > 6 \<and> length pd = 0)"
  then show "productCodeAndDescription row = (pc, pd)"
    by (auto simp: productCodeAndDescription_def Let_def pc_def [symmetric] pd_def [symmetric])
qed

section \<open>Grid references\<close>

lemma decode_size:
  "s \<noteq> [] \<Longrightarrow> 0 < snd (DecodeRuneInString s) \<and> snd (DecodeRuneInString s) \<le> length s"
  by (cases s) (auto simp: Let_def split: list.splits)

text \<open>A rune that decodes without error decodes the same whatever follows its bytes.\<close>

lemma decode_stable:
  assumes "DecodeRuneInString s = (r, n)" and "s \<noteq> []" and "\<not> (r = RuneError \<and> n = 1)"
  shows "DecodeRuneInString (take n s @ t) = (r, n)"
proof -
  from assms(2) obtain c0 cs where s: "s = c0 # cs" by (cases s) auto
  show ?thesis
    using assms(1,3) unfolding s
    by (auto simp: Let_def split: if_splits list.splits)
qed


lemma runes_Nil: "runes [] = []"
  by (simp add: runes.simps)

lemma runes_Cons:
  "s \<noteq> [] \<Longrightarrow>
   runes s = (fst (DecodeRuneInString s), take (snd (DecodeRuneInString s)) s)
               # runes (drop (snd (DecodeRuneInString s)) s)"
  by (subst runes.simps) simp

lemma runes_sound_append:
  assumes "sound_rune (r, bytes)"
  shows "runes (bytes @ t) = (r, bytes) # runes t"
proof -
  from assms have b: "bytes \<noteq> []" and d: "DecodeRuneInString (bytes @ t) = (r, length bytes)"
    by (simp_all add: sound_rune_def)
  from b have "bytes @ t \<noteq> []" by simp
  from runes_Cons [OF this] d show ?thesis by simp
qed

lemma runes_concat:
  "\<forall>u \<in> set us. sound_rune u \<Longrightarrow> runes (concat (map snd us)) = us"
proof (induction us)
  case Nil
  then show ?case by (simp add: runes_Nil)
next
  case (Cons u us)
  obtain r bytes where u: "u = (r, bytes)" by (cases u)
  from Cons.prems have "sound_rune (r, bytes)" by (simp add: u)
  from runes_sound_append [OF this] Cons show ?case by (simp add: u)
qed

lemma ValidString_sound:
  "ValidString s \<Longrightarrow> \<forall>u \<in> set (runes s). sound_rune u"
proof (induction s rule: runes.induct)
  case (1 s)
  show ?case
  proof (cases "s = []")
    case True
    then show ?thesis by (simp add: runes_Nil)
  next
    case False
    obtain r n where d: "DecodeRuneInString s = (r, n)"
      by (cases "DecodeRuneInString s")
    from decode_size [OF False] d have n: "0 < n" "n \<le> length s" by simp_all
    from runes_Cons [OF False] d have unfold: "runes s = (r, take n s) # runes (drop n s)"
      by simp
    from "1.prems" unfold n have ok: "\<not> (r = RuneError \<and> n = 1)" and rest: "ValidString (drop n s)"
      by (simp_all add: ValidString_def min_absorb2)
    have "sound_rune (r, take n s)"
      using decode_stable [OF d False ok] n False by (simp add: sound_rune_def min_absorb2)
    moreover from "1.IH" [OF False] rest d have "\<forall>u \<in> set (runes (drop n s)). sound_rune u"
      by simp
    ultimately show ?thesis by (simp add: unfold)
  qed
qed

text \<open>Joining the fields with nothing between them leaves the runes that are no white space.\<close>

lemma Join_empty: "Join xs [] = concat xs"
  by (induction xs "[] :: string" rule: Join.induct) simp_all

lemma concat_Fields_loop:
  "concat (Fields_loop us field)
     = field @ concat (map snd (filter (\<lambda>(r, bytes). \<not> IsSpace r) us))"
proof (induction us arbitrary: field)
  case Nil
  then show ?case by simp
next
  case (Cons u us)
  obtain r bytes where u: "u = (r, bytes)" by (cases u)
  show ?case using Cons.IH [of "[]"] Cons.IH [of "field @ bytes"] by (simp add: u)
qed

lemma Join_Fields:
  "Join (Fields s) '''' = concat (map snd (filter (\<lambda>(r, bytes). \<not> IsSpace r) (runes s)))"
  by (simp add: Join_empty Fields_def concat_Fields_loop)

lemma runes_Join_Fields:
  assumes "ValidString s"
  shows "runes (Join (Fields s) '''') = filter (\<lambda>(r, bytes). \<not> IsSpace r) (runes s)"
proof -
  from ValidString_sound [OF assms]
  have "\<forall>u \<in> set (filter (\<lambda>(r, bytes). \<not> IsSpace r) (runes s)). sound_rune u"
    by simp
  from runes_concat [OF this] show ?thesis
    by (simp add: Join_Fields)
qed

lemma Join_Fields_idem:
  assumes "ValidString s"
  shows "Join (Fields (Join (Fields s) '''')) '''' = Join (Fields s) ''''"
proof -
  let ?keep = "filter (\<lambda>(r, bytes). \<not> IsSpace r)"
  have "Join (Fields (Join (Fields s) '''')) '''' = concat (map snd (?keep (runes (Join (Fields s) ''''))))"
    by (rule Join_Fields)
  also have "\<dots> = concat (map snd (?keep (?keep (runes s))))"
    by (simp only: runes_Join_Fields [OF assms])
  also have "\<dots> = Join (Fields s) ''''"
    by (simp add: Join_Fields)
  finally show ?thesis .
qed

section \<open>The tidied fields of a part_000 row\<close>

lemma newLicenceRow_p0_literal_tidied:
  "LicenceRow_p0.ProductCode (newLicenceRow_p0_literal row pc pd lc ngr :: ('f::zero) LicenceRow_p0) = pc"
  "LicenceRow_p0.ProductDescription (newLicenceRow_p0_literal row pc pd lc ngr :: ('f::zero) LicenceRow_p0) = pd"
  "LicenceRow_p0.LicenseeCompany (newLicenceRow_p0_literal row pc pd lc ngr :: ('f::zero) LicenceRow_p0) = lc"
  "LicenceRow_p0.NGR (newLicenceRow_p0_literal row pc pd lc ngr :: ('f::zero) LicenceRow_p0) = ngr"
  by (simp_all add: newLicenceRow_p0_literal_def)

lemma newLicenceRow_p0_tidied:
  assumes "newLicenceRow_p0 ParseFloat row = Inr licenceRow"
  shows "LicenceRow_p0.ProductCode licenceRow = fst (productCodeAndDescription row)"
    and "LicenceRow_p0.ProductDescription licenceRow = snd (productCodeAndDescription row)"
    and "LicenceRow_p0.LicenseeCompany licenceRow = tweakCompanyName row"
    and "LicenceRow_p0.NGR licenceRow = Join (Fields (lookup row ''NGR'')) ''''"
  using assms
  by (auto simp: newLicenceRow_p0_def andThen_def Let_def split_beta newLicenceRow_p0_literal_tidied
      split: if_splits sum.splits)

lemma newLicenceRow_p0_absent:
  assumes "''OSGB36 E'' \<notin> dom row" and "''OSGB36 N'' \<notin> dom row"
    and "''WGS84 E'' \<notin> dom row" and "''WGS84 N'' \<notin> dom row"
  shows "newLicenceRow_p0 ParseFloat row
           = Inr (newLicenceRow_p0_literal row (fst (productCodeAndDescription row))
                    (snd (productCodeAndDescription row)) (tweakCompanyName row)
                    (Join (Fields (lookup row ''NGR'')) ''''))"
  using assms by (simp add: newLicenceRow_p0_def andThen_def Let_def split_beta)

text \<open>
  \<^verbatim>\<open>newLicenceRow\<close> reads the column NGR only through its normalisation, and no other
  column through it.
\<close>

lemma newLicenceRow_p0_cong:
  assumes others: "\<forall>k. k \<noteq> ''NGR'' \<longrightarrow> row' k = row k"
    and ngr: "Join (Fields (lookup row' ''NGR'')) '''' = Join (Fields (lookup row ''NGR'')) ''''"
  shows "newLicenceRow_p0 ParseFloat row' = newLicenceRow_p0 ParseFloat row"
proof -
  have l: "lookup row' k = lookup row k" if "k \<noteq> ''NGR''" for k
    using that others by (simp add: lookup_def)
  have d: "k \<in> dom row' \<longleftrightarrow> k \<in> dom row" if "k \<noteq> ''NGR''" for k
    using that others by (simp add: dom_def)
  have 1: "productCodeAndDescription row' = productCodeAndDescription row"
    by (simp add: productCodeAndDescription_def l)
  have 2: "tweakCompanyName row' = tweakCompanyName row"
    by (simp add: tweakCompanyName_def l)
  have 3: "(newLicenceRow_p0_literal row' pc pd lc n :: 'a LicenceRow_p0)
             = newLicenceRow_p0_literal row pc pd lc n" for pc pd lc n
    by (simp add: newLicenceRow_p0_literal_def l)
  show ?thesis
    by (simp add: newLicenceRow_p0_def 1 2 3 ngr l d cong: if_cong)
qed

text \<open>wtrcsv.go and part_001 store the column NGR as it was read.\<close>

lemma newRow_NGR:
  assumes "newRow ParseFloat columns = Inr row"
  shows "NGR row = lookup columns ''NGR''"
proof -
  obtain e n los lo las la where row: "row = (newRow_literal columns)
           \<lparr>OsEasting := e, OsNorthing := n, Wgs84LongitudeAsString := los,
            Wgs84Longitude := lo, Wgs84LatitudeAsString := las, Wgs84Latitude := la\<rparr>"
    using newRow_shape [OF assms] by blast
  show ?thesis
    unfolding row by (simp add: newRow_literal_def)
qed

lemma newLicenceRow_p1_literal_NGR:
  "LicenceRow_p1.NGR (newLicenceRow_p1_literal row :: ('f::zero) LicenceRow_p1) = lookup row ''NGR''"
  by (simp add: newLicenceRow_p1_literal_def)

lemma newLicenceRow_p1_NGR:
  assumes "newLicenceRow_p1 ParseFloat row = Inr licenceRow"
  shows "LicenceRow_p1.NGR licenceRow = lookup row ''NGR''"
  using assms
  by (auto simp: newLicenceRow_p1_def andThen_def Let_def newLicenceRow_p1_literal_NGR
      split: if_splits sum.splits)

text \<open>
  In part_000 the NGR field is the raw value's runes that are no white space. For a raw
  value that is valid UTF-8 it reads back as those runes, and the row built from the
  normalised value is the same row.
\<close>

lemma newLicenceRow_p0_NGR:
  assumes r: "newLicenceRow_p0 ParseFloat row = Inr licenceRow"
  shows "LicenceRow_p0.NGR licenceRow
       = concat (map snd (filter (\<lambda>(r, bytes). \<not> IsSpace r) (runes (lookup row ''NGR''))))
     \<and> (ValidString (lookup row ''NGR'') \<longrightarrow>
          runes (LicenceRow_p0.NGR licenceRow)
            = filter (\<lambda>(r, bytes). \<not> IsSpace r) (runes (lookup row ''NGR''))
        \<and> list_all (\<lambda>(r, bytes). \<not> IsSpace r) (runes (LicenceRow_p0.NGR licenceRow))
        \<and> newLicenceRow_p0 ParseFloat (row(''NGR'' \<mapsto> LicenceRow_p0.NGR licenceRow))
            = Inr licenceRow)"
proof -
  let ?raw = "lookup row ''NGR''"
  have ngr: "LicenceRow_p0.NGR licenceRow = Join (Fields ?raw) ''''"
    by (rule newLicenceRow_p0_tidied(4) [OF r])
  have 1: "LicenceRow_p0.NGR licenceRow
             = concat (map snd (filter (\<lambda>(r, bytes). \<not> IsSpace r) (runes ?raw)))"
    by (simp only: ngr Join_Fields)
  have 2: "runes (LicenceRow_p0.NGR licenceRow) = filter (\<lambda>(r, bytes). \<not> IsSpace r) (runes ?raw)"
    and 3: "list_all (\<lambda>(r, bytes). \<not> IsSpace r) (runes (LicenceRow_p0.NGR licenceRow))"
    and 4: "newLicenceRow_p0 ParseFloat (row(''NGR'' \<mapsto> LicenceRow_p0.NGR licenceRow)) = Inr licenceRow"
    if valid: "ValidString ?raw"
  proof -
    show 2: "runes (LicenceRow_p0.NGR licenceRow) = filter (\<lambda>(r, bytes). \<not> IsSpace r) (runes ?raw)"
      by (simp only: ngr runes_Join_Fields [OF valid])
    show "list_all (\<lambda>(r, bytes). \<not> IsSpace r) (runes (LicenceRow_p0.NGR licenceRow))"
      by (simp add: 2 list_all_iff)
    have "newLicenceRow_p0 ParseFloat (row(''NGR'' \<mapsto> LicenceRow_p0.NGR licenceRow))
            = newLicenceRow_p0 ParseFloat row"
      by (rule newLicenceRow_p0_cong) (simp_all add: lookup_def ngr [unfolded lookup_def]
          Join_Fields_idem [OF valid, unfolded lookup_def])
    then show "newLicenceRow_p0 ParseFloat (row(''NGR'' \<mapsto> LicenceRow_p0.NGR licenceRow)) = Inr licenceRow"
      by (simp add: r)
  qed
  from 1 2 3 4 show ?thesis by blast
qed


section \<open>The claims on the tidying of a row\<close>

text \<open>
  C6, as the claim states it, fails in two ways. wtrcsv.go and part_001 do not normalise
  at all: the raw value \<^verbatim>\<open>"SU 123 456"\<close> is stored with its spaces. part_000 normalises,
  but not every raw value: the three bytes C2 20 A0 are read as an invalid byte, a space
  and an invalid byte, so the normalised value is C2 A0; these two bytes are the encoding
  of U+00A0, a white space character, and normalising them gives the empty string.
\<close>

theorem C6_counterexample:
  "map_sum id NGR
      (newRow (\<lambda>s. Inl (NumError ''ParseFloat'' s) :: error + int)
         [''NGR'' \<mapsto> ''SU 123 456''])
     = Inr ''SU 123 456''
   \<and> map_sum id LicenceRow_p1.NGR
      (newLicenceRow_p1 (\<lambda>s. Inl (NumError ''ParseFloat'' s) :: error + int)
         [''NGR'' \<mapsto> ''SU 123 456''])
     = Inr ''SU 123 456''
   \<and> map_sum id LicenceRow_p0.NGR
      (newLicenceRow_p0 (\<lambda>s. Inl (NumError ''ParseFloat'' s) :: error + int)
         [''NGR'' \<mapsto> [CHR 0xC2, CHR 0x20, CHR 0xA0]])
     = Inr [CHR 0xC2, CHR 0xA0]
   \<and> map (\<lambda>(r, bytes). IsSpace r) (runes [CHR 0xC2, CHR 0xA0]) = [True]
   \<and> map_sum id LicenceRow_p0.NGR
      (newLicenceRow_p0 (\<lambda>s. Inl (NumError ''ParseFloat'' s) :: error + int)
         [''NGR'' \<mapsto> [CHR 0xC2, CHR 0xA0]])
     = Inr []"
proof -
  let ?pf = "\<lambda>s. Inl (NumError ''ParseFloat'' s) :: error + int"
  have 1: "Join (Fields [CHR 0xC2, CHR 0x20, CHR 0xA0]) '''' = [CHR 0xC2, CHR 0xA0]"
    by (simp add: Fields_def runes.simps byteIn_def IsSpace_def RuneError_def Let_def)
  have 2: "runes [CHR 0xC2, CHR 0xA0] = [(0xA0, [CHR 0xC2, CHR 0xA0])]"
    by (simp add: runes.simps byteIn_def Let_def)
  have 3: "Join (Fields [CHR 0xC2, CHR 0xA0]) '''' = []"
    by (simp add: Fields_def 2 IsSpace_def)
  have a: "newLicenceRow_p0 ?pf [''NGR'' \<mapsto> [CHR 0xC2, CHR 0x20, CHR 0xA0]]
             = Inr (newLicenceRow_p0_literal [''NGR'' \<mapsto> [CHR 0xC2, CHR 0x20, CHR 0xA0]]
                     (fst (productCodeAndDescription [''NGR'' \<mapsto> [CHR 0xC2, CHR 0x20, CHR 0xA0]]))
                     (snd (productCodeAndDescription [''NGR'' \<mapsto> [CHR 0xC2, CHR 0x20, CHR 0xA0]]))
                     (tweakCompanyName [''NGR'' \<mapsto> [CHR 0xC2, CHR 0x20, CHR 0xA0]])
                     [CHR 0xC2, CHR 0xA0])"
    by (subst newLicenceRow_p0_absent) (simp_all add: lookup_def 1)
  have b: "newLicenceRow_p0 ?pf [''NGR'' \<mapsto> [CHR 0xC2, CHR 0xA0]]
             = Inr (newLicenceRow_p0_literal [''NGR'' \<mapsto> [CHR 0xC2, CHR 0xA0]]
                     (fst (productCodeAndDescription [''NGR'' \<mapsto> [CHR 0xC2, CHR 0xA0]]))
                     (snd (productCodeAndDescription [''NGR'' \<mapsto> [CHR 0xC2, CHR 0xA0]]))
                     (tweakCompanyName [''NGR'' \<mapsto> [CHR 0xC2, CHR 0xA0]])
                     [])"
    by (subst newLicenceRow_p0_absent) (simp_all add: lookup_def 3)
  have c: "newRow ?pf [''NGR'' \<mapsto> ''SU 123 456'']
             = Inr (newRow_literal [''NGR'' \<mapsto> ''SU 123 456''])"
    by (simp add: newRow_def andThen_def Let_def HeadingOsEasting_def HeadingOsNorthing_def
        HeadingWgs84Longitude_def HeadingWgs84Latitude_def)
  have d: "newLicenceRow_p1 ?pf [''NGR'' \<mapsto> ''SU 123 456'']
             = Inr (newLicenceRow_p1_literal [''NGR'' \<mapsto> ''SU 123 456''])"
    by (simp add: newLicenceRow_p1_def andThen_def Let_def HeadingOsgb36E_def HeadingOsgb36N_def
        HeadingWgs84Long_def HeadingWgs84Lat_def)
  have e: "NGR (newRow_literal [''NGR'' \<mapsto> ''SU 123 456''] :: int Row) = ''SU 123 456''"
    using newRow_NGR [OF c] by (simp add: lookup_def)
  show ?thesis
    by (simp add: a b c d e 2 IsSpace_def newLicenceRow_p0_literal_tidied
        newLicenceRow_p1_literal_NGR lookup_def)
qed

text \<open>
  C6, amended. In part_000 the NGR field of a row is the raw value's runes that are no
  white space, written one after the other; when the raw value is valid UTF-8, the NGR
  field reads back as exactly those runes, so it holds no white space, and parsing the
  row again with the NGR field as its raw value gives the same row. In part_001 and in
  wtrcsv.go the NGR field is the raw value, unchanged.
\<close>

theorem C6_NGR_normalised:
  "(newLicenceRow_p0 ParseFloat row = Inr licenceRow \<longrightarrow>
      LicenceRow_p0.NGR licenceRow
        = concat (map snd (filter (\<lambda>(r, bytes). \<not> IsSpace r) (runes (lookup row ''NGR''))))
      \<and> (ValidString (lookup row ''NGR'') \<longrightarrow>
           runes (LicenceRow_p0.NGR licenceRow)
             = filter (\<lambda>(r, bytes). \<not> IsSpace r) (runes (lookup row ''NGR''))
         \<and> list_all (\<lambda>(r, bytes). \<not> IsSpace r) (runes (LicenceRow_p0.NGR licenceRow))
         \<and> newLicenceRow_p0 ParseFloat (row(''NGR'' \<mapsto> LicenceRow_p0.NGR licenceRow))
             = Inr licenceRow))
   \<and> (newLicenceRow_p1 ParseFloat row = Inr licenceRow' \<longrightarrow>
        LicenceRow_p1.NGR licenceRow' = lookup row ''NGR'')
   \<and> (newRow ParseFloat row = Inr row' \<longrightarrow> NGR row' = lookup row ''NGR'')"
  using newLicenceRow_p0_NGR [of ParseFloat row licenceRow]
    newLicenceRow_p1_NGR [of ParseFloat row licenceRow'] newRow_NGR [of ParseFloat row row']
  by blast

theorem C6_NGR_normalised_witness:
  "(\<exists>licenceRow.
      newLicenceRow_p0 (\<lambda>s. Inl (NumError ''ParseFloat'' s) :: error + int)
        [''NGR'' \<mapsto> ''SU 123 456''] = Inr licenceRow
    \<and> ValidString ''SU 123 456''
    \<and> LicenceRow_p0.NGR licenceRow = ''SU123456''
    \<and> list_all (\<lambda>(r, bytes). \<not> IsSpace r) (runes (LicenceRow_p0.NGR licenceRow))
    \<and> newLicenceRow_p0 (\<lambda>s. Inl (NumError ''ParseFloat'' s) :: error + int)
        [''NGR'' \<mapsto> ''SU123456''] = Inr licenceRow)
   \<and> (\<exists>licenceRow.
      newLicenceRow_p1 (\<lambda>s. Inl (NumError ''ParseFloat'' s) :: error + int)
        [''NGR'' \<mapsto> ''SU 123 456''] = Inr licenceRow
    \<and> LicenceRow_p1.NGR licenceRow = ''SU 123 456'')
   \<and> (\<exists>row.
      newRow (\<lambda>s. Inl (NumError ''ParseFloat'' s) :: error + int)
        [''NGR'' \<mapsto> ''SU 123 456''] = Inr row
    \<and> NGR row = ''SU 123 456'')"
proof -
  let ?pf = "\<lambda>s. Inl (NumError ''ParseFloat'' s) :: error + int"
  let ?row = "[''NGR'' \<mapsto> ''SU 123 456'']"
  note C6 = C6_NGR_normalised
  have "\<not> isl (newLicenceRow_p0 ?pf ?row)"
    by (subst newLicenceRow_p0_absent) simp_all
  then obtain licenceRow where r: "newLicenceRow_p0 ?pf ?row = Inr licenceRow"
    by (cases "newLicenceRow_p0 ?pf ?row") auto
  have "\<not> isl (newLicenceRow_p1 ?pf ?row)"
    by (simp add: newLicenceRow_p1_def andThen_def Let_def HeadingOsgb36E_def HeadingOsgb36N_def
        HeadingWgs84Long_def HeadingWgs84Lat_def)
  then obtain licenceRowB where rB: "newLicenceRow_p1 ?pf ?row = Inr licenceRowB"
    by (cases "newLicenceRow_p1 ?pf ?row") auto
  have "\<not> isl (newRow ?pf ?row)"
    by (simp add: newRow_def andThen_def Let_def HeadingOsEasting_def HeadingOsNorthing_def
        HeadingWgs84Longitude_def HeadingWgs84Latitude_def)
  then obtain rowC where rC: "newRow ?pf ?row = Inr rowC"
    by (cases "newRow ?pf ?row") auto
  have raw: "lookup ?row ''NGR'' = ''SU 123 456''"
    by (simp add: lookup_def)
  have valid: "ValidString ''SU 123 456''"
    by (simp add: ValidString_def runes.simps byteIn_def RuneError_def Let_def)
  have n: "Join (Fields ''SU 123 456'') '''' = ''SU123456''"
    by (simp add: Fields_def runes.simps byteIn_def IsSpace_def RuneError_def Let_def)
  from r valid C6 [where ParseFloat = ?pf and row = ?row and licenceRow = licenceRow,
      unfolded raw]
  have 1: "LicenceRow_p0.NGR licenceRow
             = concat (map snd (filter (\<lambda>(r, bytes). \<not> IsSpace r) (runes ''SU 123 456'')))"
    and 2: "list_all (\<lambda>(r, bytes). \<not> IsSpace r) (runes (LicenceRow_p0.NGR licenceRow))"
    and 3: "newLicenceRow_p0 ?pf (?row(''NGR'' \<mapsto> LicenceRow_p0.NGR licenceRow)) = Inr licenceRow"
    by blast+
  from 1 have 4: "LicenceRow_p0.NGR licenceRow = ''SU123456''"
    by (simp only: Join_Fields [symmetric] n)
  from 3 have 5: "newLicenceRow_p0 ?pf [''NGR'' \<mapsto> ''SU123456''] = Inr licenceRow"
    by (simp add: 4)
  from rB C6 [where ParseFloat = ?pf and row = ?row and licenceRow' = licenceRowB, unfolded raw]
  have 6: "LicenceRow_p1.NGR licenceRowB = ''SU 123 456''"
    by blast
  from rC C6 [where ParseFloat = ?pf and row = ?row and row' = rowC, unfolded raw]
  have 7: "NGR rowC = ''SU 123 456''"
    by blast
  from r valid 4 2 5 rB 6 rC 7 show ?thesis by blast
qed


text \<open>
  C7. In part_000, when the trimmed product code is longer than 6 bytes and the trimmed
  product description is empty, and the code matches the pattern somewhere, the row's
  ProductCode and ProductDescription are the two groups of the leftmost match, the run of
  dashes and spaces between them taken as long as it goes; when the code matches nowhere,
  and when the condition does not hold, the two trimmed values are stored as they are.
  The split raises no error: \<^verbatim>\<open>newLicenceRow\<close> fails only on an externally added
  column whose value does not parse.
\<close>

theorem C7_product_code_split:
  fixes row :: "string \<rightharpoonup> string"
  defines "pc \<equiv> TrimSpace (lookup row ''Product Code'')"
    and "pd \<equiv> TrimSpace (lookup row ''Product Description'')"
  shows "(newLicenceRow_p0 ParseFloat row = Inr licenceRow \<longrightarrow>
            (length pc > 6 \<and> length pd = 0 \<and> (\<exists>pre code rest. pattern_match pc pre code rest) \<longrightarrow>
               (\<exists>pre. pattern_match pc pre (LicenceRow_p0.ProductCode licenceRow)
                          (LicenceRow_p0.ProductDescription licenceRow)
                    \<and> (\<forall>pre' code' rest'. pattern_match pc pre' code' rest'
                           \<longrightarrow> length pre \<le> length pre'))
               \<and> (LicenceRow_p0.ProductDescription licenceRow = []
                    \<or> \<not> isSep (hd (LicenceRow_p0.ProductDescription licenceRow))))
          \<and> (length pc > 6 \<and> length pd = 0 \<and> \<not> (\<exists>pre code rest. pattern_match pc pre code rest) \<longrightarrow>
               LicenceRow_p0.ProductCode licenceRow = pc
               \<and> LicenceRow_p0.ProductDescription licenceRow = pd)
          \<and> (\<not> (length pc > 6 \<and> length pd = 0) \<longrightarrow>
               LicenceRow_p0.ProductCode licenceRow = pc
               \<and> LicenceRow_p0.ProductDescription licenceRow = pd))
       \<and> (isl (newLicenceRow_p0 ParseFloat row) \<longrightarrow>
            (''OSGB36 E'' \<in> dom row \<and> isl (Atoi (lookup row ''OSGB36 E'')))
          \<or> (''OSGB36 N'' \<in> dom row \<and> isl (Atoi (lookup row ''OSGB36 N'')))
          \<or> (''WGS84 E'' \<in> dom row \<and> isl (ParseFloat (lookup row ''WGS84 E'')))
          \<or> (''WGS84 N'' \<in> dom row \<and> isl (ParseFloat (lookup row ''WGS84 N''))))"
proof (intro conjI impI)
  assume "isl (newLicenceRow_p0 ParseFloat row)"
  then show "(''OSGB36 E'' \<in> dom row \<and> isl (Atoi (lookup row ''OSGB36 E'')))
          \<or> (''OSGB36 N'' \<in> dom row \<and> isl (Atoi (lookup row ''OSGB36 N'')))
          \<or> (''WGS84 E'' \<in> dom row \<and> isl (ParseFloat (lookup row ''WGS84 E'')))
          \<or> (''WGS84 N'' \<in> dom row \<and> isl (ParseFloat (lookup row ''WGS84 N'')))"
    by (simp add: newLicenceRow_p0_def andThen_def Let_def split_beta split: sum.splits if_splits)
next
  assume r: "newLicenceRow_p0 ParseFloat row = Inr licenceRow"
  note f = newLicenceRow_p0_tidied(1,2) [OF r]
  note cases = productCodeAndDescription_cases [of row, folded pc_def pd_def]
  {
    assume "length pc > 6 \<and> length pd = 0 \<and> (\<exists>pre code rest. pattern_match pc pre code rest)"
    with cases show "\<exists>pre. pattern_match pc pre (LicenceRow_p0.ProductCode licenceRow)
                          (LicenceRow_p0.ProductDescription licenceRow)
                    \<and> (\<forall>pre' code' rest'. pattern_match pc pre' code' rest'
                           \<longrightarrow> length pre \<le> length pre')"
      and "LicenceRow_p0.ProductDescription licenceRow = []
             \<or> \<not> isSep (hd (LicenceRow_p0.ProductDescription licenceRow))"
      unfolding f by blast+
  }
  {
    assume "length pc > 6 \<and> length pd = 0 \<and> \<not> (\<exists>pre code rest. pattern_match pc pre code rest)"
    with cases have "productCodeAndDescription row = (pc, pd)" by blast
    then show "LicenceRow_p0.ProductCode licenceRow = pc"
      and "LicenceRow_p0.ProductDescription licenceRow = pd"
      by (simp_all add: f)
  }
  {
    assume "\<not> (length pc > 6 \<and> length pd = 0)"
    with cases have "productCodeAndDescription row = (pc, pd)" by blast
    then show "LicenceRow_p0.ProductCode licenceRow = pc"
      and "LicenceRow_p0.ProductDescription licenceRow = pd"
      by (simp_all add: f)
  }
qed

theorem C7_product_code_split_witness:
  "(\<exists>licenceRow.
      newLicenceRow_p0 (\<lambda>s. Inl (NumError ''ParseFloat'' s) :: error + int)
        [''Product Code'' \<mapsto> '' 301010 - Fixed Link ''] = Inr licenceRow
    \<and> LicenceRow_p0.ProductCode licenceRow = ''301010''
    \<and> LicenceRow_p0.ProductDescription licenceRow = ''Fixed Link''
    \<and> (\<exists>pre. pattern_match ''301010 - Fixed Link'' pre (LicenceRow_p0.ProductCode licenceRow)
                (LicenceRow_p0.ProductDescription licenceRow)))
   \<and> (\<exists>licenceRow.
      newLicenceRow_p0 (\<lambda>s. Inl (NumError ''ParseFloat'' s) :: error + int)
        [''Product Code'' \<mapsto> ''Fixed Links''] = Inr licenceRow
    \<and> LicenceRow_p0.ProductCode licenceRow = ''Fixed Links''
    \<and> LicenceRow_p0.ProductDescription licenceRow = '''')
   \<and> (\<exists>licenceRow.
      newLicenceRow_p0 (\<lambda>s. Inl (NumError ''ParseFloat'' s) :: error + int)
        [''Product Code'' \<mapsto> ''301010'', ''Product Description'' \<mapsto> ''Fixed Link'']
        = Inr licenceRow
    \<and> LicenceRow_p0.ProductCode licenceRow = ''301010''
    \<and> LicenceRow_p0.ProductDescription licenceRow = ''Fixed Link'')
   \<and> isl (newLicenceRow_p0 (\<lambda>s. Inl (NumError ''ParseFloat'' s) :: error + int)
        [''OSGB36 E'' \<mapsto> ''12x''])
   \<and> isl (Atoi ''12x'')"
proof -
  let ?pf = "\<lambda>s. Inl (NumError ''ParseFloat'' s) :: error + int"
  let ?a = "[''Product Code'' \<mapsto> '' 301010 - Fixed Link '']"
  let ?b = "[''Product Code'' \<mapsto> ''Fixed Links'']"
  let ?c = "[''Product Code'' \<mapsto> ''301010'', ''Product Description'' \<mapsto> ''Fixed Link'']"
  let ?d = "[''OSGB36 E'' \<mapsto> ''12x'']"
  note C7 = C7_product_code_split
  note trim = runes.simps TrimLeft.simps TrimRight.simps TrimSpace_def DecodeLastRuneInString_def
    RuneStart_def byteIn_def IsSpace_def RuneError_def Let_def
  have "\<not> isl (newLicenceRow_p0 ?pf ?a)"
    by (subst newLicenceRow_p0_absent) simp_all
  then obtain r1 where r1: "newLicenceRow_p0 ?pf ?a = Inr r1"
    by (cases "newLicenceRow_p0 ?pf ?a") auto
  have "\<not> isl (newLicenceRow_p0 ?pf ?b)"
    by (subst newLicenceRow_p0_absent) simp_all
  then obtain r2 where r2: "newLicenceRow_p0 ?pf ?b = Inr r2"
    by (cases "newLicenceRow_p0 ?pf ?b") auto
  have "\<not> isl (newLicenceRow_p0 ?pf ?c)"
    by (subst newLicenceRow_p0_absent) simp_all
  then obtain r3 where r3: "newLicenceRow_p0 ?pf ?c = Inr r3"
    by (cases "newLicenceRow_p0 ?pf ?c") auto
  have ta: "TrimSpace (lookup ?a ''Product Code'') = ''301010 - Fixed Link''"
    "TrimSpace (lookup ?a ''Product Description'') = ''''"
    by (simp_all add: lookup_def trim)
  have tb: "TrimSpace (lookup ?b ''Product Code'') = ''Fixed Links''"
    "TrimSpace (lookup ?b ''Product Description'') = ''''"
    by (simp_all add: lookup_def trim)
  have tc: "TrimSpace (lookup ?c ''Product Code'') = ''301010''"
    "TrimSpace (lookup ?c ''Product Description'') = ''Fixed Link''"
    by (simp_all add: lookup_def trim)
  have ma: "pattern_match ''301010 - Fixed Link'' [] ''301010'' ''Fixed Link''"
    unfolding pattern_match_def
    by (rule exI [of _ "'' - ''"]) (simp add: isDigit_def isSep_def)
  have fa: "FindStringSubmatch ''301010 - Fixed Link''
              = [''301010 - Fixed Link'', ''301010'', ''Fixed Link'']"
    by (simp add: matchAt_def isDigit_def isSep_def)
  have fb: "FindStringSubmatch ''Fixed Links'' = []"
    by (simp add: matchAt_def isDigit_def isSep_def)
  have mb: "\<not> (\<exists>pre code rest. pattern_match ''Fixed Links'' pre code rest)"
    using fb by (simp only: FindStringSubmatch_Nil) blast
  have pa: "productCodeAndDescription ?a = (''301010'', ''Fixed Link'')"
    by (simp add: productCodeAndDescription_def ta fa Let_def del: FindStringSubmatch.simps)
  have 1: "LicenceRow_p0.ProductCode r1 = ''301010''"
    "LicenceRow_p0.ProductDescription r1 = ''Fixed Link''"
    using newLicenceRow_p0_tidied(1,2) [OF r1] by (simp_all add: pa)
  have 2: "\<exists>pre. pattern_match ''301010 - Fixed Link'' pre (LicenceRow_p0.ProductCode r1)
                (LicenceRow_p0.ProductDescription r1)"
    using C7 [of ?pf ?a r1, unfolded ta] r1 ma by auto
  have 3: "LicenceRow_p0.ProductCode r2 = ''Fixed Links''
             \<and> LicenceRow_p0.ProductDescription r2 = ''''"
    using C7 [of ?pf ?b r2, unfolded tb] r2 mb by simp
  have 4: "LicenceRow_p0.ProductCode r3 = ''301010''
             \<and> LicenceRow_p0.ProductDescription r3 = ''Fixed Link''"
    using C7 [of ?pf ?c r3, unfolded tc] r3 by simp
  have 5: "isl (newLicenceRow_p0 ?pf ?d)"
    by (simp add: newLicenceRow_p0_def andThen_def Let_def split_beta lookup_def Atoi_def
        isDigit_def)
  have 6: "isl (Atoi ''12x'')"
    using C7 [of ?pf ?d] 5 by (simp add: lookup_def)
  from r1 r2 r3 1 2 3 4 5 6 show ?thesis by blast
qed

text \<open>
  C8. In part_000 the two full company names are rewritten to their short forms. Any
  other name goes through the four replacements in the order of the source, each one
  replacing the first occurrence of its text, if there is one, in the outcome of the
  one before it; the comparison is byte by byte, so it tells upper case from lower case.
\<close>

theorem C8_company_name_abbreviated:
  "newLicenceRow_p0 ParseFloat row = Inr licenceRow \<Longrightarrow>
     (lookup row ''Licencee Company'' = ''BRITISH TELECOMMUNICATIONS PUBLIC LIMITED COMPANY''
        \<longrightarrow> LicenceRow_p0.LicenseeCompany licenceRow = ''BT PLC'')
     \<and> (lookup row ''Licencee Company'' = ''MOBILE BROADBAND NETWORK LIMITED''
        \<longrightarrow> LicenceRow_p0.LicenseeCompany licenceRow = ''MBNL'')
     \<and> (lookup row ''Licencee Company'' \<noteq> ''BRITISH TELECOMMUNICATIONS PUBLIC LIMITED COMPANY''
        \<and> lookup row ''Licencee Company'' \<noteq> ''MOBILE BROADBAND NETWORK LIMITED''
        \<longrightarrow> (\<exists>t1 t2 t3.
               replaced_first ''Public Limited Company'' ''PLC'' (lookup row ''Licencee Company'') t1
             \<and> replaced_first ''PUBLIC LIMITED COMPANY'' ''PLC'' t1 t2
             \<and> replaced_first ''Limited'' ''Ltd'' t2 t3
             \<and> replaced_first ''LIMITED'' ''LTD'' t3 (LicenceRow_p0.LicenseeCompany licenceRow)))"
  using tweakCompanyName_cases [of row]
  by (simp only: newLicenceRow_p0_tidied(3))

theorem C8_company_name_abbreviated_witness:
  "(\<exists>licenceRow.
      newLicenceRow_p0 (\<lambda>s. Inl (NumError ''ParseFloat'' s) :: error + int)
        [''Licencee Company'' \<mapsto> ''BRITISH TELECOMMUNICATIONS PUBLIC LIMITED COMPANY'']
        = Inr licenceRow
    \<and> LicenceRow_p0.LicenseeCompany licenceRow = ''BT PLC'')
   \<and> (\<exists>licenceRow.
      newLicenceRow_p0 (\<lambda>s. Inl (NumError ''ParseFloat'' s) :: error + int)
        [''Licencee Company'' \<mapsto> ''MOBILE BROADBAND NETWORK LIMITED''] = Inr licenceRow
    \<and> LicenceRow_p0.LicenseeCompany licenceRow = ''MBNL'')
   \<and> (\<exists>licenceRow.
      newLicenceRow_p0 (\<lambda>s. Inl (NumError ''ParseFloat'' s) :: error + int)
        [''Licencee Company'' \<mapsto> ''Vodafone Limited Limited''] = Inr licenceRow
    \<and> LicenceRow_p0.LicenseeCompany licenceRow = ''Vodafone Ltd Limited''
    \<and> (\<exists>t1 t2 t3.
          replaced_first ''Public Limited Company'' ''PLC'' ''Vodafone Limited Limited'' t1
        \<and> replaced_first ''PUBLIC LIMITED COMPANY'' ''PLC'' t1 t2
        \<and> replaced_first ''Limited'' ''Ltd'' t2 t3
        \<and> replaced_first ''LIMITED'' ''LTD'' t3 (LicenceRow_p0.LicenseeCompany licenceRow)))"
proof -
  let ?pf = "\<lambda>s. Inl (NumError ''ParseFloat'' s) :: error + int"
  let ?bt = "[''Licencee Company'' \<mapsto> ''BRITISH TELECOMMUNICATIONS PUBLIC LIMITED COMPANY'']"
  let ?mbn = "[''Licencee Company'' \<mapsto> ''MOBILE BROADBAND NETWORK LIMITED'']"
  let ?vod = "[''Licencee Company'' \<mapsto> ''Vodafone Limited Limited'']"
  note C8 = C8_company_name_abbreviated
  have "\<not> isl (newLicenceRow_p0 ?pf ?bt)"
    by (subst newLicenceRow_p0_absent) simp_all
  then obtain r1 where r1: "newLicenceRow_p0 ?pf ?bt = Inr r1"
    by (cases "newLicenceRow_p0 ?pf ?bt") auto
  have "\<not> isl (newLicenceRow_p0 ?pf ?mbn)"
    by (subst newLicenceRow_p0_absent) simp_all
  then obtain r2 where r2: "newLicenceRow_p0 ?pf ?mbn = Inr r2"
    by (cases "newLicenceRow_p0 ?pf ?mbn") auto
  have "\<not> isl (newLicenceRow_p0 ?pf ?vod)"
    by (subst newLicenceRow_p0_absent) simp_all
  then obtain r3 where r3: "newLicenceRow_p0 ?pf ?vod = Inr r3"
    by (cases "newLicenceRow_p0 ?pf ?vod") auto
  have tw: "tweakCompanyName ?vod = ''Vodafone Ltd Limited''"
    by code_simp
  have 1: "LicenceRow_p0.LicenseeCompany r1 = ''BT PLC''"
    using C8 [OF r1] by (simp add: lookup_def)
  have 2: "LicenceRow_p0.LicenseeCompany r2 = ''MBNL''"
    using C8 [OF r2] by (simp add: lookup_def)
  have 3: "\<exists>t1 t2 t3.
          replaced_first ''Public Limited Company'' ''PLC'' ''Vodafone Limited Limited'' t1
        \<and> replaced_first ''PUBLIC LIMITED COMPANY'' ''PLC'' t1 t2
        \<and> replaced_first ''Limited'' ''Ltd'' t2 t3
        \<and> replaced_first ''LIMITED'' ''LTD'' t3 (LicenceRow_p0.LicenseeCompany r3)"
    using C8 [OF r3] by (simp add: lookup_def)
  have 4: "LicenceRow_p0.LicenseeCompany r3 = ''Vodafone Ltd Limited''"
    using newLicenceRow_p0_tidied(3) [OF r3] by (simp only: tw)
  from r1 r2 r3 1 2 3 4 show ?thesis by blast
qed

end
